(* ===== verification/JsPrelude.thy ===== *)
theory JsPrelude
  imports Main "HOL-Library.Signed_Division" "HOL-Library.AList"
begin

text \<open>
  The JavaScript values, string operations and control effects that every
  component of the model shares, with the lemmas about them.

  Strings are char lists: the bytes of the string's UTF-8 form.  The source's
  operations on them (trim, slice, split, includes, toLowerCase) are modelled
  on ASCII, where bytes, code points and UTF-16 units coincide.  BigInt is
  'int', whose division truncates toward zero.  A JavaScript exception
  is the left side of a sum, a value that may be undefined or null is an
  option, and a Map in insertion order is an association list updated in
  place ('AList.update').
\<close>

section \<open>Collections of rules\<close>

named_theorems js_num \<open>facts about decimal numerals and BigInt arithmetic\<close>
named_theorems js_str \<open>facts about strings and lists of strings\<close>
named_theorems js_res \<open>evaluation of computations that may throw\<close>

section \<open>Computations that may throw\<close>

datatype js_error = JsError string

type_synonym 'a result = "js_error + 'a"

definition throw :: "string \<Rightarrow> 'a result" where
  "throw m = Inl (JsError m)"

definition rbind :: "'a result \<Rightarrow> ('a \<Rightarrow> 'b result) \<Rightarrow> 'b result" where
  "rbind r f = (case r of Inl e \<Rightarrow> Inl e | Inr a \<Rightarrow> f a)"

definition rmap :: "('a \<Rightarrow> 'b) \<Rightarrow> 'a result \<Rightarrow> 'b result" where
  "rmap f r = (case r of Inl e \<Rightarrow> Inl e | Inr a \<Rightarrow> Inr (f a))"

text \<open>A value, or the fallback when computing it threw
  ('try ... catch' with a default).\<close>

definition or_default :: "'a \<Rightarrow> 'a result \<Rightarrow> 'a" where
  "or_default d r = (case r of Inl _ \<Rightarrow> d | Inr a \<Rightarrow> a)"

definition is_ok :: "'a result \<Rightarrow> bool" where
  "is_ok r = (case r of Inl _ \<Rightarrow> False | Inr _ \<Rightarrow> True)"

text \<open>Run a throwing function over a list, left to right, stopping at the
  first throw: a loop body without a handler, or 'Array.map'.\<close>

fun mapR :: "('a \<Rightarrow> 'b result) \<Rightarrow> 'a list \<Rightarrow> 'b list result" where
  "mapR f [] = Inr []"
| "mapR f (x # xs) = rbind (f x) (\<lambda>y. rmap (\<lambda>ys. y # ys) (mapR f xs))"

lemma rbind_simps [simp, js_res]:
  "rbind (Inl e) f = Inl e" "rbind (Inr a) f = f a"
  by (simp_all add: rbind_def)

lemma rmap_simps [simp, js_res]:
  "rmap g (Inl e) = Inl e" "rmap g (Inr a) = Inr (g a)"
  by (simp_all add: rmap_def)

lemma or_default_simps [simp, js_res]:
  "or_default d (Inl e) = d" "or_default d (Inr a) = a"
  by (simp_all add: or_default_def)

lemma is_ok_simps [simp, js_res]: "\<not> is_ok (Inl e)" "is_ok (Inr a)"
  by (simp_all add: is_ok_def)

lemma throw_neq_Inr [simp, js_res]:
  "throw m \<noteq> Inr a" "Inr a \<noteq> throw m" "\<not> is_ok (throw m)" "rbind (throw m) f = throw m"
  "rmap g (throw m) = throw m" "or_default d (throw m) = d"
  by (simp_all add: throw_def)

lemma is_ok_iff: "is_ok r \<longleftrightarrow> (\<exists>a. r = Inr a)"
  by (cases r) auto

lemma rbind_Inr_iff: "rbind r f = Inr b \<longleftrightarrow> (\<exists>a. r = Inr a \<and> f a = Inr b)"
  by (cases r) auto

lemma rmap_Inr_iff: "rmap f r = Inr b \<longleftrightarrow> (\<exists>a. r = Inr a \<and> b = f a)"
  by (cases r) auto

lemma mapR_Inr_iff: "mapR f xs = Inr ys \<longleftrightarrow> list_all2 (\<lambda>x y. f x = Inr y) xs ys"
proof (induction xs arbitrary: ys)
  case Nil
  show ?case by auto
next
  case (Cons x xs)
  show ?case
    by (cases ys) (auto simp: rbind_Inr_iff rmap_Inr_iff Cons.IH list_all2_Cons1)
qed

lemma mapR_length: "mapR f xs = Inr ys \<Longrightarrow> length ys = length xs"
  by (simp add: mapR_Inr_iff list_all2_lengthD)

lemma mapR_total: "(\<And>x. x \<in> set xs \<Longrightarrow> f x = Inr (g x)) \<Longrightarrow> mapR f xs = Inr (map g xs)"
  by (induction xs) auto

section \<open>Options\<close>

text \<open>The source's '??': the value unless it is null or undefined.\<close>

definition nullish :: "'a option \<Rightarrow> 'a \<Rightarrow> 'a" where
  "nullish v d = (case v of None \<Rightarrow> d | Some a \<Rightarrow> a)"

lemma nullish_simps [simp]: "nullish None d = d" "nullish (Some a) d = a"
  by (simp_all add: nullish_def)

definition opt_holds :: "('a \<Rightarrow> bool) \<Rightarrow> 'a option \<Rightarrow> bool" where
  "opt_holds P v = (case v of None \<Rightarrow> False | Some a \<Rightarrow> P a)"

lemma opt_holds_simps [simp]: "\<not> opt_holds P None" "opt_holds P (Some a) = P a"
  by (simp_all add: opt_holds_def)

section \<open>BigInt division\<close>

text \<open>BigInt division and remainder truncate toward zero; dividing by
  zero throws a RangeError.\<close>

definition bdiv :: "int \<Rightarrow> int \<Rightarrow> int" where
  "bdiv a b = a sdiv b"

definition bmod :: "int \<Rightarrow> int \<Rightarrow> int" where
  "bmod a b = a smod b"

lemma bdiv_nonneg [simp, js_num]: "0 \<le> a \<Longrightarrow> 0 \<le> b \<Longrightarrow> bdiv a b = a div b"
  by (cases "a = 0"; cases "b = 0") (simp_all add: bdiv_def signed_divide_int_def sgn_if)

lemma bmod_nonneg [simp, js_num]:
  assumes "0 \<le> a" "0 \<le> b"
  shows "bmod a b = a mod b"
  using assms by (cases "a = 0") (simp_all add: bmod_def signed_modulo_int_def)

lemma le_div_intI [js_num]: "0 < c \<Longrightarrow> x * c \<le> y \<Longrightarrow> x \<le> y div (c :: int)"
  by (metis less_irrefl nonzero_mult_div_cancel_right zdiv_mono1)

lemma div_le_intI [js_num]: "0 < c \<Longrightarrow> y \<le> x * c \<Longrightarrow> y div c \<le> (x :: int)"
  by (metis less_irrefl nonzero_mult_div_cancel_right zdiv_mono1)

lemma div_mult_le_int [js_num]: "0 < c \<Longrightarrow> y div c * c \<le> (y :: int)"
  by (simp add: minus_mod_eq_div_mult [symmetric])

section \<open>Digits and decimal numerals\<close>

definition is_digit :: "char \<Rightarrow> bool" where
  "is_digit c = (48 \<le> (of_char c :: nat) \<and> (of_char c :: nat) \<le> 57)"

definition digit_val :: "char \<Rightarrow> nat" where
  "digit_val c = of_char c - 48"

definition digit_char :: "nat \<Rightarrow> char" where
  "digit_char n = char_of (48 + n)"

definition dec_val :: "string \<Rightarrow> nat" where
  "dec_val s = foldl (\<lambda>a c. a * 10 + digit_val c) 0 s"

text \<open>'[0-9]+' over the whole string.\<close>

definition all_digits :: "string \<Rightarrow> bool" where
  "all_digits s = (s \<noteq> [] \<and> list_all is_digit s)"

fun show_nat :: "nat \<Rightarrow> string" where
  "show_nat n = (if n < 10 then [digit_char n] else show_nat (n div 10) @ [digit_char (n mod 10)])"

declare show_nat.simps [simp del]

text \<open>'toString' of a BigInt or of an integral Number.\<close>

definition show_int :: "int \<Rightarrow> string" where
  "show_int i = (if i < 0 then CHR ''-'' # show_nat (nat (- i)) else show_nat (nat i))"

text \<open>Evaluation of the string functions on literals, by 'simp'.\<close>

named_theorems js_eval \<open>evaluation of the operations on literals\<close>

lemma show_nat_small [js_eval]: "n < 10 \<Longrightarrow> show_nat n = [digit_char n]"
  by (simp add: show_nat.simps)

lemma show_nat_large [js_eval]: "10 \<le> n \<Longrightarrow> show_nat n = show_nat (n div 10) @ [digit_char (n mod 10)]"
  by (simp add: show_nat.simps [of n])

lemma digit_char_eval [js_eval]:
  "digit_char 0 = CHR ''0''" "digit_char 1 = CHR ''1''" "digit_char (Suc 0) = CHR ''1''"
  "digit_char 2 = CHR ''2''" "digit_char 3 = CHR ''3''" "digit_char 4 = CHR ''4''"
  "digit_char 5 = CHR ''5''" "digit_char 6 = CHR ''6''" "digit_char 7 = CHR ''7''"
  "digit_char 8 = CHR ''8''" "digit_char 9 = CHR ''9''"
  by (simp_all add: digit_char_def) code_simp+

lemma replicate_numeral_eval [js_eval]: "replicate (numeral k) x = x # replicate (pred_numeral k) x"
  by (simp add: numeral_eq_Suc)

lemmas digit_eval [js_eval] = is_digit_def digit_val_def dec_val_def show_int_def

lemma of_char_char_of_small: "n < 256 \<Longrightarrow> (of_char (char_of n) :: nat) = n"
  by simp

lemma digit_char_simps [simp, js_num]:
  assumes "d < 10"
  shows "is_digit (digit_char d)" "digit_val (digit_char d) = d"
  using assms by (simp_all add: is_digit_def digit_val_def digit_char_def)

lemma digit_val_bound [js_num]: "is_digit c \<Longrightarrow> digit_val c < 10"
  unfolding is_digit_def digit_val_def by linarith

lemma digit_char_val [js_num]: "is_digit c \<Longrightarrow> digit_char (digit_val c) = c"
  by (simp add: is_digit_def digit_val_def digit_char_def)

lemma foldl_dec: "foldl (\<lambda>a c. a * 10 + digit_val c) x s = x * 10 ^ length s + dec_val s"
proof (induction s arbitrary: x)
  case Nil
  show ?case by (simp add: dec_val_def)
next
  case (Cons c s)
  show ?case
    using Cons [of "x * 10 + digit_val c"] Cons [of "digit_val c"]
    by (simp add: dec_val_def algebra_simps)
qed

lemma dec_val_Nil [simp, js_num]: "dec_val [] = 0"
  by (simp add: dec_val_def)

lemma dec_val_Cons [js_num]: "dec_val (c # s) = digit_val c * 10 ^ length s + dec_val s"
  using foldl_dec [of "digit_val c" s] by (simp add: dec_val_def)

lemma dec_val_append [js_num]: "dec_val (s @ t) = dec_val s * 10 ^ length t + dec_val t"
  using foldl_dec [of "dec_val s" t] by (simp add: dec_val_def)

lemma dec_val_less: "list_all is_digit s \<Longrightarrow> dec_val s < 10 ^ length s"
proof (induction s)
  case Nil
  show ?case by simp
next
  case (Cons c s)
  have "digit_val c \<le> 9" using Cons.prems digit_val_bound [of c] by simp
  then have "digit_val c * 10 ^ length s \<le> 9 * 10 ^ length s" by simp
  moreover have "dec_val s < 10 ^ length s" using Cons by simp
  ultimately have "digit_val c * 10 ^ length s + dec_val s < 9 * 10 ^ length s + 10 ^ length s"
    by linarith
  then show ?case by (simp add: dec_val_Cons)
qed

lemma dec_val_show_nat [simp, js_num]: "dec_val (show_nat n) = n"
proof (induction n rule: show_nat.induct)
  case (1 n)
  show ?case
  proof (cases "n < 10")
    case True
    then show ?thesis by (subst show_nat.simps) (simp add: dec_val_Cons)
  next
    case False
    then show ?thesis using 1 by (subst show_nat.simps) (simp add: dec_val_append dec_val_Cons)
  qed
qed

lemma show_nat_digits [simp, js_num]: "list_all is_digit (show_nat n)"
proof (induction n rule: show_nat.induct)
  case (1 n)
  then show ?case by (subst show_nat.simps) auto
qed

lemma show_nat_nonempty [simp, js_num]: "show_nat n \<noteq> []"
  by (subst show_nat.simps) simp

lemma all_digits_show_nat [simp, js_num]: "all_digits (show_nat n)"
  by (simp add: all_digits_def)

lemma show_nat_inject [simp]: "show_nat m = show_nat n \<longleftrightarrow> m = n"
  by (metis dec_val_show_nat)

lemma show_nat_length: "0 < k \<Longrightarrow> n < 10 ^ k \<Longrightarrow> length (show_nat n) \<le> k"
proof (induction n arbitrary: k rule: show_nat.induct)
  case (1 n)
  show ?case
  proof (cases "n < 10")
    case True
    then show ?thesis using 1 by (subst show_nat.simps) simp
  next
    case False
    obtain j where j: "k = Suc j" using 1 by (cases k) auto
    have "0 < j" using False 1 j by (cases j) auto
    moreover have "n div 10 < 10 ^ j" using 1 j by (simp add: div_less_iff_less_mult mult.commute)
    ultimately have "length (show_nat (n div 10)) \<le> j" using 1 False by simp
    then show ?thesis using False j by (subst show_nat.simps) simp
  qed
qed

lemma digit_neq [simp, js_num]:
  "\<not> is_digit (CHR ''.'')" "\<not> is_digit (CHR ''-'')" "\<not> is_digit (CHR '','')"
  "\<not> is_digit (CHR '':'')" "\<not> is_digit (CHR '' '')"
  by (simp_all add: is_digit_def)

lemma digits_no_char: "list_all is_digit s \<Longrightarrow> \<not> is_digit c \<Longrightarrow> c \<notin> set s"
  by (auto simp: list_all_iff)

section \<open>String operations\<close>

definition is_space :: "char \<Rightarrow> bool" where
  "is_space c = (c = CHR '' '' \<or> (9 \<le> (of_char c :: nat) \<and> (of_char c :: nat) \<le> 13))"

definition js_trim :: "string \<Rightarrow> string" where
  "js_trim s = rev (dropWhile is_space (rev (dropWhile is_space s)))"

lemmas trim_eval [js_eval] = js_trim_def is_space_def

lemma all_digits_eval [js_eval]: "all_digits s = (s \<noteq> [] \<and> list_all is_digit s)"
  by (simp add: all_digits_def)

lemma is_space_digit [simp]: "is_digit c \<Longrightarrow> \<not> is_space c"
  by (auto simp: is_space_def is_digit_def)

lemma js_trim_id [js_str]: "s = [] \<or> (\<not> is_space (hd s) \<and> \<not> is_space (last s)) \<Longrightarrow> js_trim s = s"
proof (cases s)
  case Nil
  then show ?thesis by (simp add: js_trim_def)
next
  case (Cons x xs)
  moreover assume "s = [] \<or> (\<not> is_space (hd s) \<and> \<not> is_space (last s))"
  ultimately have x: "\<not> is_space x" and l: "\<not> is_space (last (x # xs))" by auto
  have 1: "dropWhile is_space (x # xs) = x # xs" using x by simp
  obtain ys y where y: "x # xs = ys @ [y]" by (metis append_butlast_last_id list.distinct(1))
  have "\<not> is_space y" using l y by (metis last_snoc)
  then have "dropWhile is_space (rev (x # xs)) = rev (x # xs)" unfolding y by simp
  then show ?thesis using Cons 1 by (simp only: js_trim_def rev_rev_ident)
qed

lemma js_trim_digits [simp, js_str]: "all_digits s \<Longrightarrow> js_trim s = s"
  by (rule js_trim_id) (auto simp: all_digits_def list_all_iff)

definition to_lower :: "char \<Rightarrow> char" where
  "to_lower c = (if 65 \<le> (of_char c :: nat) \<and> (of_char c :: nat) \<le> 90
                 then char_of ((of_char c :: nat) + 32) else c)"

definition pad_start :: "nat \<Rightarrow> char \<Rightarrow> string \<Rightarrow> string" where
  "pad_start w c s = replicate (w - length s) c @ s"

definition pad_end :: "nat \<Rightarrow> char \<Rightarrow> string \<Rightarrow> string" where
  "pad_end w c s = s @ replicate (w - length s) c"

lemmas pad_eval [js_eval] = pad_start_def pad_end_def

lemma length_pad_start [simp, js_str]: "length (pad_start w c s) = max w (length s)"
  by (simp add: pad_start_def max_def)

lemma dec_val_zeros [simp, js_num]: "dec_val (replicate k (CHR ''0'')) = 0"
  by (induction k) (simp_all add: dec_val_Cons digit_val_def)

lemma is_digit_zero [simp]: "is_digit (CHR ''0'')"
  by (simp add: is_digit_def)

lemma list_all_replicate_digit [simp]: "list_all is_digit (replicate k (CHR ''0''))"
  by (simp add: list_all_iff)

lemma dec_val_pad_start [simp, js_num]: "dec_val (pad_start w (CHR ''0'') s) = dec_val s"
  by (simp add: pad_start_def dec_val_append)

lemma all_digits_pad [simp]: "list_all is_digit s \<Longrightarrow> list_all is_digit (pad_start w (CHR ''0'') s)"
  by (simp add: pad_start_def)

fun split_on :: "char \<Rightarrow> string \<Rightarrow> string list" where
  "split_on c [] = [[]]"
| "split_on c (x # xs) = (if x = c then [] # split_on c xs
     else (case split_on c xs of [] \<Rightarrow> [[x]] | y # ys \<Rightarrow> (x # y) # ys))"

fun js_join :: "string \<Rightarrow> string list \<Rightarrow> string" where
  "js_join sep [] = []"
| "js_join sep [x] = x"
| "js_join sep (x # y # ys) = x @ sep @ js_join sep (y # ys)"

lemma split_on_nonempty [simp, js_str]: "split_on c s \<noteq> []"
  by (induction s) (auto split: list.splits)

lemma split_on_no_sep [js_str]: "c \<notin> set s \<Longrightarrow> split_on c s = [s]"
  by (induction s) auto

lemma split_on_append [js_str]: "c \<notin> set s \<Longrightarrow> split_on c (s @ c # t) = s # split_on c t"
  by (induction s) auto

lemma split_on_pieces [js_str]: "p \<in> set (split_on c s) \<Longrightarrow> c \<notin> set p"
proof (induction s arbitrary: p)
  case Nil
  then show ?case by simp
next
  case (Cons x xs)
  obtain y ys where y: "split_on c xs = y # ys" using split_on_nonempty by (metis neq_Nil_conv)
  show ?case using Cons y by (auto split: if_splits)
qed

text \<open>Splitting on a character and joining with it are inverse on pieces
  that do not hold it, as long as there is at least one piece.\<close>

lemma split_on_join [js_str]:
  "ps \<noteq> [] \<Longrightarrow> (\<And>p. p \<in> set ps \<Longrightarrow> c \<notin> set p) \<Longrightarrow> split_on c (js_join [c] ps) = ps"
proof (induction "[c]" ps rule: js_join.induct)
  case (3 x y ys)
  then show ?case by (simp add: split_on_append)
qed (auto simp: split_on_no_sep)

lemma join_split_on [js_str]: "js_join [c] (split_on c s) = s"
proof (induction s)
  case Nil
  show ?case by simp
next
  case (Cons x xs)
  obtain y ys where y: "split_on c xs = y # ys" using split_on_nonempty by (metis neq_Nil_conv)
  show ?case using Cons y by (cases ys) auto
qed

definition starts_with :: "string \<Rightarrow> string \<Rightarrow> bool" where
  "starts_with p s = (take (length p) s = p)"

lemma starts_with_append [simp, js_str]: "starts_with p (p @ s)"
  by (simp add: starts_with_def)

lemma starts_with_eval [js_eval, simp]:
  "starts_with [] s" "\<not> starts_with (c # p) []"
  "starts_with (c # p) (d # s) = (c = d \<and> starts_with p s)"
  by (auto simp: starts_with_def)

lemma starts_withD: "starts_with p s \<Longrightarrow> s = p @ drop (length p) s"
  by (metis append_take_drop_id starts_with_def)

fun str_includes :: "string \<Rightarrow> string \<Rightarrow> bool" where
  "str_includes p [] = (p = [])"
| "str_includes p (x # xs) = (starts_with p (x # xs) \<or> str_includes p xs)"

text \<open>Array equality prefix 'slice(0, n)' and the rest are the
  library's take and drop: past the end both stop, as slice does.\<close>

section \<open>BigInt of a string\<close>

text \<open>'BigInt(s)': white space is trimmed, the empty string is zero, a
  '0x', '0o' or '0b' literal has no sign, a decimal may have
  one, and anything else throws a SyntaxError.\<close>

definition radix_digit :: "nat \<Rightarrow> char \<Rightarrow> nat option" where
  "radix_digit b c = (let n = (of_char c :: nat);
       v = (if 48 \<le> n \<and> n \<le> 57 then n - 48 else if 97 \<le> n \<and> n \<le> 102 then n - 87
            else if 65 \<le> n \<and> n \<le> 70 then n - 55 else 99)
     in if v < b then Some v else None)"

fun radix_val :: "nat \<Rightarrow> nat \<Rightarrow> string \<Rightarrow> nat option" where
  "radix_val b acc [] = Some acc"
| "radix_val b acc (c # s) = (case radix_digit b c of None \<Rightarrow> None | Some v \<Rightarrow> radix_val b (acc * b + v) s)"

definition big_int :: "string \<Rightarrow> int result" where
  "big_int s = (let t = js_trim s; p = map to_lower (take 2 t); r = drop 2 t;
       err = throw (''Cannot convert '' @ s @ '' to a BigInt'');
       lit = (\<lambda>b. if r = [] then err else (case radix_val b 0 r of None \<Rightarrow> err | Some n \<Rightarrow> Inr (int n)))
     in if t = [] then Inr 0
        else if p = ''0x'' then lit 16 else if p = ''0o'' then lit 8 else if p = ''0b'' then lit 2
        else if all_digits t then Inr (int (dec_val t))
        else if hd t = CHR ''-'' \<and> all_digits (tl t) then Inr (- int (dec_val (tl t)))
        else if hd t = CHR ''+'' \<and> all_digits (tl t) then Inr (int (dec_val (tl t)))
        else err)"

lemma to_lower_digit [simp]: "is_digit c \<Longrightarrow> to_lower c = c"
  by (simp add: to_lower_def is_digit_def)

lemma big_int_digits [js_num, simp]: "all_digits s \<Longrightarrow> big_int s = Inr (int (dec_val s))"
proof -
  assume s: "all_digits s"
  have "map to_lower (take 2 s) = take 2 s"
    using s by (intro map_idI to_lower_digit) (auto simp: all_digits_def list_all_iff dest: in_set_takeD)
  moreover have "take 2 s \<noteq> [CHR ''0'', c]" if "\<not> is_digit c" for c
  proof
    assume "take 2 s = [CHR ''0'', c]"
    then have "c \<in> set s" by (metis in_set_takeD list.set_intros(1,2))
    then show False using s that by (auto simp: all_digits_def list_all_iff)
  qed
  ultimately show ?thesis using s
    by (simp add: big_int_def is_digit_def all_digits_def)
qed

lemma big_int_show [js_num, simp]: "big_int (show_int i) = Inr i"
proof (cases "i < 0")
  case True
  have "js_trim (CHR ''-'' # show_nat n) = CHR ''-'' # show_nat n" for n
  proof (rule js_trim_id)
    have "is_digit (last (show_nat n))" using show_nat_digits [of n] by (simp add: list_all_iff)
    then have "\<not> is_space (last (show_nat n))" by simp
    then show "CHR ''-'' # show_nat n = [] \<or> \<not> is_space (hd (CHR ''-'' # show_nat n)) \<and>
      \<not> is_space (last (CHR ''-'' # show_nat n))" using is_space_digit by (auto simp: is_space_def)
  qed
  moreover have "\<not> all_digits (CHR ''-'' # s)" for s by (simp add: all_digits_def)
  moreover have "to_lower (CHR ''-'') = CHR ''-''" by (simp add: to_lower_def)
  ultimately show ?thesis using True by (simp add: big_int_def show_int_def Let_def numeral_2_eq_2)
next
  case False
  then show ?thesis by (simp add: show_int_def)
qed

section \<open>JSON string literals and hexadecimal\<close>

definition hex_char :: "nat \<Rightarrow> char" where
  "hex_char d = (if d < 10 then char_of (48 + d) else char_of (87 + d))"

text \<open>'JSON.stringify' of a string: quotes, backslashes and control
  characters are escaped, everything else is copied.\<close>

definition json_char :: "char \<Rightarrow> string" where
  "json_char c = (let n = (of_char c :: nat) in
     if n = 34 then [CHR 0x5C, CHR 0x22] else if n = 92 then [CHR 0x5C, CHR 0x5C]
     else if n = 8 then [CHR 0x5C, CHR ''b''] else if n = 12 then [CHR 0x5C, CHR ''f'']
     else if n = 10 then [CHR 0x5C, CHR ''n''] else if n = 13 then [CHR 0x5C, CHR ''r'']
     else if n = 9 then [CHR 0x5C, CHR ''t'']
     else if n < 32 then [CHR 0x5C, CHR ''u'', CHR ''0'', CHR ''0'', hex_char (n div 16), hex_char (n mod 16)]
     else [c])"

definition json_quote :: "string \<Rightarrow> string" where
  "json_quote s = [CHR 0x22] @ concat (map json_char s) @ [CHR 0x22]"

section \<open>Arrays, Sets and Maps in insertion order\<close>

text \<open>'[...new Set(xs)]': the first occurrence of each value.\<close>

definition dedupe :: "'a list \<Rightarrow> 'a list" where
  "dedupe xs = rev (remdups (rev xs))"

lemma set_dedupe [simp]: "set (dedupe xs) = set xs"
  by (simp add: dedupe_def)

lemma distinct_dedupe [simp]: "distinct (dedupe xs)"
  by (simp add: dedupe_def)

lemma dedupe_id: "distinct xs \<Longrightarrow> dedupe xs = xs"
  by (simp add: dedupe_def distinct_remdups_id)

lemma dedupe_snoc: "dedupe (xs @ [x]) = (if x \<in> set xs then dedupe xs else dedupe xs @ [x])"
  by (simp add: dedupe_def)

lemma dedupe_Nil [simp]: "dedupe [] = []"
  by (simp add: dedupe_def)

lemma map_of_update [simp]: "map_of (AList.update k v m) = (map_of m)(k \<mapsto> v)"
  by (rule update_conv')

text \<open>Splitting an array into consecutive batches of at most 'n'
  ('for (let i = 0; i < xs.length; i += n) xs.slice(i, i + n)').\<close>

fun batches :: "nat \<Rightarrow> 'a list \<Rightarrow> 'a list list" where
  "batches n [] = []"
| "batches n (x # xs) = take (Suc (n - 1)) (x # xs) # batches n (drop (n - 1) xs)"

lemma concat_batches [simp]: "concat (batches n xs) = xs"
  by (induction n xs rule: batches.induct) simp_all

lemma batches_length: "0 < n \<Longrightarrow> b \<in> set (batches n xs) \<Longrightarrow> b \<noteq> [] \<and> length b \<le> n"
  by (induction n xs rule: batches.induct) (auto simp: min_def)

lemma batches_count: "0 < n \<Longrightarrow> length (batches n xs) = (length xs + n - 1) div n"
proof (induction n xs rule: batches.induct)
  case (1 n)
  then show ?case by simp
next
  case (2 n x xs)
  have IH: "length (batches n (drop (n - 1) xs)) = (length (drop (n - 1) xs) + n - 1) div n"
    using 2 by blast
  show ?case
  proof (cases "length xs < n - 1")
    case True
    have "n div n = 1" "(length xs + n) div n = 1"
      using 2 True by (simp_all add: div_nat_eqI)
    moreover have "(n - 1) div n = 0" using 2 by simp
    ultimately show ?thesis using IH True by simp
  next
    case False
    have "length xs + n = length xs - (n - 1) + (n - 1) + n" using False by simp
    then show ?thesis using IH 2 False
      by (simp add: le_div_geq)
  qed
qed

end
