(* ===== verification/Amounts.thy ===== *)
theory Amounts
  imports JsPrelude
begin

text \<open>
  Amounts ('api/src/amount.ts'): LASSECASH as decimal strings on the
  wire and BigInt base units inside, and the price arithmetic of
  'api/src/legacy-price.ts', which uses the same fixed-point form at
  other scales.  The locale 'decimal_codec' states what a client of such
  a pair of conversions relies on; it is interpreted on the source's own
  'fromUnits' and 'toUnits'.
\<close>

section \<open>The contract of a fixed-point codec\<close>

locale decimal_codec =
  fixes render :: "int \<Rightarrow> string"
    and parse :: "string \<Rightarrow> int result"
    and dom :: "int set"
  assumes parse_render: "u \<in> dom \<Longrightarrow> parse (render u) = Inr u"
begin

definition canon :: "string \<Rightarrow> string result" where
  "canon s = rmap render (parse s)"

lemma render_inj: "inj_on render dom"
  by (metis Inr_inject inj_onI parse_render)

lemma canon_render: "u \<in> dom \<Longrightarrow> canon (render u) = Inr (render u)"
  by (simp add: canon_def parse_render)

lemma canon_idem:
  assumes "canon s = Inr t" "\<And>u. parse s = Inr u \<Longrightarrow> u \<in> dom"
  shows "canon t = Inr t"
  using assms by (auto simp: canon_def rmap_Inr_iff parse_render)

end

section \<open>Base units and decimal strings (amount.ts)\<close>

type_synonym amount = string

definition UNIT :: int where
  "UNIT = 100000000"

definition DECIMALS :: nat where
  "DECIMALS = 8"

text \<open>The pattern '^-?[0-9]+(.[0-9]+)?$'.\<close>

definition strip_minus :: "string \<Rightarrow> string" where
  "strip_minus s = (if starts_with ''-'' s then tl s else s)"

definition decimal_re :: "string \<Rightarrow> bool" where
  "decimal_re s = (let w = takeWhile is_digit s; r = dropWhile is_digit s in
     w \<noteq> [] \<and> (r = [] \<or> (hd r = CHR ''.'' \<and> all_digits (tl r))))"

definition amount_re :: "string \<Rightarrow> bool" where
  "amount_re s = decimal_re (strip_minus s)"

definition toUnits :: "amount \<Rightarrow> int result" where
  "toUnits amt = (let s = js_trim amt in
     if \<not> amount_re s then throw (''not a valid amount: '' @ json_quote amt)
     else
       let neg = starts_with ''-'' s;
           body = (if neg then drop 1 s else s);
           parts = split_on (CHR ''.'') body;
           whole = hd parts;
           frac = (if length parts > 1 then parts ! 1 else []);
           padded = take DECIMALS (frac @ replicate DECIMALS (CHR ''0''));
           units = int (dec_val whole) * UNIT + int (dec_val padded)
       in Inr (if neg then - units else units))"

definition fromUnits :: "int \<Rightarrow> amount" where
  "fromUnits units = (let neg = units < 0; v = (if neg then - units else units);
       whole = bdiv v UNIT; frac = bmod v UNIT in
     (if neg then ''-'' else []) @ show_int whole @ ''.'' @ pad_start DECIMALS (CHR ''0'') (show_int frac))"

definition normalize_amount :: "amount \<Rightarrow> amount result" where
  "normalize_amount a = rmap fromUnits (toUnits a)"

definition compare_amounts :: "amount \<Rightarrow> amount \<Rightarrow> int result" where
  "compare_amounts a b = rbind (toUnits a) (\<lambda>x. rmap (\<lambda>y. if x < y then -1 else if x > y then 1 else 0) (toUnits b))"

definition isZero :: "amount \<Rightarrow> bool result" where
  "isZero a = rmap (\<lambda>u. u = 0) (toUnits a)"

definition isPositive :: "amount \<Rightarrow> bool result" where
  "isPositive a = rmap (\<lambda>u. u > 0) (toUnits a)"

definition add_amounts :: "amount list \<Rightarrow> amount result" where
  "add_amounts as = rmap fromUnits (foldl (\<lambda>acc a. rbind acc (\<lambda>x. rmap (\<lambda>u. x + u) (toUnits a))) (Inr 0) as)"

definition subtract_amounts :: "amount \<Rightarrow> amount \<Rightarrow> amount result" where
  "subtract_amounts a b = rbind (toUnits a) (\<lambda>x. rmap (\<lambda>y. fromUnits (x - y)) (toUnits b))"

text \<open>'format': the options are its arguments; 'to_locale' stands
  for 'Number(whole).toLocaleString(locale, ...)', the runtime's
  own grouping.\<close>

definition format_amount :: "(string \<Rightarrow> string) \<Rightarrow> nat \<Rightarrow> bool \<Rightarrow> amount \<Rightarrow> string result" where
  "format_amount to_locale decimals grouped amt = rmap (\<lambda>units.
     let neg = units < 0; v = (if neg then - units else units);
         whole = show_int (bdiv v UNIT);
         frac = take decimals (pad_start DECIMALS (CHR ''0'') (show_int (bmod v UNIT)));
         wholeOut = (if grouped then to_locale whole else whole)
     in (if neg then ''-'' else []) @ wholeOut @ (if decimals > 0 then ''.'' @ frac else []))
     (toUnits amt)"

definition toBaseUnitArg :: "string \<Rightarrow> string result" where
  "toBaseUnitArg inp = rbind (toUnits inp) (\<lambda>units.
     if units < 0 then throw ''amount cannot be negative'' else Inr (show_int units))"

definition formatMultiplier :: "nat \<Rightarrow> amount \<Rightarrow> string result" where
  "formatMultiplier decimals m = rmap (\<lambda>s. s @ ''x'') (format_amount id decimals False m)"

definition formatPercent :: "nat \<Rightarrow> amount \<Rightarrow> string result" where
  "formatPercent decimals p = rmap (\<lambda>s. s @ ''%'') (format_amount id decimals False p)"

section \<open>Legacy price arithmetic (legacy-price.ts)\<close>

definition scaled :: "string \<Rightarrow> nat \<Rightarrow> int result" where
  "scaled dec places = (let s = js_trim dec in
     if \<not> decimal_re s then throw (''not a decimal: '' @ dec)
     else
       let m1 = takeWhile is_digit s; m2 = drop 1 (dropWhile is_digit s);
           frac = pad_end places (CHR ''0'') (take places m2)
       in Inr (int (dec_val m1) * 10 ^ places + int (dec_val frac)))"

definition toDecimal :: "int \<Rightarrow> nat \<Rightarrow> string" where
  "toDecimal v places = (let s = pad_start (places + 1) (CHR ''0'') (show_int v) in
     (if places = 0 then [] else take (length s - places) s) @ ''.''
       @ (if places = 0 then s else drop (length s - places) s))"

definition usdValue :: "int \<Rightarrow> string \<Rightarrow> string result" where
  "usdValue baseUnits usdPerLc = rmap (\<lambda>price.
     toDecimal (bdiv (baseUnits * price) (10 ^ 8 * 10 ^ 6)) 2) (scaled usdPerLc 8)"

section \<open>Parsing what was rendered\<close>

lemma takeWhile_digits_dot:
  "list_all is_digit w \<Longrightarrow> takeWhile is_digit (w @ CHR ''.'' # f) = w"
  "list_all is_digit w \<Longrightarrow> dropWhile is_digit (w @ CHR ''.'' # f) = CHR ''.'' # f"
  by (simp_all add: list_all_iff takeWhile_append2 dropWhile_append2)

lemma decimal_re_dot [intro]: "all_digits w \<Longrightarrow> all_digits f \<Longrightarrow> decimal_re (w @ CHR ''.'' # f)"
  by (simp add: decimal_re_def all_digits_def takeWhile_digits_dot)

lemma decimal_re_digits [intro]: "all_digits w \<Longrightarrow> decimal_re w"
proof -
  assume w: "all_digits w"
  then have tw: "takeWhile is_digit w = w" and dw: "dropWhile is_digit w = []"
    by (simp_all add: all_digits_def list_all_iff)
  show ?thesis using w unfolding decimal_re_def Let_def tw dw by (simp add: all_digits_def)
qed

lemma decimal_re_cases:
  assumes "decimal_re s"
  obtains (whole) "all_digits s" | (frac) w f where "s = w @ CHR ''.'' # f" "all_digits w" "all_digits f"
proof -
  define w where "w = takeWhile is_digit s"
  define r where "r = dropWhile is_digit s"
  have s: "s = w @ r" unfolding w_def r_def by simp
  have "w \<noteq> []" using assms by (simp add: decimal_re_def w_def Let_def)
  moreover have "list_all is_digit w" by (auto simp: w_def list_all_iff dest: set_takeWhileD)
  ultimately have w: "all_digits w" by (simp add: all_digits_def)
  show ?thesis
  proof (cases "r = []")
    case True
    then show ?thesis using s w whole by simp
  next
    case False
    then have r: "hd r = CHR ''.''" "all_digits (tl r)" using assms by (auto simp: decimal_re_def r_def Let_def)
    then have "s = w @ CHR ''.'' # tl r" using s False by (metis list.collapse)
    then show ?thesis using frac w r by blast
  qed
qed

lemma not_minus_digits: "all_digits s \<Longrightarrow> \<not> starts_with ''-'' (s @ t)"
  by (cases s) (auto simp: all_digits_def starts_with_def)

lemma strip_minus_simps:
  "all_digits w \<Longrightarrow> strip_minus (w @ t) = w @ t" "strip_minus (CHR ''-'' # s) = s"
  using not_minus_digits by (auto simp: strip_minus_def starts_with_def)

lemma minus_not_space [simp]: "\<not> is_space (CHR ''-'')"
  by (simp add: is_space_def)

lemmas amount_eval [js_eval] =
  toUnits_def amount_re_def strip_minus_def decimal_re_def fromUnits_def normalize_amount_def
  UNIT_def DECIMALS_def scaled_def toDecimal_def

text \<open>What 'toUnits' returns on a decimal with a sign: the truncated
  value at eight places.\<close>

definition signed :: "bool \<Rightarrow> string \<Rightarrow> string" where
  "signed neg s = (if neg then ''-'' else []) @ s"

lemma trim_signed:
  assumes "all_digits w" "all_digits f"
  shows "js_trim (signed neg (w @ CHR ''.'' # f)) = signed neg (w @ CHR ''.'' # f)"
proof -
  have "\<not> is_space (hd (signed neg (w @ CHR ''.'' # f)))"
    using assms by (cases w) (auto simp: signed_def all_digits_def is_space_def is_digit_def)
  moreover have "\<not> is_space (last (signed neg (w @ CHR ''.'' # f)))"
    using assms by (cases f rule: rev_cases) (auto simp: signed_def all_digits_def)
  ultimately show ?thesis by (intro js_trim_id) simp
qed

lemma toUnits_signed:
  assumes "all_digits w" "all_digits f"
  shows "toUnits (signed neg (w @ CHR ''.'' # f)) =
    Inr ((if neg then -1 else 1) *
         (int (dec_val w) * UNIT + int (dec_val (take 8 (f @ replicate 8 (CHR ''0''))))))"
proof -
  let ?s = "signed neg (w @ CHR ''.'' # f)"
  have re: "amount_re ?s"
    using assms by (auto simp: amount_re_def signed_def strip_minus_simps)
  have body: "(if starts_with ''-'' ?s then drop 1 ?s else ?s) = w @ CHR ''.'' # f"
    using not_minus_digits [OF assms(1)] by (auto simp: signed_def starts_with_def)
  have neg: "starts_with ''-'' ?s = neg"
    using not_minus_digits [OF assms(1)] by (auto simp: signed_def starts_with_def)
  have sp: "split_on (CHR ''.'') (w @ CHR ''.'' # f) = [w, f]"
    using assms digits_no_char [of _ "CHR ''.''"]
    by (simp add: all_digits_def split_on_append split_on_no_sep)
  show ?thesis
    unfolding toUnits_def trim_signed [OF assms] Let_def body
    using re neg sp by (simp add: DECIMALS_def)
qed

lemma toUnits_signed_whole:
  assumes "all_digits w"
  shows "toUnits (signed neg w) = Inr ((if neg then -1 else 1) * (int (dec_val w) * UNIT))"
proof -
  let ?s = "signed neg w"
  have tr: "js_trim ?s = ?s"
  proof (intro js_trim_id disjI2 conjI)
    have "is_digit (hd w)" "is_digit (last w)" "w \<noteq> []" using assms by (auto simp: all_digits_def list_all_iff)
    then show "\<not> is_space (hd ?s)" "\<not> is_space (last ?s)"
      by (auto simp: signed_def minus_not_space)
  qed
  have neg: "starts_with ''-'' ?s = neg"
    using not_minus_digits [OF assms, of "[]"] by (auto simp: signed_def starts_with_def)
  have re: "amount_re ?s"
    using assms decimal_re_digits strip_minus_simps(1) [of w "[]"] by (auto simp: amount_re_def signed_def strip_minus_simps)
  have body: "(if starts_with ''-'' ?s then drop 1 ?s else ?s) = w"
    using not_minus_digits [OF assms, of "[]"] by (auto simp: signed_def starts_with_def)
  have sp: "split_on (CHR ''.'') w = [w]"
    using assms digits_no_char [of _ "CHR ''.''"] by (simp add: all_digits_def split_on_no_sep)
  show ?thesis
    unfolding toUnits_def tr Let_def body using re neg sp by (simp add: DECIMALS_def)
qed

lemma take_pad_value:
  "list_all is_digit f \<Longrightarrow>
   dec_val (take k (f @ replicate k (CHR ''0''))) = dec_val f * 10 ^ k div 10 ^ length f"
proof (cases "length f \<le> k")
  case True
  then obtain d where d: "k = length f + d" by (metis le_add_diff_inverse)
  have "take k (f @ replicate k (CHR ''0'')) = f @ replicate d (CHR ''0'')" by (simp add: d)
  then show ?thesis by (simp add: dec_val_append d power_add)
next
  case False
  assume dig: "list_all is_digit f"
  define a where "a = take k f"
  define b where "b = drop k f"
  have f: "f = a @ b" by (simp add: a_def b_def)
  have lf: "length f = k + length b" using False by (simp add: b_def)
  have "dec_val b < 10 ^ length b" using dig f by (intro dec_val_less) simp
  then have "dec_val f div 10 ^ length b = dec_val a" by (simp add: f dec_val_append)
  moreover have "dec_val f * 10 ^ k div 10 ^ length f = dec_val f div 10 ^ length b"
    by (simp add: lf power_add)
  moreover have "take k (f @ replicate k (CHR ''0'')) = a" using False by (simp add: a_def)
  ultimately show ?thesis by simp
qed

lemma fromUnits_eq:
  "fromUnits u = signed (u < 0) (show_nat (nat \<bar>u\<bar> div 100000000) @ CHR ''.''
     # pad_start 8 (CHR ''0'') (show_nat (nat \<bar>u\<bar> mod 100000000)))"
proof -
  define v where "v = nat \<bar>u\<bar>"
  have v: "(if u < 0 then - u else u) = int v" by (simp add: v_def)
  have w: "bdiv (int v) UNIT = int (v div 100000000)" "bmod (int v) UNIT = int (v mod 100000000)"
    by (simp_all add: UNIT_def zdiv_int zmod_int)
  show ?thesis
    unfolding fromUnits_def Let_def v w by (simp add: show_int_def signed_def DECIMALS_def v_def)
qed

lemma frac_part_digits:
  assumes "n < 100000000"
  shows "all_digits (pad_start 8 (CHR ''0'') (show_nat n))"
    "length (pad_start 8 (CHR ''0'') (show_nat n)) = 8"
    "take 8 (pad_start 8 (CHR ''0'') (show_nat n) @ replicate 8 (CHR ''0'')) = pad_start 8 (CHR ''0'') (show_nat n)"
proof -
  have "length (show_nat n) \<le> 8" using assms by (intro show_nat_length) simp_all
  then show len: "length (pad_start 8 (CHR ''0'') (show_nat n)) = 8" by simp
  then show "take 8 (pad_start 8 (CHR ''0'') (show_nat n) @ replicate 8 (CHR ''0'')) = pad_start 8 (CHR ''0'') (show_nat n)"
    by simp
  show "all_digits (pad_start 8 (CHR ''0'') (show_nat n))"
    using len by (auto simp: all_digits_def simp del: length_pad_start)
qed

lemma toUnits_render [js_num]: "toUnits (fromUnits u) = Inr u"
proof -
  define v where "v = nat \<bar>u\<bar>"
  have lt: "v mod 100000000 < 100000000" by simp
  note fp = frac_part_digits [OF lt]
  have "int v = int (v div 100000000) * 100000000 + int (v mod 100000000)"
    by (metis of_nat_add of_nat_mult of_nat_numeral div_mult_mod_eq)
  moreover have "(if u < 0 then -1 else 1) * int v = u" by (simp add: v_def)
  ultimately show ?thesis
    unfolding fromUnits_eq v_def [symmetric]
    by (subst toUnits_signed) (use fp in \<open>auto simp: UNIT_def\<close>)
qed

interpretation lc: decimal_codec fromUnits toUnits UNIV
  by unfold_locales (rule toUnits_render)

section \<open>What the conversions guarantee\<close>

text \<open>C25. Rendering base units and parsing them back is the identity, for every
  integer amount, negative ones included: 'toUnits' inverts
  'fromUnits', so a balance never changes by being shown and read back.\<close>

theorem toUnits_fromUnits: "toUnits (fromUnits u) = Inr u"
  by (rule toUnits_render)

lemma toUnits_signed_value:
  assumes "all_digits w" "all_digits f"
  shows "toUnits (signed neg (w @ CHR ''.'' # f)) =
    Inr ((if neg then -1 else 1) * int (dec_val (w @ f) * 10 ^ 8 div 10 ^ length f))"
proof -
  have f: "list_all is_digit f" using assms by (simp add: all_digits_def)
  have "dec_val (w @ f) * 10 ^ 8 = dec_val f * 10 ^ 8 + dec_val w * 10 ^ 8 * 10 ^ length f"
    by (simp add: dec_val_append algebra_simps)
  then have "dec_val (w @ f) * 10 ^ 8 div 10 ^ length f =
    dec_val w * 10 ^ 8 + dec_val f * 10 ^ 8 div 10 ^ length f"
    by (simp add: div_mult_self1)
  then show ?thesis using take_pad_value [OF f, of 8] toUnits_signed [OF assms, of neg]
    by (simp add: UNIT_def)
qed

text \<open>An amount typed with any number of decimals is read as its value in
  units of 1e-8 truncated toward zero: nothing is rounded up, so the site never
  shows or sends a unit more than was written.\<close>

theorem toUnits_truncates:
  assumes "all_digits w" "all_digits f"
  shows "toUnits ((if neg then ''-'' else []) @ w @ ''.'' @ f) =
    Inr ((if neg then -1 else 1) * int (dec_val (w @ f) * 10 ^ 8 div 10 ^ length f))"
  using toUnits_signed_value [OF assms, of neg] by (simp add: signed_def)

lemma toUnits_truncates_witness: "toUnits ''-12.123456789'' = Inr (-1212345678)"
  using toUnits_truncates [of "''12''" "''123456789''" True]
  by (simp add: all_digits_def is_digit_def dec_val_def digit_val_def)

text \<open>'normalize' is idempotent: its result is canonical, and
  normalising it again returns the same string.\<close>

theorem normalize_idempotent:
  assumes "normalize_amount s = Inr t"
  shows "normalize_amount t = Inr t"
  using lc.canon_idem [of s t] assms by (simp add: normalize_amount_def lc.canon_def)

lemma normalize_idempotent_witness:
  "normalize_amount ''7.5'' = Inr ''7.50000000'' \<and> normalize_amount ''7.50000000'' = Inr ''7.50000000''"
proof -
  have "normalize_amount ''7.5'' = Inr ''7.50000000''" by (simp add: js_eval)
  then show ?thesis using normalize_idempotent by blast
qed

lemma add_fold:
  "foldl (\<lambda>acc a. rbind acc (\<lambda>x. rmap (\<lambda>u. x + u) (toUnits a))) (Inr z) as
     = rmap (\<lambda>us. z + sum_list us) (mapR toUnits as)"
proof (induction as arbitrary: z)
  case Nil
  show ?case by simp
next
  case (Cons a as)
  have err: "foldl (\<lambda>acc a. rbind acc (\<lambda>x. rmap (\<lambda>u. x + u) (toUnits a))) (Inl e) bs = Inl e" for e bs
    by (induction bs) simp_all
  show ?case
    by (cases "toUnits a"; cases "mapR toUnits as") (simp_all add: err Cons.IH algebra_simps)
qed

text \<open>'add' is exact integer addition of the amounts: it throws
  exactly when one of them does not parse, and otherwise its result parses to
  the sum, with no drift however many amounts are added.\<close>

theorem add_exact:
  "add_amounts as = rmap (\<lambda>us. fromUnits (sum_list us)) (mapR toUnits as)"
  unfolding add_amounts_def add_fold by (cases "mapR toUnits as") simp_all

text \<open>'toBaseUnitArg' accepts exactly the non-negative amounts, and
  what it hands an entrypoint is the plain digits of the base units.\<close>

theorem toBaseUnitArg_spec:
  "toBaseUnitArg s = Inr t \<longleftrightarrow> (\<exists>u. toUnits s = Inr (int u) \<and> t = show_nat u)"
proof (cases "toUnits s")
  case (Inl e)
  then show ?thesis by (simp add: toBaseUnitArg_def)
next
  case (Inr v)
  show ?thesis
  proof (cases "v < 0")
    case True
    then show ?thesis using Inr by (auto simp: toBaseUnitArg_def)
  next
    case False
    then obtain n where "v = int n" by (metis nonneg_int_cases not_less)
    then show ?thesis using Inr by (auto simp: toBaseUnitArg_def show_int_def)
  qed
qed

lemma toUnits_bad_sign [js_num]: "toUnits ''1-'' = throw (''not a valid amount: '' @ json_quote ''1-'')"
  by code_simp

lemma format_full: "format_amount f 8 False a = normalize_amount a"
proof (cases "toUnits a")
  case (Inl e)
  then show ?thesis by (simp add: format_amount_def normalize_amount_def)
next
  case (Inr u)
  have "length (pad_start 8 (CHR ''0'') (show_int (bmod (if u < 0 then - u else u) UNIT))) = 8"
  proof -
    obtain n where n: "(if u < 0 then - u else u) = int n" by (metis nonneg_int_cases neg_le_0_iff_le not_less order.strict_implies_order)
    have "bmod (int n) UNIT = int (n mod 100000000)" by (simp add: UNIT_def zmod_int)
    then show ?thesis using frac_part_digits(2) [of "n mod 100000000"] unfolding n by (simp add: show_int_def)
  qed
  then show ?thesis using Inr
    by (simp add: format_amount_def normalize_amount_def fromUnits_def Let_def DECIMALS_def)
qed

end
