(* ===== verification/Json.thy ===== *)
theory Json
  imports JsPrelude
begin

text \<open>
  JSON values, JSON.stringify and JSON.parse, as the language defines them on
  what the source reads and writes.  Objects keep their keys in insertion order
  (the source uses no integer-like keys, which JavaScript would move first); an
  integral number is an int, any other number the token it was written with.
\<close>

datatype json = JNull | JBool bool | JNum int | JReal string | JStr string | JArr "json list"
  | JObj "(string \<times> json) list"

definition jfield :: "string \<Rightarrow> json \<Rightarrow> json option" where
  "jfield k j = (case j of JObj kvs \<Rightarrow> map_of kvs k | _ \<Rightarrow> None)"

definition jstr :: "json \<Rightarrow> string option" where
  "jstr j = (case j of JStr s \<Rightarrow> Some s | _ \<Rightarrow> None)"

definition jarr :: "json \<Rightarrow> json list option" where
  "jarr j = (case j of JArr xs \<Rightarrow> Some xs | _ \<Rightarrow> None)"

definition jnum :: "json \<Rightarrow> int option" where
  "jnum j = (case j of JNum n \<Rightarrow> Some n | _ \<Rightarrow> None)"

section \<open>JSON.stringify\<close>

fun stringify :: "json \<Rightarrow> string"
  and stringify_list :: "json list \<Rightarrow> string"
  and stringify_fields :: "(string \<times> json) list \<Rightarrow> string" where
  "stringify JNull = ''null''"
| "stringify (JBool b) = (if b then ''true'' else ''false'')"
| "stringify (JNum n) = show_int n"
| "stringify (JReal t) = t"
| "stringify (JStr s) = json_quote s"
| "stringify (JArr xs) = ''['' @ stringify_list xs @ '']''"
| "stringify (JObj kvs) = ''{'' @ stringify_fields kvs @ ''}''"
| "stringify_list [] = []"
| "stringify_list [x] = stringify x"
| "stringify_list (x # y # xs) = stringify x @ '','' @ stringify_list (y # xs)"
| "stringify_fields [] = []"
| "stringify_fields [(k, v)] = json_quote k @ '':'' @ stringify v"
| "stringify_fields ((k, v) # kv # kvs) = json_quote k @ '':'' @ stringify v @ '','' @ stringify_fields (kv # kvs)"

section \<open>JSON.parse\<close>

definition json_space :: "char \<Rightarrow> bool" where
  "json_space c = (c \<in> {CHR '' '', CHR 0x09, CHR 0x0A, CHR 0x0D})"

definition skip_ws :: "string \<Rightarrow> string" where
  "skip_ws s = dropWhile json_space s"

text \<open>The UTF-8 form of a code point; a lone surrogate is the replacement
  character.\<close>

definition utf8 :: "nat \<Rightarrow> string" where
  "utf8 n = (if n < 0x80 then [char_of n]
     else if n < 0x800 then [char_of (0xC0 + n div 64), char_of (0x80 + n mod 64)]
     else if 0xD800 \<le> n \<and> n \<le> 0xDFFF then [CHR 0xEF, CHR 0xBF, CHR 0xBD]
     else if n < 0x10000 then
       [char_of (0xE0 + n div 4096), char_of (0x80 + n div 64 mod 64), char_of (0x80 + n mod 64)]
     else [char_of (0xF0 + n div 262144), char_of (0x80 + n div 4096 mod 64),
           char_of (0x80 + n div 64 mod 64), char_of (0x80 + n mod 64)])"

definition hex4 :: "string \<Rightarrow> nat option" where
  "hex4 s = (if length s < 4 then None else radix_val 16 0 (take 4 s))"

text \<open>The rest of a string literal after its opening quote: its value and what
  follows the closing quote.\<close>

function json_string :: "string \<Rightarrow> (string \<times> string) option" where
  "json_string [] = None"
| "json_string (c # s) = (
     if c = CHR 0x22 then Some ([], s)
     else if (of_char c :: nat) < 32 then None
     else if c \<noteq> CHR 0x5C then map_option (\<lambda>(t, r). (c # t, r)) (json_string s)
     else (case s of [] \<Rightarrow> None
       | e # s' \<Rightarrow>
         if e = CHR ''u'' then
           (case hex4 s' of None \<Rightarrow> None
            | Some hi \<Rightarrow>
              (if 0xD800 \<le> hi \<and> hi \<le> 0xDBFF \<and> take 2 (drop 4 s') = [CHR 0x5C, CHR ''u''] then
                 (case hex4 (drop 6 s') of
                    Some lo \<Rightarrow> if 0xDC00 \<le> lo \<and> lo \<le> 0xDFFF
                      then map_option (\<lambda>(t, r). (utf8 (0x10000 + (hi - 0xD800) * 1024 + (lo - 0xDC00)) @ t, r))
                             (json_string (drop 10 s'))
                      else map_option (\<lambda>(t, r). (utf8 hi @ t, r)) (json_string (drop 4 s'))
                  | None \<Rightarrow> None)
               else map_option (\<lambda>(t, r). (utf8 hi @ t, r)) (json_string (drop 4 s'))))
         else
           (case map_of [(CHR 0x22, CHR 0x22), (CHR 0x5C, CHR 0x5C), (CHR ''/'', CHR ''/''), (CHR ''b'', CHR 0x08),
                         (CHR ''f'', CHR 0x0C), (CHR ''n'', CHR 0x0A), (CHR ''r'', CHR 0x0D), (CHR ''t'', CHR 0x09)] e of
              None \<Rightarrow> None
            | Some x \<Rightarrow> map_option (\<lambda>(t, r). (x # t, r)) (json_string s'))))"
  by pat_completeness auto
termination by (relation "measure length") auto

text \<open>A number token: '-?(0|[1-9][0-9]*)' with an optional fraction and exponent.\<close>

definition json_number :: "string \<Rightarrow> (json \<times> string) option" where
  "json_number s = (let neg = (s \<noteq> [] \<and> hd s = CHR ''-''); b = (if neg then tl s else s);
       i = takeWhile is_digit b; r = dropWhile is_digit b
     in if i = [] \<or> (length i > 1 \<and> hd i = CHR ''0'') then None
        else
          let f = (if r \<noteq> [] \<and> hd r = CHR ''.'' then takeWhile is_digit (tl r) else []);
              r1 = (if r \<noteq> [] \<and> hd r = CHR ''.'' then dropWhile is_digit (tl r) else r)
          in if r \<noteq> [] \<and> hd r = CHR ''.'' \<and> f = [] then None
             else if r1 \<noteq> [] \<and> (hd r1 = CHR ''e'' \<or> hd r1 = CHR ''E'') then
               (let x = tl r1; sg = (x \<noteq> [] \<and> (hd x = CHR ''+'' \<or> hd x = CHR ''-''));
                    e = takeWhile is_digit (if sg then tl x else x);
                    r2 = dropWhile is_digit (if sg then tl x else x)
                in if e = [] then None else Some (JReal (take (length s - length r2) s), r2))
             else if f \<noteq> [] then Some (JReal (take (length s - length r1) s), r1)
             else Some (JNum ((if neg then -1 else 1) * int (dec_val i)), r1))"

text \<open>Values, array elements after their first and members after their first,
  with a fuel that the length of the text always covers.\<close>

fun json_value :: "nat \<Rightarrow> string \<Rightarrow> (json \<times> string) option"
  and json_elems :: "nat \<Rightarrow> string \<Rightarrow> (json list \<times> string) option"
  and json_members :: "nat \<Rightarrow> string \<Rightarrow> ((string \<times> json) list \<times> string) option" where
  "json_value 0 s = None"
| "json_value (Suc n) s = (case skip_ws s of [] \<Rightarrow> None
     | c # r \<Rightarrow>
       if c = CHR ''{'' then
         (if skip_ws r \<noteq> [] \<and> hd (skip_ws r) = CHR ''}'' then Some (JObj [], tl (skip_ws r))
          else map_option (\<lambda>(m, t). (JObj (fold (\<lambda>(k, v). AList.update k v) m []), t)) (json_members n r))
       else if c = CHR ''['' then
         (if skip_ws r \<noteq> [] \<and> hd (skip_ws r) = CHR '']'' then Some (JArr [], tl (skip_ws r))
          else map_option (\<lambda>(m, t). (JArr m, t)) (json_elems n r))
       else if c = CHR 0x22 then map_option (\<lambda>(v, t). (JStr v, t)) (json_string r)
       else if starts_with ''null'' (c # r) then Some (JNull, drop 3 r)
       else if starts_with ''true'' (c # r) then Some (JBool True, drop 3 r)
       else if starts_with ''false'' (c # r) then Some (JBool False, drop 4 r)
       else json_number (c # r))"
| "json_elems 0 s = None"
| "json_elems (Suc n) s = (case json_value n s of None \<Rightarrow> None
     | Some (v, r) \<Rightarrow> (case skip_ws r of [] \<Rightarrow> None
         | c # t \<Rightarrow> if c = CHR '']'' then Some ([v], t)
             else if c = CHR '','' then map_option (\<lambda>(vs, u). (v # vs, u)) (json_elems n t)
             else None))"
| "json_members 0 s = None"
| "json_members (Suc n) s = (case skip_ws s of [] \<Rightarrow> None
     | q # r \<Rightarrow> if q \<noteq> CHR 0x22 then None
         else (case json_string r of None \<Rightarrow> None
           | Some (k, r1) \<Rightarrow> (case skip_ws r1 of [] \<Rightarrow> None
               | c # r2 \<Rightarrow> if c \<noteq> CHR '':'' then None
                   else (case json_value n r2 of None \<Rightarrow> None
                     | Some (v, r3) \<Rightarrow> (case skip_ws r3 of [] \<Rightarrow> None
                         | d # t \<Rightarrow> if d = CHR ''}'' then Some ([(k, v)], t)
                             else if d = CHR '','' then map_option (\<lambda>(m, u). ((k, v) # m, u)) (json_members n t)
                             else None)))))"

definition json_parse :: "string \<Rightarrow> json result" where
  "json_parse s = (case json_value (2 * length s + 2) s of
       Some (j, r) \<Rightarrow> if skip_ws r = [] then Inr j else throw ''Unexpected token''
     | None \<Rightarrow> throw ''Unexpected token'')"

section \<open>Parsing what was written\<close>

fun wf_json :: "json \<Rightarrow> bool"
  and wf_jsons :: "json list \<Rightarrow> bool"
  and wf_fields :: "(string \<times> json) list \<Rightarrow> bool" where
  "wf_json (JReal t) = False"
| "wf_json (JArr xs) = wf_jsons xs"
| "wf_json (JObj kvs) = (distinct (map fst kvs) \<and> wf_fields kvs)"
| "wf_json JNull = True"
| "wf_json (JBool b) = True"
| "wf_json (JNum n) = True"
| "wf_json (JStr s) = True"
| "wf_jsons [] = True"
| "wf_jsons (x # xs) = (wf_json x \<and> wf_jsons xs)"
| "wf_fields [] = True"
| "wf_fields ((k, v) # kvs) = (wf_json v \<and> wf_fields kvs)"

declare json_string.simps(2) [simp del]

lemma radix_hex_char: "d < 16 \<Longrightarrow> radix_digit 16 (hex_char d) = Some d"
proof -
  assume "d < 16"
  then have "d = 0 \<or> d = 1 \<or> d = 2 \<or> d = 3 \<or> d = 4 \<or> d = 5 \<or> d = 6 \<or> d = 7 \<or> d = 8 \<or> d = 9
    \<or> d = 10 \<or> d = 11 \<or> d = 12 \<or> d = 13 \<or> d = 14 \<or> d = 15" by presburger
  then show ?thesis by (elim disjE) (simp_all add: radix_digit_def hex_char_def)
qed

lemma json_string_plain:
  "c \<noteq> CHR 0x22 \<Longrightarrow> c \<noteq> CHR 0x5C \<Longrightarrow> 32 \<le> (of_char c :: nat) \<Longrightarrow>
   json_string (c # s) = map_option (\<lambda>(t, r). (c # t, r)) (json_string s)"
  by (subst json_string.simps(2)) simp

lemma json_string_control:
  assumes "n < 32"
  shows "json_string (CHR 0x5C # CHR ''u'' # CHR ''0'' # CHR ''0'' # hex_char (n div 16) # hex_char (n mod 16) # s)
    = map_option (\<lambda>(t, r). (char_of n # t, r)) (json_string s)"
proof -
  have lt: "n div 16 < 16" "n mod 16 < 16" using assms by linarith+
  have z: "radix_digit 16 (CHR ''0'') = Some 0" by (simp add: radix_digit_def)
  have "n div 16 * 16 + n mod 16 = n" by simp
  then have "hex4 (CHR ''0'' # CHR ''0'' # hex_char (n div 16) # hex_char (n mod 16) # s) = Some n"
    by (simp add: hex4_def radix_hex_char lt z del: div_mult_mod_eq)
  then show ?thesis using assms by (subst json_string.simps(2)) (simp add: utf8_def)
qed

lemma json_string_escape:
  assumes "map_of [(CHR 0x22, CHR 0x22), (CHR 0x5C, CHR 0x5C), (CHR ''/'', CHR ''/''), (CHR ''b'', CHR 0x08),
    (CHR ''f'', CHR 0x0C), (CHR ''n'', CHR 0x0A), (CHR ''r'', CHR 0x0D), (CHR ''t'', CHR 0x09)] e = Some x"
  shows "json_string (CHR 0x5C # e # s) = map_option (\<lambda>(t, r). (x # t, r)) (json_string s)"
proof -
  have "e \<noteq> CHR ''u''" using assms by auto
  then show ?thesis using assms by (subst json_string.simps(2)) simp
qed

lemma json_string_end: "json_string (CHR 0x22 # s) = Some ([], s)"
  by (subst json_string.simps(2)) simp

lemma of_char_eqI: "(of_char c :: nat) = of_char d \<Longrightarrow> c = d"
  by simp

lemma json_string_char:
  "json_string (json_char c @ s) = map_option (\<lambda>(t, r). (c # t, r)) (json_string s)"
proof -
  let ?n = "of_char c :: nat"
  consider "?n = 34" | "?n = 92" | "?n = 8" | "?n = 12" | "?n = 10" | "?n = 13" | "?n = 9"
    | "?n < 32" "?n \<notin> {8, 9, 10, 12, 13}" | "32 \<le> ?n" "?n \<noteq> 34" "?n \<noteq> 92" by fastforce
  then show ?thesis
  proof cases
    case 1
    then have "c = CHR 0x22" by (intro of_char_eqI) simp
    then show ?thesis by (simp add: json_char_def json_string_escape)
  next
    case 2
    then have "c = CHR 0x5C" by (intro of_char_eqI) simp
    then show ?thesis by (simp add: json_char_def json_string_escape)
  next
    case 3
    then have "c = CHR 0x08" by (intro of_char_eqI) simp
    then show ?thesis by (simp add: json_char_def json_string_escape)
  next
    case 4
    then have "c = CHR 0x0C" by (intro of_char_eqI) simp
    then show ?thesis by (simp add: json_char_def json_string_escape)
  next
    case 5
    then have "c = CHR 0x0A" by (intro of_char_eqI) simp
    then show ?thesis by (simp add: json_char_def json_string_escape)
  next
    case 6
    then have "c = CHR 0x0D" by (intro of_char_eqI) simp
    then show ?thesis by (simp add: json_char_def json_string_escape)
  next
    case 7
    then have "c = CHR 0x09" by (intro of_char_eqI) simp
    then show ?thesis by (simp add: json_char_def json_string_escape)
  next
    case 8
    then have "json_char c = [CHR 0x5C, CHR ''u'', CHR ''0'', CHR ''0'', hex_char (?n div 16), hex_char (?n mod 16)]"
      by (simp add: json_char_def Let_def)
    then show ?thesis using json_string_control [OF 8(1), of s] by simp
  next
    case 9
    then have "c \<noteq> CHR 0x22" "c \<noteq> CHR 0x5C" by auto
    moreover have "json_char c = [c]" using 9 by (simp add: json_char_def)
    ultimately show ?thesis using 9 json_string_plain [of c s] by simp
  qed
qed

lemma json_string_quote: "json_string (concat (map json_char s) @ CHR 0x22 # r) = Some (s, r)"
proof (induction s)
  case Nil
  show ?case by (simp add: json_string_end)
next
  case (Cons c s)
  then show ?case by (simp add: json_string_char)
qed

lemma show_nat_hd:
  "is_digit (hd (show_nat n)) \<and> (1 < length (show_nat n) \<longrightarrow> hd (show_nat n) \<noteq> CHR ''0'')"
proof (induction n rule: show_nat.induct)
  case (1 n)
  show ?case
  proof (cases "n < 10")
    case True
    then show ?thesis by (simp add: show_nat_small)
  next
    case False
    have eq: "show_nat n = show_nat (n div 10) @ [digit_char (n mod 10)]" using False by (intro show_nat_large) simp
    have "hd (show_nat (n div 10)) \<noteq> CHR ''0''" if "length (show_nat (n div 10)) = 1"
    proof (cases "n div 10 < 10")
      case True
      have "digit_char (n div 10) \<noteq> CHR ''0''"
      proof
        assume "digit_char (n div 10) = CHR ''0''"
        then have "digit_val (digit_char (n div 10)) = 0" by (simp add: digit_val_def)
        then show False using True False by simp
      qed
      then show ?thesis using True by (simp add: show_nat_small)
    next
      case F2: False
      then show ?thesis using that by (simp add: show_nat_large [of "n div 10"])
    qed
    moreover have ne: "show_nat (n div 10) \<noteq> []" by simp
    ultimately have "hd (show_nat (n div 10)) \<noteq> CHR ''0''"
      using 1 False by (metis One_nat_def length_0_conv less_one linorder_neqE_nat)
    then show ?thesis using 1 False ne unfolding eq by simp
  qed
qed

definition tail_ok :: "string \<Rightarrow> bool" where
  "tail_ok r = (r = [] \<or> hd r \<in> {CHR '','', CHR '']'', CHR ''}''})"

lemma tail_ok_simps [simp]: "tail_ok []" "tail_ok (CHR '','' # r)" "tail_ok (CHR '']'' # r)" "tail_ok (CHR ''}'' # r)"
  by (simp_all add: tail_ok_def)

lemma tail_ok_digits:
  assumes "tail_ok r"
  shows "takeWhile is_digit (show_nat n @ r) = show_nat n" "dropWhile is_digit (show_nat n @ r) = r"
proof -
  have "r = [] \<or> \<not> is_digit (hd r)" using assms by (auto simp: tail_ok_def is_digit_def)
  then have r: "takeWhile is_digit r = []" "dropWhile is_digit r = r" by (cases r; simp)+
  have "\<forall>c \<in> set (show_nat n). is_digit c" using show_nat_digits by (simp add: list_all_iff)
  then show "takeWhile is_digit (show_nat n @ r) = show_nat n" "dropWhile is_digit (show_nat n @ r) = r"
    using r by (simp_all add: takeWhile_append2 dropWhile_append2)
qed

lemma json_number_show:
  assumes "tail_ok r"
  shows "json_number (show_int n @ r) = Some (JNum n, r)"
proof -
  have hd: "show_nat k @ r \<noteq> []" "hd (show_nat k @ r) \<noteq> CHR ''-''" for k
    using show_nat_hd [of k] by (cases "show_nat k"; auto)+
  have z: "\<not> (1 < length (show_nat k) \<and> hd (show_nat k) = CHR ''0'')" for k using show_nat_hd by blast
  have t: "(r \<noteq> [] \<and> hd r = CHR ''.'') = False" "(r \<noteq> [] \<and> (hd r = CHR ''e'' \<or> hd r = CHR ''E'')) = False"
    using assms by (auto simp: tail_ok_def)
  have t': "r \<noteq> [] \<Longrightarrow> hd r \<noteq> CHR ''.''" using assms by (auto simp: tail_ok_def)
  show ?thesis
  proof (cases "n < 0")
    case True
    have b: "(if CHR ''-'' # show_nat (nat (- n)) @ r \<noteq> [] \<and> hd (CHR ''-'' # show_nat (nat (- n)) @ r) = CHR ''-''
      then tl (CHR ''-'' # show_nat (nat (- n)) @ r) else CHR ''-'' # show_nat (nat (- n)) @ r) = show_nat (nat (- n)) @ r"
      by simp
    show ?thesis
      unfolding json_number_def show_int_def if_P [OF True] append_Cons Let_def b tail_ok_digits [OF assms] t if_False
      using z [of "nat (- n)"] t' True by auto
  next
    case False
    have b: "(if show_nat (nat n) @ r \<noteq> [] \<and> hd (show_nat (nat n) @ r) = CHR ''-''
      then tl (show_nat (nat n) @ r) else show_nat (nat n) @ r) = show_nat (nat n) @ r"
      using hd [of "nat n"] by simp
    show ?thesis
      unfolding json_number_def show_int_def if_not_P [OF False] Let_def b tail_ok_digits [OF assms] t if_False
      using z [of "nat n"] hd [of "nat n"] t' False by auto
  qed
qed

lemma update_new: "k \<notin> fst ` set m \<Longrightarrow> AList.update k v m = m @ [(k, v)]"
  by (induction m) auto

lemma fold_update_distinct:
  "distinct (map fst (acc @ m)) \<Longrightarrow> fold (\<lambda>(k, v). AList.update k v) m acc = acc @ m"
proof (induction m arbitrary: acc)
  case Nil
  show ?case by simp
next
  case (Cons kv m)
  obtain k v where kv: "kv = (k, v)" by (cases kv)
  have "k \<notin> fst ` set acc" using Cons.prems kv by auto
  then show ?case using Cons kv by (simp add: update_new)
qed

lemma show_int_hd: "show_int n \<noteq> [] \<and> (is_digit (hd (show_int n)) \<or> hd (show_int n) = CHR ''-'')"
  using show_nat_hd by (simp add: show_int_def)

lemma digit_not_space: "is_digit c \<or> c = CHR ''-'' \<Longrightarrow> \<not> json_space c \<and> c \<noteq> CHR '']''"
  by (auto simp: json_space_def is_digit_def)

lemma skip_ws_id: "s \<noteq> [] \<Longrightarrow> \<not> json_space (hd s) \<Longrightarrow> skip_ws (s @ r) = s @ r"
  by (cases s) (simp_all add: skip_ws_def)

lemma skip_ws_tail [simp]:
  "skip_ws (CHR '','' # r) = CHR '','' # r" "skip_ws (CHR '']'' # r) = CHR '']'' # r"
  "skip_ws (CHR ''}'' # r) = CHR ''}'' # r" "skip_ws (CHR '':'' # r) = CHR '':'' # r"
  "skip_ws (CHR ''['' # r) = CHR ''['' # r" "skip_ws (CHR ''{'' # r) = CHR ''{'' # r"
  "skip_ws (CHR 0x22 # r) = CHR 0x22 # r" "skip_ws [] = []"
  by (simp_all add: skip_ws_def json_space_def)

lemma value_number: "tail_ok r \<Longrightarrow> json_value (Suc n) (show_int i @ r) = Some (JNum i, r)"
proof -
  assume t: "tail_ok r"
  obtain c s where s: "show_int i = c # s" using show_int_hd by (meson neq_Nil_conv)
  then have c: "is_digit c \<or> c = CHR ''-''" using show_int_hd [of i] by simp
  then have "skip_ws (c # s @ r) = c # s @ r" using digit_not_space by (auto simp: skip_ws_def)
  moreover have "c \<noteq> CHR ''{'' \<and> c \<noteq> CHR ''['' \<and> c \<noteq> CHR 0x22 \<and> c \<noteq> CHR ''n'' \<and> c \<noteq> CHR ''t'' \<and> c \<noteq> CHR ''f''"
    using c by (auto simp: is_digit_def)
  ultimately show ?thesis using json_number_show [OF t, of i] s by (auto simp: json_value.simps(2))
qed

text \<open>Writing with any way of quoting strings that JSON.parse reads back.\<close>

fun render :: "(string \<Rightarrow> string) \<Rightarrow> json \<Rightarrow> string"
  and render_list :: "(string \<Rightarrow> string) \<Rightarrow> json list \<Rightarrow> string"
  and render_fields :: "(string \<Rightarrow> string) \<Rightarrow> (string \<times> json) list \<Rightarrow> string" where
  "render q JNull = ''null''"
| "render q (JBool b) = (if b then ''true'' else ''false'')"
| "render q (JNum n) = show_int n"
| "render q (JReal t) = t"
| "render q (JStr s) = q s"
| "render q (JArr xs) = ''['' @ render_list q xs @ '']''"
| "render q (JObj kvs) = ''{'' @ render_fields q kvs @ ''}''"
| "render_list q [] = []"
| "render_list q [x] = render q x"
| "render_list q (x # y # xs) = render q x @ '','' @ render_list q (y # xs)"
| "render_fields q [] = []"
| "render_fields q [(k, v)] = q k @ '':'' @ render q v"
| "render_fields q ((k, v) # kv # kvs) = q k @ '':'' @ render q v @ '','' @ render_fields q (kv # kvs)"

lemma stringify_render:
  "stringify j = render json_quote j" "stringify_list xs = render_list json_quote xs"
  "stringify_fields kvs = render_fields json_quote kvs"
  by (induction j and xs and kvs rule: stringify_stringify_list_stringify_fields.induct) simp_all

locale json_writer =
  fixes q :: "string \<Rightarrow> string"
  assumes opens: "\<exists>z. q s = CHR 0x22 # z"
    and reads: "json_string (tl (q s) @ r) = Some (s, r)"
begin

lemma render_hd:
  "wf_json j \<Longrightarrow> render q j \<noteq> [] \<and> \<not> json_space (hd (render q j)) \<and> hd (render q j) \<noteq> CHR '']''"
proof (cases j)
  case (JNum n)
  then show ?thesis using show_int_hd [of n] digit_not_space by auto
next
  case (JStr t)
  then show ?thesis using opens [of t] by (auto simp: json_space_def)
qed (auto simp: json_space_def)

lemma skip_ws_render: "wf_json j \<Longrightarrow> skip_ws (render q j @ r) = render q j @ r"
  using render_hd skip_ws_id by blast

lemma parse_render:
  "wf_json j \<Longrightarrow> 2 * length (render q j) \<le> n \<Longrightarrow> tail_ok r \<Longrightarrow> json_value n (render q j @ r) = Some (j, r)"
  "xs \<noteq> [] \<Longrightarrow> wf_jsons xs \<Longrightarrow> 2 * length (render_list q xs) + 1 \<le> n \<Longrightarrow>
     json_elems n (render_list q xs @ CHR '']'' # r) = Some (xs, r)"
  "kvs \<noteq> [] \<Longrightarrow> wf_fields kvs \<Longrightarrow> 2 * length (render_fields q kvs) + 1 \<le> n \<Longrightarrow>
     json_members n (render_fields q kvs @ CHR ''}'' # r) = Some (kvs, r)"
proof (induction j and xs and kvs arbitrary: n r and n r and n r
    rule: stringify_stringify_list_stringify_fields.induct)
  case 1
  then show ?case by (cases n) (simp_all add: skip_ws_def json_space_def)
next
  case (2 b)
  then show ?case by (cases n; cases b) (simp_all add: skip_ws_def json_space_def)
next
  case (3 i)
  then show ?case using show_int_hd [of i] by (cases n) (simp_all add: value_number del: json_value.simps(2))
next
  case (4 t)
  then show ?case by simp
next
  case (5 s)
  obtain z where z: "q s = CHR 0x22 # z" using opens by blast
  obtain m where n: "n = Suc m" using 5 z by (cases n) auto
  show ?case using reads [of s r] by (simp add: n z)
next
  case (6 xs)
  obtain m where n: "n = Suc m" using 6 by (cases n) auto
  show ?case
  proof (cases xs)
    case Nil
    then show ?thesis by (simp add: n)
  next
    case (Cons y ys)
    have w: "wf_json y" using 6 Cons by simp
    obtain z where z: "render_list q xs = render q y @ z" using Cons by (cases ys) auto
    have "render q y \<noteq> []" "hd (render q y) \<noteq> CHR '']''" using render_hd [OF w] by auto
    then have "skip_ws (render_list q xs @ CHR '']'' # r) \<noteq> []"
      "hd (skip_ws (render_list q xs @ CHR '']'' # r)) \<noteq> CHR '']''"
      using skip_ws_render [OF w] by (simp_all add: z)
    moreover have "json_elems m (render_list q xs @ CHR '']'' # r) = Some (xs, r)"
      using 6 Cons by (intro "6.IH") (simp_all add: n)
    ultimately show ?thesis by (simp add: n)
  qed
next
  case (7 kvs)
  obtain m where n: "n = Suc m" using 7 by (cases n) auto
  show ?case
  proof (cases kvs)
    case Nil
    then show ?thesis by (simp add: n)
  next
    case (Cons kv ks)
    obtain z where z: "render_fields q kvs = CHR 0x22 # z" using Cons opens [of "fst kv"] by (cases ks; cases kv) auto
    have "json_members m (render_fields q kvs @ CHR ''}'' # r) = Some (kvs, r)"
      using 7 Cons by (intro "7.IH") (simp_all add: n)
    then show ?thesis using 7 fold_update_distinct [of "[]" kvs] by (simp add: n z)
  qed
next
  case 8
  then show ?case by simp
next
  case (9 x)
  obtain m where n: "n = Suc m" using 9 by (cases n) auto
  have "json_value m (render q x @ CHR '']'' # r) = Some (x, CHR '']'' # r)"
    using 9 by (intro "9.IH") (simp_all add: n)
  then show ?case by (simp add: n)
next
  case (10 x y xs)
  obtain m where n: "n = Suc m" using 10 by (cases n) auto
  have "json_value m (render q x @ CHR '','' # render_list q (y # xs) @ CHR '']'' # r)
      = Some (x, CHR '','' # render_list q (y # xs) @ CHR '']'' # r)"
    using 10 by (intro "10.IH") (simp_all add: n)
  moreover have "json_elems m (render_list q (y # xs) @ CHR '']'' # r) = Some (y # xs, r)"
    using 10 by (intro "10.IH") (simp_all add: n)
  ultimately show ?case by (simp add: n)
next
  case 11
  then show ?case by simp
next
  case (12 k v)
  obtain z where z: "q k = CHR 0x22 # z" using opens by blast
  obtain m where n: "n = Suc m" using 12 by (cases n) auto
  have "json_value m (render q v @ CHR ''}'' # r) = Some (v, CHR ''}'' # r)"
    using 12 by (intro "12.IH") (simp_all add: n)
  then show ?case using reads [of k] by (simp add: n z)
next
  case (13 k v kv kvs)
  obtain z where z: "q k = CHR 0x22 # z" using opens by blast
  obtain m where n: "n = Suc m" using 13 by (cases n) auto
  have "json_value m (render q v @ CHR '','' # render_fields q (kv # kvs) @ CHR ''}'' # r)
      = Some (v, CHR '','' # render_fields q (kv # kvs) @ CHR ''}'' # r)"
    using 13 by (intro "13.IH") (simp_all add: n)
  moreover have "json_members m (render_fields q (kv # kvs) @ CHR ''}'' # r) = Some (kv # kvs, r)"
    using 13 by (intro "13.IH") (simp_all add: n)
  ultimately show ?case using reads [of k] by (simp add: n z)
qed

lemma roundtrip: "wf_json j \<Longrightarrow> json_parse (render q j) = Inr j"
  using parse_render(1) [of j "2 * length (render q j) + 2" "[]"]
  by (simp add: json_parse_def del: json_value.simps)

end

interpretation plain: json_writer json_quote
  by unfold_locales (simp_all add: json_quote_def json_string_quote)

lemma json_roundtrip: "wf_json j \<Longrightarrow> json_parse (stringify j) = Inr j"
  unfolding stringify_render by (rule plain.roundtrip)

end
