(* ===== verification/WireTypes.thy ===== *)
theory WireTypes
  imports Json
begin

text \<open>
  The shapes that cross the API ('api/src/types.ts' and the history
  rows of 'api/src/backend.ts'): one record per interface, with the
  interface's fields in its order and a prefix per record, since HOL record
  fields share one name space.  Amounts are decimal strings, heights and ids
  integers, an optional or nullable field an option; the tags of a post are whatever
  JSON its author wrote.
\<close>

section \<open>Entrypoints and parameters\<close>

definition WindowViral :: int where "WindowViral = 0"
definition WindowDeep :: int where "WindowDeep = 1"

definition LegacyEntrypoint :: "string \<Rightarrow> string option" where
  "LegacyEntrypoint = map_of
     [(''swap_lc_hbd'', ''swap_lassecash_hbd''), (''swap_hbd_lc'', ''swap_hbd_lassecash'')]"

definition canonicalAction :: "string \<Rightarrow> string" where
  "canonicalAction action = nullish (LegacyEntrypoint action) action"

datatype payout_mode = Split | PowerUp | Burn

fun payout_mode_number :: "payout_mode \<Rightarrow> int" where
  "payout_mode_number Split = 0"
| "payout_mode_number PowerUp = 1"
| "payout_mode_number Burn = 2"

datatype swap_direction = LcHbd | HbdLc

definition Entrypoints :: "string list" where
  "Entrypoints =
    [''transfer'', ''burn'', ''fund'', ''settle'', ''mint'', ''claim_mint'', ''good_accounting'',
     ''set_duration'', ''settle_pending'', ''promote'', ''set_param'', ''post'', ''comment'',
     ''promote_post'', ''vote'', ''payout'', ''claim_curation'', ''add_liquidity'', ''remove_liquidity'',
     ''claim_pool'', ''swap_lassecash_hbd'', ''swap_hbd_lassecash'', ''claim_migration'', ''record_burn'']"

definition Params :: "string list" where
  "Params =
    [''mint.volume_start'', ''mint.volume_end'', ''post.threshold_viral'', ''post.threshold_deep'',
     ''post.threshold_comment'', ''promote.min_burn'']"

section \<open>Chain, account and position views\<close>

record chain_info =
  ci_height :: int
  ci_timestamp :: string
  ci_epoch :: int
  ci_genesis_height :: "int option"
  ci_token_contract :: string
  ci_settled_height :: "int option"
  ci_migrated_supply :: string
  ci_snapshot_total :: string
  ci_snapshot_burned :: string
  ci_total_emitted :: string
  ci_total_burned :: string
  ci_total_shares :: string
  ci_pool_lshare :: string
  ci_pool_viral :: string
  ci_pool_deep :: string
  ci_rsh_viral :: string
  ci_rsh_deep :: string
  ci_pool_liquidity :: string
  ci_amm_lc :: string
  ci_amm_hbd :: string
  ci_amm_shares :: string
  ci_amm_weight :: string
  ci_consensus_group :: "string list"

record mint_view =
  mv_id :: int
  mv_principal :: string
  mv_shares :: string
  mv_start_height :: int
  mv_days :: int
  mv_maturity_height :: int
  mv_maturity_time :: string
  mv_mature :: bool
  mv_claimable :: bool
  mv_good_accounting :: bool
  mv_can_arm_good_accounting :: bool
  mv_ended :: bool
  mv_pending_yield :: string
  mv_if_claimed_now :: string
  mv_slashed_if_claimed_now :: string
  mv_bleed_remaining_pct :: string

record tranche_view =
  tv_id :: int
  tv_shares :: string
  tv_start_height :: "int option"
  tv_age_days :: int
  tv_loyalty_multiplier :: string
  tv_weight :: string
  tv_closed :: bool
  tv_value_lc :: string
  tv_value_hbd :: string
  tv_pending_reward :: string
  tv_last_touch :: "int option"

record account_view =
  av_account :: string
  av_balance :: string
  av_shares :: string
  av_pending :: string
  av_pending_curation :: int
  av_pending_epoch :: "int option"
  av_mint_duration_days :: int
  av_hbd :: int
  av_hive :: int
  av_vote_power :: "string \<times> string"
  av_mints :: "mint_view list"
  av_tranches :: "tranche_view list"
  av_is_consensus_member :: bool

section \<open>Posts, votes and content\<close>

datatype window = Viral | Deep

record post_view =
  pv_author :: string
  pv_permlink :: string
  pv_window :: window
  pv_created_height :: int
  pv_created_time :: string
  pv_payout_height :: int
  pv_payout_time :: string
  pv_rshares :: string
  pv_payout_mode :: "int option"
  pv_parent_author :: string
  pv_parent_permlink :: string
  pv_promoted :: string
  pv_title :: string
  pv_summary :: string
  pv_body_excerpt :: string
  pv_tags :: "json list option"
  pv_votes :: "int option"
  pv_paid_out :: bool
  pv_payable :: bool
  pv_pending_payout :: string
  pv_curator_pot :: string
  pv_curation_expires_at :: int
  pv_registered :: bool
  pv_shown_for_context :: "bool option"
  pv_bot_commands :: "bool option"

record post_meta =
  pm_author :: string
  pm_permlink :: string
  pm_window :: window
  pm_created_height :: int
  pm_created_time :: string
  pm_title :: string
  pm_summary :: string
  pm_body_excerpt :: string
  pm_tags :: "json list option"
  pm_registered :: bool

record post_vote =
  pvt_voter :: string
  pvt_rshares :: string

record content =
  ct_title :: string
  ct_body :: string
  ct_summary :: string
  ct_tags :: "json list option"
  ct_category :: "string option"
  ct_created :: "string option"
  ct_metadata :: "(string \<times> json) list option"

section \<open>Transactions, quotes and history rows\<close>

record tx_result =
  tr_ok :: bool
  tr_msg :: string
  tr_height :: int
  tr_txId :: "string option"

datatype verdict = PENDING | CONFIRMED | FAILED | UNKNOWN

record tx_status =
  ts_status :: verdict
  ts_error :: "string option"

record publish_result =
  pr_ok :: bool
  pr_msg :: string
  pr_height :: int
  pr_permlink :: string
  pr_txId :: "string option"

record resource_credits =
  rc_amount :: int
  rc_max :: int

record governance_member =
  gm_account :: string
  gm_shares :: string
  gm_preferences :: "(string \<times> string option) list"

record swap_quote =
  sq_amount_in :: string
  sq_amount_out :: string
  sq_rate :: string
  sq_price_impact_pct :: string
  sq_reserve_in :: string
  sq_reserve_out :: string
  sq_ok :: bool
  sq_msg :: string

record mint_quote =
  mq_principal :: string
  mq_days :: int
  mq_shares :: string
  mq_share_rate :: string
  mq_duration_multiplier :: string
  mq_volume_multiplier :: string
  mq_combined_multiplier :: string
  mq_maturity_height :: int
  mq_maturity_time :: string
  mq_ok :: bool
  mq_msg :: string

record liquidity_quote =
  lq_lc_in :: string
  lq_hbd_needed :: string
  lq_shares :: string
  lq_pool_share_pct :: string
  lq_is_first_deposit :: bool
  lq_ok :: bool
  lq_msg :: string

record migration_record =
  mr_burned :: bool
  mr_liquid :: string
  mr_staked :: string

datatype trade_side = SOpen | SDeposit | SWithdraw | SSell | SBuy

record pool_trade =
  pt_time :: string
  pt_height :: int
  pt_shareHbd :: "string option"
  pt_side :: trade_side
  pt_amountIn :: string
  pt_amountOut :: string
  pt_lcReserve :: string
  pt_hbdReserve :: string
  pt_price :: string
  pt_trader :: string

record pool_op =
  po_time :: string
  po_height :: int
  po_action :: string
  po_payload :: string
  po_signer :: string

record pool_ledger_entry = pool_op +
  pl_txId :: string
  pl_ok :: bool
  pl_ret :: string

section \<open>Canonical names\<close>

lemma canonicalAction_cases [simp]:
  "canonicalAction ''swap_lc_hbd'' = ''swap_lassecash_hbd''"
  "canonicalAction ''swap_hbd_lc'' = ''swap_hbd_lassecash''"
  "canonicalAction ''swap_lassecash_hbd'' = ''swap_lassecash_hbd''"
  "canonicalAction ''swap_hbd_lassecash'' = ''swap_hbd_lassecash''"
  "canonicalAction ''add_liquidity'' = ''add_liquidity''"
  "canonicalAction ''remove_liquidity'' = ''remove_liquidity''"
  by (simp_all add: canonicalAction_def LegacyEntrypoint_def)

lemma canonicalAction_other:
  "a \<noteq> ''swap_lc_hbd'' \<Longrightarrow> a \<noteq> ''swap_hbd_lc'' \<Longrightarrow> canonicalAction a = a"
  by (simp add: canonicalAction_def LegacyEntrypoint_def)

lemma canonicalAction_idem [simp]: "canonicalAction (canonicalAction a) = canonicalAction a"
  by (cases "a = ''swap_lc_hbd''"; cases "a = ''swap_hbd_lc''") (simp_all add: canonicalAction_other)

end
