(* ===== verification/JsDate.thy ===== *)
theory JsDate
  imports JsPrelude
begin

text \<open>
  'Date.parse' on the ISO 8601 forms the source feeds it, as the
  language defines it: milliseconds since 1970 in UTC, or NaN (here None) for a
  string that is not of that form or names a date that does not exist.
\<close>

definition leap :: "int \<Rightarrow> bool" where
  "leap y = (y mod 4 = 0 \<and> (y mod 100 \<noteq> 0 \<or> y mod 400 = 0))"

definition days_before_year :: "int \<Rightarrow> int" where
  "days_before_year y = 365 * (y - 1970) + ((y - 1) div 4 - 492) - ((y - 1) div 100 - 19) + ((y - 1) div 400 - 4)"

definition month_days :: "int \<Rightarrow> int list" where
  "month_days y = [31, if leap y then 29 else 28, 31, 30, 31, 30, 31, 31, 30, 31, 30, 31]"

definition days_from_civil :: "int \<Rightarrow> nat \<Rightarrow> nat \<Rightarrow> int" where
  "days_from_civil y m d = days_before_year y + sum_list (take (m - 1) (month_days y)) + int d - 1"

definition num_at :: "nat \<Rightarrow> nat \<Rightarrow> string \<Rightarrow> nat option" where
  "num_at i n s = (let t = take n (drop i s) in
     if length t = n \<and> all_digits t then Some (dec_val t) else None)"

definition lit_at :: "nat \<Rightarrow> char \<Rightarrow> string \<Rightarrow> bool" where
  "lit_at i c s = (i < length s \<and> s ! i = c)"

text \<open>The zone: 'Z', or a signed offset in hours and minutes.  None is a
  malformed suffix.\<close>

definition zone_ms :: "string \<Rightarrow> int option" where
  "zone_ms z = (if z = ''Z'' then Some 0
     else if length z = 6 \<and> (hd z = CHR ''+'' \<or> hd z = CHR ''-'') \<and> lit_at 3 (CHR '':'') z then
       (case (num_at 1 2 z, num_at 4 2 z) of
          (Some h, Some m) \<Rightarrow> if h < 24 \<and> m < 60
            then Some ((if hd z = CHR ''-'' then -1 else 1) * (int h * 60 + int m) * 60000) else None
        | _ \<Rightarrow> None)
     else None)"

definition date_parse :: "string \<Rightarrow> int option" where
  "date_parse s = (case (num_at 0 4 s, num_at 5 2 s, num_at 8 2 s, num_at 11 2 s, num_at 14 2 s, num_at 17 2 s) of
     (Some y, Some mo, Some d, Some h, Some mi, Some sec) \<Rightarrow>
       if lit_at 4 (CHR ''-'') s \<and> lit_at 7 (CHR ''-'') s \<and> lit_at 10 (CHR ''T'') s
          \<and> lit_at 13 (CHR '':'') s \<and> lit_at 16 (CHR '':'') s
          \<and> 1 \<le> mo \<and> mo \<le> 12 \<and> 1 \<le> d \<and> int d \<le> month_days (int y) ! (mo - 1)
          \<and> h < 24 \<and> mi < 60 \<and> sec < 60
       then
         let frac = (if lit_at 19 (CHR ''.'') s then takeWhile is_digit (drop 20 s) else []);
             ms = (if frac = [] then 0 else dec_val (take 3 (frac @ ''00'')));
             z = drop (if frac = [] then 19 else 20 + length frac) s
         in map_option (\<lambda>off. days_from_civil (int y) mo d * 86400000
              + int h * 3600000 + int mi * 60000 + int sec * 1000 + int ms - off) (zone_ms z)
       else None
   | _ \<Rightarrow> None)"

section \<open>Rendering\<close>

text \<open>The civil date of a day number, and toISOString for the years 0 to 9999.\<close>

definition civil_from_days :: "int \<Rightarrow> int \<times> int \<times> int" where
  "civil_from_days n = (let z = n + 719468; era = z div 146097; doe = z mod 146097;
       yoe = (doe - doe div 1460 + doe div 36524 - doe div 146096) div 365;
       doy = doe - (365 * yoe + yoe div 4 - yoe div 100);
       mp = (5 * doy + 2) div 153; d = doy - (153 * mp + 2) div 5 + 1;
       m = (if mp < 10 then mp + 3 else mp - 9);
       y = yoe + era * 400 + (if m \<le> 2 then 1 else 0)
     in (y, m, d))"

definition pad_num :: "nat \<Rightarrow> int \<Rightarrow> string" where
  "pad_num w n = pad_start w (CHR ''0'') (show_int n)"

definition toISOString :: "int \<Rightarrow> string" where
  "toISOString t = (let (y, m, d) = civil_from_days (t div 86400000); r = t mod 86400000 in
     pad_num 4 y @ ''-'' @ pad_num 2 m @ ''-'' @ pad_num 2 d @ ''T'' @
     pad_num 2 (r div 3600000) @ '':'' @ pad_num 2 (r div 60000 mod 60) @ '':'' @
     pad_num 2 (r div 1000 mod 60) @ ''.'' @ pad_num 3 (r mod 1000) @ ''Z'')"

section \<open>The calendar\<close>

text \<open>The calendar agrees with the published instants.\<close>

lemma days_epoch: "days_from_civil 1970 1 1 = 0" "days_from_civil 2000 3 1 = 11017"
  "days_from_civil 2026 9 1 = 20697"
  by (simp_all add: days_from_civil_def days_before_year_def month_days_def leap_def)

lemma days_step_month:
  assumes "0 < m" "m < 12"
  shows "days_from_civil y (m + 1) 1 = days_from_civil y m 1 + month_days y ! (m - 1)"
proof -
  have "m - 1 < length (month_days y)" using assms by (simp add: month_days_def)
  then have "take m (month_days y) = take (m - 1) (month_days y) @ [month_days y ! (m - 1)]"
    using assms take_Suc_conv_app_nth [of "m - 1" "month_days y"] by simp
  then show ?thesis by (simp add: days_from_civil_def)
qed

end
