(* ===== verification/MarketData.thy ===== *)
theory MarketData
  imports Amounts WireTypes JsDate
begin

text \<open>
  The public market view of the LASSECASH:HBD pool (api/src/market.ts): the
  replay of the contract's own return strings into trades and reserves, the
  24-hour ticker, the rows both aggregator formats list, and the supply
  figures.  Time stamps may be NaN (None), as Date.parse leaves them, and every
  comparison with NaN is false.
\<close>

section \<open>Trades and the price\<close>

datatype trade_type = Buy | Sell | Add | Remove

record market_trade =
  mt_tradeId :: string
  mt_time :: string
  mt_timestampMs :: "int option"
  mt_height :: int
  mt_type :: trade_type
  mt_lc :: int
  mt_hbd :: int
  mt_lcReserve :: int
  mt_hbdReserve :: int
  mt_price :: int
  mt_trader :: string

definition reservePrice :: "int \<Rightarrow> int \<Rightarrow> int" where
  "reservePrice lc hbd = (if lc \<le> 0 \<or> hbd \<le> 0 then 0 else bdiv (hbd * UNIT) lc)"

section \<open>The contract's return strings\<close>

text \<open>The patterns of RET: the digits between a fixed prefix and a suffix
  that does not start with a digit, anchored at both ends.\<close>

definition digits_between :: "string \<Rightarrow> string \<Rightarrow> string \<Rightarrow> string option" where
  "digits_between pre suf s = (if starts_with pre s then
      let r = drop (length pre) s; d = takeWhile is_digit r
      in if d \<noteq> [] \<and> dropWhile is_digit r = suf then Some d else None
    else None)"

definition digits_prefix :: "string \<Rightarrow> string \<Rightarrow> (string \<times> string) option" where
  "digits_prefix pre s = (if starts_with pre s then
      let r = drop (length pre) s; d = takeWhile is_digit r
      in if d \<noteq> [] then Some (d, dropWhile is_digit r) else None
    else None)"

definition RET_swapHbd :: "string \<Rightarrow> string option" where
  "RET_swapHbd = digits_between ''swapped for '' '' HBD''"

definition RET_swapLc :: "string \<Rightarrow> string option" where
  "RET_swapLc = digits_between ''swapped for '' '' LASSECASH''"

definition two_amounts :: "string \<Rightarrow> string \<Rightarrow> (string \<times> string) option" where
  "two_amounts verb s = (case digits_prefix (verb @ '' '') s of None \<Rightarrow> None
     | Some (a, r) \<Rightarrow> (case digits_between '' LC and '' '' HBD'' r of
           Some b \<Rightarrow> Some (a, b)
         | None \<Rightarrow> map_option (\<lambda>b. (a, b)) (digits_between '' LASSECASH and '' '' HBD'' r)))"

definition RET_added :: "string \<Rightarrow> (string \<times> string) option" where
  "RET_added = two_amounts ''added''"

definition RET_withdrew :: "string \<Rightarrow> (string \<times> string) option" where
  "RET_withdrew = two_amounts ''withdrew''"

record parsed_entry =
  pe_type :: trade_type
  pe_lc :: int
  pe_hbd :: int
  pe_dLc :: int
  pe_dHbd :: int

definition dec :: "string \<Rightarrow> int" where
  "dec s = int (dec_val s)"

definition parseLedgerEntry :: "pool_ledger_entry \<Rightarrow> parsed_entry option" where
  "parseLedgerEntry e = (if \<not> pl_ok e then None else
     let arg0 = hd (split_on (CHR ''|'') (po_payload e));
         action = canonicalAction (po_action e);
         ret = pl_ret e
     in if \<not> all_digits arg0 \<and> (action = ''swap_lassecash_hbd'' \<or> action = ''swap_hbd_lassecash'') then None
        else if action = ''swap_lassecash_hbd'' then
          map_option (\<lambda>m. \<lparr>pe_type = Sell, pe_lc = dec arg0, pe_hbd = dec m, pe_dLc = dec arg0, pe_dHbd = - dec m\<rparr>)
            (RET_swapHbd ret)
        else if action = ''swap_hbd_lassecash'' then
          map_option (\<lambda>m. \<lparr>pe_type = Buy, pe_lc = dec m, pe_hbd = dec arg0, pe_dLc = - dec m, pe_dHbd = dec arg0\<rparr>)
            (RET_swapLc ret)
        else if action = ''add_liquidity'' then
          map_option (\<lambda>(a, b). \<lparr>pe_type = Add, pe_lc = dec a, pe_hbd = dec b, pe_dLc = dec a, pe_dHbd = dec b\<rparr>)
            (RET_added ret)
        else if action = ''remove_liquidity'' then
          map_option (\<lambda>(a, b). \<lparr>pe_type = Remove, pe_lc = dec a, pe_hbd = dec b, pe_dLc = - dec a, pe_dHbd = - dec b\<rparr>)
            (RET_withdrew ret)
        else None)"

text \<open>'[zZ]' anywhere, or an offset at the end.\<close>

definition offset_suffix :: "string \<Rightarrow> bool" where
  "offset_suffix s = (6 \<le> length s \<and> (let z = drop (length s - 6) s in
     (hd z = CHR ''+'' \<or> hd z = CHR ''-'') \<and> num_at 1 2 z \<noteq> None \<and> lit_at 3 (CHR '':'') z \<and> num_at 4 2 z \<noteq> None))"

definition utcIso :: "string \<Rightarrow> string" where
  "utcIso ts = (if CHR ''z'' \<in> set ts \<or> CHR ''Z'' \<in> set ts \<or> offset_suffix ts then ts else ts @ ''Z'')"

section \<open>The replay\<close>

record market_replay =
  rp_trades :: "market_trade list"
  rp_lcReserve :: int
  rp_hbdReserve :: int
  rp_skipped :: nat

definition replay_step :: "pool_ledger_entry \<Rightarrow> market_replay \<Rightarrow> market_replay" where
  "replay_step e r = (case parseLedgerEntry e of
     None \<Rightarrow> r\<lparr>rp_skipped := rp_skipped r + 1\<rparr>
   | Some p \<Rightarrow>
       let lc = rp_lcReserve r + pe_dLc p; hbd = rp_hbdReserve r + pe_dHbd p; time = utcIso (po_time e)
       in r\<lparr>rp_trades := rp_trades r @ [\<lparr>mt_tradeId = pl_txId e, mt_time = time,
              mt_timestampMs = date_parse time, mt_height = po_height e, mt_type = pe_type p,
              mt_lc = pe_lc p, mt_hbd = pe_hbd p, mt_lcReserve = lc, mt_hbdReserve = hbd,
              mt_price = reservePrice lc hbd, mt_trader = po_signer e\<rparr>],
            rp_lcReserve := lc, rp_hbdReserve := hbd\<rparr>)"

definition buildMarketTrades :: "pool_ledger_entry list \<Rightarrow> market_replay" where
  "buildMarketTrades ledger = fold replay_step ledger
     \<lparr>rp_trades = [], rp_lcReserve = 0, rp_hbdReserve = 0, rp_skipped = 0\<rparr>"

definition reconciles :: "market_replay \<Rightarrow> int \<Rightarrow> int \<Rightarrow> bool" where
  "reconciles r liveLc liveHbd = (rp_lcReserve r = liveLc \<and> rp_hbdReserve r = liveHbd)"

section \<open>The ticker\<close>

record market_ticker =
  tk_lastPrice :: int
  tk_baseVolume24h :: int
  tk_quoteVolume24h :: int
  tk_high24h :: int
  tk_low24h :: int
  tk_price24hAgo :: int
  tk_trades24h :: nat

definition DAY_MS :: int where
  "DAY_MS = 24 * 60 * 60 * 1000"

definition num_lt :: "int option \<Rightarrow> int \<Rightarrow> bool" where
  "num_lt a b = (case a of None \<Rightarrow> False | Some x \<Rightarrow> x < b)"

definition is_swap :: "market_trade \<Rightarrow> bool" where
  "is_swap t = (mt_type t = Buy \<or> mt_type t = Sell)"

definition ticker_step :: "int \<Rightarrow> market_trade \<Rightarrow> market_ticker \<Rightarrow> market_ticker" where
  "ticker_step since t k = (if num_lt (mt_timestampMs t) since then k\<lparr>tk_price24hAgo := mt_price t\<rparr>
     else
       let k1 = (if mt_price t > 0 then
             k\<lparr>tk_high24h := (if tk_high24h k = 0 \<or> mt_price t > tk_high24h k then mt_price t else tk_high24h k),
               tk_low24h := (if tk_low24h k = 0 \<or> mt_price t < tk_low24h k then mt_price t else tk_low24h k)\<rparr>
           else k)
       in if is_swap t then k1\<lparr>tk_baseVolume24h := tk_baseVolume24h k1 + mt_lc t,
              tk_quoteVolume24h := tk_quoteVolume24h k1 + mt_hbd t, tk_trades24h := tk_trades24h k1 + 1\<rparr>
          else k1)"

definition ticker_fold :: "int \<Rightarrow> int \<Rightarrow> market_trade list \<Rightarrow> market_ticker" where
  "ticker_fold lastPrice since trades = fold (ticker_step since) trades
     \<lparr>tk_lastPrice = lastPrice, tk_baseVolume24h = 0, tk_quoteVolume24h = 0, tk_high24h = 0,
      tk_low24h = 0, tk_price24hAgo = 0, tk_trades24h = 0\<rparr>"

definition last_price :: "market_trade list \<Rightarrow> int" where
  "last_price trades = (if trades = [] then 0 else mt_price (last trades))"

definition marketTicker :: "market_trade list \<Rightarrow> int \<Rightarrow> market_ticker" where
  "marketTicker trades nowMs = (let lastPrice = last_price trades; k = ticker_fold lastPrice (nowMs - DAY_MS) trades in
     k\<lparr>tk_high24h := (if tk_high24h k = 0 then lastPrice else tk_high24h k),
       tk_low24h := (if tk_low24h k = 0 then lastPrice else tk_low24h k)\<rparr>)"

definition percentChange :: "int \<Rightarrow> int \<Rightarrow> string" where
  "percentChange frm tgt = (if frm \<le> 0 then ''0.00'' else
     let bp = bdiv ((tgt - frm) * 10000) frm; sgn = (if bp < 0 then ''-'' else []);
         a = (if bp < 0 then - bp else bp)
     in sgn @ show_int (bdiv a 100) @ ''.'' @ pad_start 2 (CHR ''0'') (show_int (bmod a 100)))"

section \<open>The rows\<close>

record trade_opts =
  to_type :: "trade_type option"
  to_limit :: "int option"
  to_startMs :: "int option"
  to_endMs :: "int option"

definition num_ge :: "int option \<Rightarrow> int \<Rightarrow> bool" where
  "num_ge a b = (case a of None \<Rightarrow> False | Some x \<Rightarrow> x \<ge> b)"

definition num_le :: "int option \<Rightarrow> int \<Rightarrow> bool" where
  "num_le a b = (case a of None \<Rightarrow> False | Some x \<Rightarrow> x \<le> b)"

definition row_wanted :: "trade_opts \<Rightarrow> market_trade \<Rightarrow> bool" where
  "row_wanted opts t = (is_swap t
     \<and> (case to_type opts of None \<Rightarrow> True | Some ty \<Rightarrow> mt_type t = ty)
     \<and> (case to_startMs opts of None \<Rightarrow> True | Some s \<Rightarrow> num_ge (mt_timestampMs t) s)
     \<and> (case to_endMs opts of None \<Rightarrow> True | Some e \<Rightarrow> num_le (mt_timestampMs t) e))"

definition tradeRows :: "market_trade list \<Rightarrow> trade_opts \<Rightarrow> market_trade list" where
  "tradeRows trades opts = (let out = rev (filter (row_wanted opts) trades) in
     case to_limit opts of None \<Rightarrow> out | Some l \<Rightarrow> if l > 0 then take (nat l) out else out)"

section \<open>CoinGecko and CoinMarketCap shapes\<close>

definition tickerId :: string where "tickerId = ''LASSECASH_HBD''"
definition pairBase :: string where "pairBase = ''LASSECASH''"
definition pairTarget :: string where "pairTarget = ''HBD''"
definition HBD_UCID :: int where "HBD_UCID = 5375"

definition jamt :: "int \<Rightarrow> json" where
  "jamt u = JStr (fromUnits u)"

definition jtime :: "int option \<Rightarrow> json" where
  "jtime t = (case t of None \<Rightarrow> JNull | Some n \<Rightarrow> JNum n)"

definition type_name :: "trade_type \<Rightarrow> string" where
  "type_name ty = (case ty of Buy \<Rightarrow> ''buy'' | Sell \<Rightarrow> ''sell'' | Add \<Rightarrow> ''add'' | Remove \<Rightarrow> ''remove'')"

definition geckoPairs :: "string \<Rightarrow> json" where
  "geckoPairs poolId = JArr [JObj
     [(''ticker_id'', JStr tickerId), (''base'', JStr pairBase), (''target'', JStr pairTarget),
      (''pool_id'', JStr poolId)]]"

definition geckoTickers :: "market_ticker \<Rightarrow> market_replay \<Rightarrow> string \<Rightarrow> bool \<Rightarrow> json" where
  "geckoTickers t replay poolId reconciled = (let price = jamt (tk_lastPrice t) in JArr [JObj
     [(''ticker_id'', JStr tickerId), (''base_currency'', JStr pairBase), (''target_currency'', JStr pairTarget),
      (''last_price'', price), (''base_volume'', jamt (tk_baseVolume24h t)),
      (''target_volume'', jamt (tk_quoteVolume24h t)), (''bid'', price), (''ask'', price),
      (''high'', jamt (tk_high24h t)), (''low'', jamt (tk_low24h t)), (''pool_id'', JStr poolId),
      (''liquidity_in_hbd'', jamt (rp_hbdReserve replay * 2)), (''reconciled'', JBool reconciled)]])"

definition orderbook_note :: string where
  "orderbook_note = ''constant-product AMM (x*y=k), zero fee: one marginal level; any size executes along the curve''"

definition geckoOrderbook :: "market_replay \<Rightarrow> int \<Rightarrow> json" where
  "geckoOrderbook replay nowMs = (let price = jamt (reservePrice (rp_lcReserve replay) (rp_hbdReserve replay));
       size = jamt (rp_lcReserve replay) in JObj
     [(''ticker_id'', JStr tickerId), (''timestamp'', JNum nowMs), (''bids'', JArr [JArr [price, size]]),
      (''asks'', JArr [JArr [price, size]]), (''note'', JStr orderbook_note)])"

definition gecko_shape :: "market_trade \<Rightarrow> json" where
  "gecko_shape r = JObj [(''trade_id'', JStr (mt_tradeId r)), (''price'', jamt (mt_price r)),
     (''base_volume'', jamt (mt_lc r)), (''target_volume'', jamt (mt_hbd r)),
     (''trade_timestamp'', jtime (mt_timestampMs r)), (''type'', JStr (type_name (mt_type r)))]"

definition geckoHistoricalTrades :: "market_trade list \<Rightarrow> trade_opts \<Rightarrow> json" where
  "geckoHistoricalTrades trades opts = (let rows = tradeRows trades opts in JObj
     [(''buy'', JArr (map gecko_shape (filter (\<lambda>r. mt_type r = Buy) rows))),
      (''sell'', JArr (map gecko_shape (filter (\<lambda>r. mt_type r = Sell) rows)))])"

definition cmcSummary :: "market_ticker \<Rightarrow> json" where
  "cmcSummary t = (let price = jamt (tk_lastPrice t) in JArr [JObj
     [(''trading_pairs'', JStr tickerId), (''base_currency'', JStr pairBase), (''quote_currency'', JStr pairTarget),
      (''last_price'', price), (''lowest_ask'', price), (''highest_bid'', price),
      (''base_volume'', jamt (tk_baseVolume24h t)), (''quote_volume'', jamt (tk_quoteVolume24h t)),
      (''price_change_percent_24h'', JStr (percentChange (tk_price24hAgo t) (tk_lastPrice t))),
      (''highest_price_24h'', jamt (tk_high24h t)), (''lowest_price_24h'', jamt (tk_low24h t))]])"

definition cmcAssets :: "string \<Rightarrow> json" where
  "cmcAssets contractId = JObj
     [(''LASSECASH'', JObj [(''name'', JStr ''LasseCash''), (''unified_cryptoasset_id'', JNull),
         (''can_withdraw'', JBool True), (''can_deposit'', JBool True), (''min_withdraw'', JStr ''0.00000001''),
         (''contractAddress'', JStr contractId),
         (''note'', JStr ''contract-native token on MAGI; balances live in this contract's state'')]),
      (''HBD'', JObj [(''name'', JStr ''Hive Dollar''), (''unified_cryptoasset_id'', JNum HBD_UCID),
         (''can_withdraw'', JBool True), (''can_deposit'', JBool True), (''min_withdraw'', JStr ''0.001'')])]"

definition cmcTicker :: "market_ticker \<Rightarrow> json" where
  "cmcTicker t = JObj [(tickerId, JObj
     [(''base_id'', JNull), (''quote_id'', JNum HBD_UCID), (''last_price'', jamt (tk_lastPrice t)),
      (''base_volume'', jamt (tk_baseVolume24h t)), (''quote_volume'', jamt (tk_quoteVolume24h t)),
      (''isFrozen'', JStr ''0'')])]"

definition cmcOrderbook :: "market_replay \<Rightarrow> int \<Rightarrow> json" where
  "cmcOrderbook replay nowMs = (let g = geckoOrderbook replay nowMs; f = (\<lambda>k. (k, nullish (jfield k g) JNull))
     in JObj [f ''timestamp'', f ''bids'', f ''asks'', f ''note''])"

definition cmc_shape :: "market_trade \<Rightarrow> json" where
  "cmc_shape r = JObj [(''trade_id'', JStr (mt_tradeId r)), (''price'', jamt (mt_price r)),
     (''base_volume'', jamt (mt_lc r)), (''quote_volume'', jamt (mt_hbd r)),
     (''timestamp'', jtime (mt_timestampMs r)), (''type'', JStr (type_name (mt_type r)))]"

definition cmcTrades :: "market_trade list \<Rightarrow> int \<Rightarrow> json list" where
  "cmcTrades trades limit = map cmc_shape
     (tradeRows trades \<lparr>to_type = None, to_limit = Some limit, to_startMs = None, to_endMs = None\<rparr>)"

section \<open>Supply\<close>

definition MAX_SUPPLY_UNITS :: int where
  "MAX_SUPPLY_UNITS = 51000000 * UNIT"

record supply_figures =
  sf_total :: int
  sf_circulating :: int
  sf_burned :: int
  sf_emitted :: int
  sf_unclaimedMigration :: int
  sf_max :: int

text \<open>'BigInt(raw[k] || "0")': a missing or empty row reads as zero.\<close>

definition raw_big :: "(string \<Rightarrow> string option) \<Rightarrow> string \<Rightarrow> int result" where
  "raw_big raw k = (let v = nullish (raw k) [] in big_int (if v = [] then ''0'' else v))"

definition supplyFigures :: "(string \<Rightarrow> string option) \<Rightarrow> int option \<Rightarrow> supply_figures result" where
  "supplyFigures raw burnedOverride =
     rbind (raw_big raw ''sup_migrated'') (\<lambda>migrated.
     rbind (raw_big raw ''sup_emitted'') (\<lambda>emitted.
     rbind (case burnedOverride of Some b \<Rightarrow> Inr b | None \<Rightarrow> raw_big raw ''bal_hive:null'') (\<lambda>burned.
     rbind (raw_big raw ''cfg_migtotal'') (\<lambda>migtotal.
     rmap (\<lambda>claimed. let total = migrated + emitted; unclaimed = migtotal - claimed in
       \<lparr>sf_total = total, sf_circulating = total - burned, sf_burned = burned, sf_emitted = emitted,
        sf_unclaimedMigration = (if unclaimed > 0 then unclaimed else 0), sf_max = MAX_SUPPLY_UNITS\<rparr>)
       (raw_big raw ''sup_claimed'')))))"

definition supplyJson :: "supply_figures \<Rightarrow> json" where
  "supplyJson s = JObj
     [(''symbol'', JStr pairBase), (''total_supply'', jamt (sf_total s)),
      (''circulating_supply'', jamt (sf_circulating s)), (''max_supply'', jamt (sf_max s)),
      (''burned'', jamt (sf_burned s)), (''emitted_since_genesis'', jamt (sf_emitted s)),
      (''unclaimed_migration'', jamt (sf_unclaimedMigration s)),
      (''note'', JStr ''burned value is held by hive:null (no keys exist), so it stays inside total_supply and out of circulating_supply'')]"

section \<open>What the replay guarantees\<close>

definition parsed :: "pool_ledger_entry list \<Rightarrow> parsed_entry list" where
  "parsed ledger = List.map_filter parseLedgerEntry ledger"

definition is_swap_action :: "string \<Rightarrow> bool" where
  "is_swap_action a = (canonicalAction a = ''swap_lassecash_hbd'' \<or> canonicalAction a = ''swap_hbd_lassecash'')"

definition dLc_sum :: "parsed_entry list \<Rightarrow> int" where
  "dLc_sum ps = sum_list (map pe_dLc ps)"

definition dHbd_sum :: "parsed_entry list \<Rightarrow> int" where
  "dHbd_sum ps = sum_list (map pe_dHbd ps)"

lemma parsed_snoc:
  "parsed (xs @ [e]) = parsed xs @ (case parseLedgerEntry e of None \<Rightarrow> [] | Some p \<Rightarrow> [p])"
  by (simp add: parsed_def map_filter_def split: option.split)

lemma build_snoc: "buildMarketTrades (xs @ [e]) = replay_step e (buildMarketTrades xs)"
  by (simp add: buildMarketTrades_def)

lemma replay_counts:
  "length (rp_trades (buildMarketTrades L)) = length (parsed L) \<and>
   rp_skipped (buildMarketTrades L) + length (parsed L) = length L"
proof (induction L rule: rev_induct)
  case Nil
  show ?case by (simp add: buildMarketTrades_def parsed_def map_filter_def)
next
  case (snoc e L)
  then show ?case
    by (auto simp: build_snoc parsed_snoc replay_step_def Let_def split: option.split)
qed

lemma replay_final:
  "rp_lcReserve (buildMarketTrades L) = dLc_sum (parsed L) \<and>
   rp_hbdReserve (buildMarketTrades L) = dHbd_sum (parsed L)"
proof (induction L rule: rev_induct)
  case Nil
  show ?case by (simp add: buildMarketTrades_def parsed_def map_filter_def dLc_sum_def dHbd_sum_def)
next
  case (snoc e L)
  then show ?case
    by (auto simp: build_snoc parsed_snoc replay_step_def Let_def dLc_sum_def dHbd_sum_def split: option.split)
qed

lemma replay_prefix:
  assumes "i < length (parsed L)"
  shows "mt_lcReserve (rp_trades (buildMarketTrades L) ! i) = dLc_sum (take (Suc i) (parsed L)) \<and>
    mt_hbdReserve (rp_trades (buildMarketTrades L) ! i) = dHbd_sum (take (Suc i) (parsed L)) \<and>
    mt_type (rp_trades (buildMarketTrades L) ! i) = pe_type (parsed L ! i)"
  using assms
proof (induction L rule: rev_induct)
  case Nil
  then show ?case by (simp add: parsed_def map_filter_def)
next
  case (snoc e L)
  show ?case
  proof (cases "parseLedgerEntry e")
    case None
    then show ?thesis using snoc by (simp add: build_snoc parsed_snoc replay_step_def)
  next
    case (Some p)
    have len: "length (rp_trades (buildMarketTrades L)) = length (parsed L)" using replay_counts by blast
    show ?thesis
    proof (cases "i < length (parsed L)")
      case True
      then show ?thesis using snoc.IH Some len
        by (simp add: build_snoc parsed_snoc replay_step_def Let_def nth_append)
    next
      case False
      then have i: "i = length (parsed L)" using snoc.prems Some by (simp add: parsed_snoc)
      then show ?thesis using Some len replay_final [of L]
        by (simp add: build_snoc parsed_snoc replay_step_def Let_def nth_append dLc_sum_def dHbd_sum_def)
    qed
  qed
qed


text \<open>The sign of every delta is the direction of the call: a sell adds
  LASSECASH to the pool and takes HBD out, a buy the reverse, a deposit adds
  both and a withdrawal takes both, always by exactly the amounts shown; and a
  call the contract refused moves nothing.\<close>

theorem ledger_entry_signs:
  assumes "parseLedgerEntry e = Some p"
  shows "pl_ok e \<and> pe_lc p \<ge> 0 \<and> pe_hbd p \<ge> 0 \<and>
    pe_dLc p = (if pe_type p = Sell \<or> pe_type p = Add then pe_lc p else - pe_lc p) \<and>
    pe_dHbd p = (if pe_type p = Buy \<or> pe_type p = Add then pe_hbd p else - pe_hbd p) \<and>
    (is_swap_action (po_action e) \<longleftrightarrow> pe_type p = Sell \<or> pe_type p = Buy)"
  using assms
  by (auto simp: parseLedgerEntry_def Let_def dec_def is_swap_action_def split: if_splits)

lemma ledger_entry_signs_witness:
  "parseLedgerEntry \<lparr>po_time = [], po_height = 0, po_action = ''swap_lc_hbd'', po_payload = ''100|0'',
     po_signer = [], pl_txId = [], pl_ok = True, pl_ret = ''swapped for 7 HBD''\<rparr>
   = Some \<lparr>pe_type = Sell, pe_lc = 100, pe_hbd = 7, pe_dLc = 100, pe_dHbd = -7\<rparr>
   \<and> is_swap_action ''swap_lc_hbd''"
proof -
  let ?e = "\<lparr>po_time = [], po_height = 0, po_action = ''swap_lc_hbd'', po_payload = ''100|0'',
     po_signer = [], pl_txId = [], pl_ok = True, pl_ret = ''swapped for 7 HBD''\<rparr>"
  have p: "parseLedgerEntry ?e = Some \<lparr>pe_type = Sell, pe_lc = 100, pe_hbd = 7, pe_dLc = 100, pe_dHbd = -7\<rparr>"
    by (simp add: parseLedgerEntry_def RET_swapHbd_def digits_between_def dec_def js_eval Let_def)
  show ?thesis using ledger_entry_signs [OF p] p by simp
qed

section \<open>What the ticker reports\<close>

definition in_window :: "int \<Rightarrow> market_trade \<Rightarrow> bool" where
  "in_window since t = (\<not> num_lt (mt_timestampMs t) since)"

definition window_prices :: "int \<Rightarrow> market_trade list \<Rightarrow> int list" where
  "window_prices since ts = filter (\<lambda>p. 0 < p) (map mt_price (filter (in_window since) ts))"

definition window_swaps :: "int \<Rightarrow> market_trade list \<Rightarrow> market_trade list" where
  "window_swaps since ts = filter (\<lambda>t. in_window since t \<and> is_swap t) ts"

lemma ticker_fold_snoc:
  "ticker_fold lp since (ts @ [t]) = ticker_step since t (ticker_fold lp since ts)"
  by (simp add: ticker_fold_def)

lemma window_snoc:
  "window_prices since (ts @ [t]) = window_prices since ts
     @ (if in_window since t \<and> 0 < mt_price t then [mt_price t] else [])"
  "window_swaps since (ts @ [t]) = window_swaps since ts @ (if in_window since t \<and> is_swap t then [t] else [])"
  by (simp_all add: window_prices_def window_swaps_def)

definition max0 :: "int list \<Rightarrow> int" where
  "max0 xs = (if xs = [] then 0 else Max (set xs))"

definition min0 :: "int list \<Rightarrow> int" where
  "min0 xs = (if xs = [] then 0 else Min (set xs))"

lemma max0_snoc:
  assumes "\<And>x. x \<in> set xs \<Longrightarrow> 0 < x"
  shows "max0 (xs @ [x]) = (if max0 xs = 0 \<or> x > max0 xs then x else max0 xs)"
proof (cases "xs = []")
  case False
  have "Max (set xs) \<in> set xs" using False by (intro Max_in) auto
  then have "0 < Max (set xs)" using assms by blast
  moreover have "Max (insert x (set xs)) = max x (Max (set xs))" using False by (intro Max_insert) auto
  ultimately show ?thesis using False by (simp add: max0_def max_def del: Max_less_iff Max_ge_iff Max_gr_iff Max_le_iff)
qed (simp add: max0_def)

lemma min0_snoc:
  assumes "\<And>x. x \<in> set xs \<Longrightarrow> 0 < x"
  shows "min0 (xs @ [x]) = (if min0 xs = 0 \<or> x < min0 xs then x else min0 xs)"
proof (cases "xs = []")
  case False
  have "Min (set xs) \<in> set xs" using False by (intro Min_in) auto
  then have "0 < Min (set xs)" using assms by blast
  moreover have "Min (insert x (set xs)) = min x (Min (set xs))" using False by (intro Min_insert) auto
  ultimately show ?thesis using False by (simp add: min0_def min_def del: Min_less_iff Min_ge_iff Min_gr_iff Min_le_iff)
qed (simp add: min0_def)

lemma window_prices_pos: "x \<in> set (window_prices since ts) \<Longrightarrow> 0 < x"
  by (auto simp: window_prices_def)

lemma ticker_fold_spec:
  "ticker_fold lp since ts = \<lparr>tk_lastPrice = lp,
     tk_baseVolume24h = sum_list (map mt_lc (window_swaps since ts)),
     tk_quoteVolume24h = sum_list (map mt_hbd (window_swaps since ts)),
     tk_high24h = max0 (window_prices since ts), tk_low24h = min0 (window_prices since ts),
     tk_price24hAgo = last_price (filter (\<lambda>t. \<not> in_window since t) ts),
     tk_trades24h = length (window_swaps since ts)\<rparr>"
proof (induction ts rule: rev_induct)
  case Nil
  show ?case by (simp add: ticker_fold_def window_prices_def window_swaps_def max0_def min0_def last_price_def)
next
  case (snoc t ts)
  have M: "max0 (window_prices since ts @ [x]) = (if max0 (window_prices since ts) = 0 \<or> x > max0 (window_prices since ts) then x else max0 (window_prices since ts))"
    "min0 (window_prices since ts @ [x]) = (if min0 (window_prices since ts) = 0 \<or> x < min0 (window_prices since ts) then x else min0 (window_prices since ts))" for x
    by (rule max0_snoc min0_snoc; erule window_prices_pos)+
  show ?case
    unfolding ticker_fold_snoc snoc.IH ticker_step_def window_snoc
    by (simp add: M in_window_def last_price_def Let_def)
qed

text \<open>The ticker is exactly its specification over the window: volumes and
  counts are the totals over the swaps inside it, high and low the extremes of
  the positive prices inside it (the last price when it has none), and the
  reference price that of the last event before it.\<close>

theorem ticker_spec:
  fixes trades :: "market_trade list" and nowMs :: int
  defines "ws \<equiv> window_swaps (nowMs - DAY_MS) trades"
    and "wp \<equiv> window_prices (nowMs - DAY_MS) trades"
  shows "marketTicker trades nowMs = \<lparr>tk_lastPrice = last_price trades,
     tk_baseVolume24h = sum_list (map mt_lc ws), tk_quoteVolume24h = sum_list (map mt_hbd ws),
     tk_high24h = (if wp = [] then last_price trades else Max (set wp)),
     tk_low24h = (if wp = [] then last_price trades else Min (set wp)),
     tk_price24hAgo = last_price (filter (\<lambda>t. \<not> in_window (nowMs - DAY_MS) t) trades),
     tk_trades24h = length ws\<rparr>"
proof -
  have "Max (set wp) \<in> set wp" "Min (set wp) \<in> set wp" if "wp \<noteq> []"
    using that by (simp_all add: Max_in Min_in)
  then have "Max (set wp) \<noteq> 0" "Min (set wp) \<noteq> 0" if "wp \<noteq> []"
    using that window_prices_pos unfolding wp_def by fastforce+
  then show ?thesis
    unfolding marketTicker_def ticker_fold_spec ws_def [symmetric] wp_def [symmetric] max0_def min0_def
    by (simp add: Let_def)
qed

end
