(* ===== verification/Pools.thy ===== *)
theory Pools
  imports Amounts Json WireTypes
begin

text \<open>
  The exchange arithmetic of the pools LasseCash trades against: MAGI's own
  pools (api/src/magi-pools.ts) and the LASSECASH:HBD pool on MAGI's router
  (api/src/native-pool.ts).  A node is a function from a GraphQL query and its
  variables to the answer's data, which may throw.
\<close>

section \<open>Assets and pools (magi-pools.ts)\<close>

definition ASSET_SCALE :: "string \<Rightarrow> int option" where
  "ASSET_SCALE = map_of [(''HBD'', 1000), (''HIVE'', 1000), (''BTC'', 100000000)]"

definition ASSET_DP :: "string \<Rightarrow> int option" where
  "ASSET_DP = map_of [(''HBD'', 3), (''HIVE'', 3), (''BTC'', 8)]"

record magi_pool =
  mp_contractId :: string
  mp_router :: string
  mp_asset0 :: string
  mp_asset1 :: string
  mp_feeBps :: int

definition MAGI_POOLS :: "magi_pool list" where
  "MAGI_POOLS =
    [\<lparr>mp_contractId = ''vsc1BVb95YKRHAEy24XgRSaW4L6d9vB88AdwjM'',
      mp_router = ''vsc1Brvi4YZHLkocYNAFd7Gf1JpsPjzNnv4i45'',
      mp_asset0 = ''BTC'', mp_asset1 = ''HBD'', mp_feeBps = 8\<rparr>,
     \<lparr>mp_contractId = ''vsc1BoaniA5HW56GuQy6pVdoZfMcVaaDfnC8kp'',
      mp_router = ''vsc1Brvi4YZHLkocYNAFd7Gf1JpsPjzNnv4i45'',
      mp_asset0 = ''HBD'', mp_asset1 = ''HIVE'', mp_feeBps = 8\<rparr>]"

definition MAPPING_CONTRACTS :: "string \<Rightarrow> string option" where
  "MAPPING_CONTRACTS = map_of [(''BTC'', ''vsc1BdrQ6EtbQ64rq2PkPd21x4MaLnVRcJj85d'')]"

definition poolFor :: "string \<Rightarrow> string \<Rightarrow> magi_pool option" where
  "poolFor a b = List.find (\<lambda>p. (mp_asset0 p = a \<and> mp_asset1 p = b) \<or> (mp_asset0 p = b \<and> mp_asset1 p = a)) MAGI_POOLS"

definition counterparts :: "string \<Rightarrow> string list" where
  "counterparts frm = concat (map (\<lambda>p. if mp_asset0 p = frm then [mp_asset1 p]
     else if mp_asset1 p = frm then [mp_asset0 p] else []) MAGI_POOLS)"

section \<open>Units and decimals at an asset's own scale\<close>

definition scale_dp :: "int \<Rightarrow> nat" where
  "scale_dp scale = length (show_int scale) - 1"

definition unitsToDecimal :: "int \<Rightarrow> int \<Rightarrow> string" where
  "unitsToDecimal units scale = (let neg = units < 0; u = (if neg then - units else units);
       whole = bdiv u scale; frac = pad_start (scale_dp scale) (CHR ''0'') (show_int (bmod u scale))
     in (if neg then ''-'' else []) @ show_int whole @ ''.'' @ frac)"

definition decimalToUnits :: "string \<Rightarrow> int \<Rightarrow> int result" where
  "decimalToUnits value scale = (let dp = scale_dp scale; parts = split_on (CHR ''.'') (js_trim value);
       w = hd parts; f = (if length parts > 1 then parts ! 1 else []);
       frac = take dp (f @ replicate dp (CHR ''0''))
     in rbind (big_int (if w = [] then ''0'' else w)) (\<lambda>a.
        rmap (\<lambda>b. a * scale + b) (big_int (if frac = [] then ''0'' else frac))))"

definition wireAmount :: "int \<Rightarrow> string" where
  "wireAmount units = show_int units"

section \<open>The constant-product quote\<close>

text \<open>The price impact is a quotient of two Numbers, for display only; it is
  kept as its numerator and denominator.\<close>

record magi_quote =
  mgq_amountInUnits :: int
  mgq_amountOutUnits :: int
  mgq_amountOut :: string
  mgq_priceImpact :: "int \<times> int"
  mgq_feeBps :: int

definition quoteMagiSwap :: "int \<Rightarrow> int \<Rightarrow> int \<Rightarrow> int \<Rightarrow> int \<Rightarrow> magi_quote option" where
  "quoteMagiSwap reserveIn reserveOut amountIn feeBps scaleOut = (
     if reserveIn \<le> 0 \<or> reserveOut \<le> 0 \<or> amountIn \<le> 0 then None else
     let inAfterFee = bdiv (amountIn * (10000 - feeBps)) 10000 in
     if inAfterFee \<le> 0 then None else
     let out = bdiv (inAfterFee * reserveOut) (reserveIn + inAfterFee) in
     if out \<le> 0 then None else
     let spotOut = bdiv (inAfterFee * reserveOut) reserveIn;
         impact = (if spotOut > 0 then (spotOut - out, spotOut) else (0, 1))
     in Some \<lparr>mgq_amountInUnits = amountIn, mgq_amountOutUnits = out,
              mgq_amountOut = unitsToDecimal out scaleOut, mgq_priceImpact = impact, mgq_feeBps = feeBps\<rparr>)"

section \<open>Intents and payloads\<close>

definition js_lower :: "string \<Rightarrow> string" where
  "js_lower s = map to_lower s"

definition swapIntent :: "string \<Rightarrow> int \<Rightarrow> json" where
  "swapIntent asset units = (let scale = nullish (ASSET_SCALE asset) 1000 in JObj
     [(''type'', JStr ''transfer.allow''),
      (''args'', JObj [(''token'', JStr (js_lower asset)), (''limit'', JStr (unitsToDecimal units scale))])])"

record swap_payload_in =
  spi_assetIn :: string
  spi_assetOut :: string
  spi_amountInUnits :: int
  spi_minOutUnits :: int
  spi_recipient :: string

definition swap_payload_json :: "swap_payload_in \<Rightarrow> json" where
  "swap_payload_json i = JObj
     [(''type'', JStr ''swap''), (''version'', JStr ''1.0.0''), (''asset_in'', JStr (spi_assetIn i)),
      (''asset_out'', JStr (spi_assetOut i)), (''amount_in'', JStr (wireAmount (spi_amountInUnits i))),
      (''min_amount_out'', JStr (wireAmount (spi_minOutUnits i))), (''recipient'', JStr (spi_recipient i))]"

definition swapPayload :: "swap_payload_in \<Rightarrow> string" where
  "swapPayload i = stringify (swap_payload_json i)"

definition qualifyAddress :: "string \<Rightarrow> string" where
  "qualifyAddress account = (let a = js_trim account in
     if a = [] then a else if CHR '':'' \<in> set a then a else ''hive:'' @ a)"

definition BTC_MAPPING_CONTRACT :: string where
  "BTC_MAPPING_CONTRACT = ''vsc1BdrQ6EtbQ64rq2PkPd21x4MaLnVRcJj85d''"

definition MAPPED_BALANCE_PREFIX :: string where
  "MAPPED_BALANCE_PREFIX = ''a-''"

definition BTC_DUST_SATS :: int where
  "BTC_DUST_SATS = 546"

section \<open>The LASSECASH:HBD pool on MAGI's router (native-pool.ts)\<close>

definition NATIVE_POOL_ID :: string where
  "NATIVE_POOL_ID = ''vsc1BrBFAwZ3Mr8L4ijRqT9RPEPvhK9FWDaYSr''"

definition NATIVE_ROUTER_ID :: string where
  "NATIVE_ROUTER_ID = ''vsc1Brvi4YZHLkocYNAFd7Gf1JpsPjzNnv4i45''"

definition PROBE_ACCOUNT :: string where
  "PROBE_ACCOUNT = ''hive:lasseehlers''"

record native_pool_state =
  np_reserveHbdMilli :: int
  np_reserveLc :: int
  np_feeBps :: int
  np_totalLp :: int

type_synonym gql = "string \<Rightarrow> json \<Rightarrow> json result"

text \<open>A state row read with hex encoding: its big-endian value, or zero when
  it is absent, empty or not hexadecimal.\<close>

definition hex_big :: "string option \<Rightarrow> int" where
  "hex_big v = (let h = js_trim (nullish v []) in
     if h = [] then 0 else (case radix_val 16 0 h of None \<Rightarrow> 0 | Some n \<Rightarrow> int n))"

text \<open>'Buffer.from(s, "hex")': the bytes up to the first pair that is not
  hexadecimal.\<close>

fun hex_bytes :: "string \<Rightarrow> string" where
  "hex_bytes (a # b # s) = (case radix_val 16 0 [a, b] of None \<Rightarrow> [] | Some n \<Rightarrow> char_of n # hex_bytes s)"
| "hex_bytes _ = []"

definition row_str :: "json \<Rightarrow> string \<Rightarrow> string option" where
  "row_str st k = Option.bind (jfield k st) jstr"

definition hex_state_query :: string where
  "hex_state_query = ''query($c: String!, $k: [String!]!) { getStateByKeys(contractId: $c, keys: $k, encoding: '' @ json_quote ''hex'' @ '') }''"

definition readNativePool :: "gql \<Rightarrow> native_pool_state option result" where
  "readNativePool q = rmap (\<lambda>d.
     case jfield ''getStateByKeys'' d of
       None \<Rightarrow> None
     | Some JNull \<Rightarrow> None
     | Some st \<Rightarrow>
       let a0 = js_lower (hex_bytes (nullish (row_str st ''a0n'') []));
           hbdIsFirst = (a0 = [] \<or> a0 = ''hbd'');
           fee = hex_big (row_str st ''fee'')
       in Some \<lparr>np_reserveHbdMilli = hex_big (row_str st (if hbdIsFirst then ''r0'' else ''r1'')),
                np_reserveLc = hex_big (row_str st (if hbdIsFirst then ''r1'' else ''r0'')),
                np_feeBps = (if fee = 0 then 8 else fee),
                np_totalLp = hex_big (row_str st ''tlp'')\<rparr>)
     (q hex_state_query (JObj [(''c'', JStr NATIVE_POOL_ID),
        (''k'', JArr [JStr ''r0'', JStr ''r1'', JStr ''tlp'', JStr ''fee'', JStr ''a0n''])]))"

definition qualify :: "string option \<Rightarrow> string" where
  "qualify account = (case account of None \<Rightarrow> PROBE_ACCOUNT
     | Some a \<Rightarrow> if a = [] then PROBE_ACCOUNT
         else if starts_with ''hive:'' a \<or> CHR '':'' \<in> set a then a else ''hive:'' @ a)"

definition nativePrice :: "native_pool_state \<Rightarrow> string option" where
  "nativePrice p = (if np_reserveLc p = 0 \<or> np_reserveHbdMilli p = 0 then None else
     let scaled = bdiv (np_reserveHbdMilli p * 100000 * 100000000) (np_reserveLc p);
         s = pad_start 9 (CHR ''0'') (show_int scaled)
     in Some (take (length s - 8) s @ ''.'' @ drop (length s - 8) s))"

record native_quote =
  nq_ok :: bool
  nq_amountOut :: int
  nq_whitelisted :: bool
  nq_msg :: string

definition milliToHbd :: "int \<Rightarrow> string" where
  "milliToHbd milli = show_int (bdiv milli 1000) @ ''.'' @ pad_start 3 (CHR ''0'') (show_int (bmod milli 1000))"

definition unitsToMilli :: "int \<Rightarrow> int" where
  "unitsToMilli units = bdiv (units + 99999) 100000"

definition sim_query :: string where
  "sim_query = ''query($i: SimulateContractCallsInput!) { simulateContractCalls(input: $i) { success err_msg ret } }''"

definition native_calls :: "string \<Rightarrow> swap_direction \<Rightarrow> int \<Rightarrow> string \<Rightarrow> json list" where
  "native_calls who direction amountIn tokenContractId = (
     let swapCall = JObj
           [(''contract_id'', JStr NATIVE_ROUTER_ID), (''action'', JStr ''execute''),
            (''payload'', JStr (stringify (JObj
               [(''type'', JStr ''swap''), (''version'', JStr ''1.0.0''),
                (''asset_in'', JStr (if direction = LcHbd then ''LASSECASH'' else ''HBD'')),
                (''asset_out'', JStr (if direction = LcHbd then ''HBD'' else ''LASSECASH'')),
                (''amount_in'', JStr (show_int amountIn)), (''min_amount_out'', JStr ''1''),
                (''recipient'', JStr who)]))),
            (''rc_limit'', JNum 4000),
            (''intents'', JArr (if direction = HbdLc then
               [JObj [(''type'', JStr ''transfer.allow''),
                      (''args'', JObj [(''token'', JStr ''hbd''), (''limit'', JStr (milliToHbd amountIn))])]]
             else []))]
     in if direction = LcHbd then
          [JObj [(''contract_id'', JStr tokenContractId), (''action'', JStr ''increaseAllowance''),
                 (''payload'', JStr (stringify (JObj [(''spender'', JStr (''contract:'' @ NATIVE_ROUTER_ID)),
                                                      (''amount'', JStr (show_int amountIn))]))),
                 (''rc_limit'', JNum 1500), (''intents'', JArr [])],
           swapCall]
        else [swapCall])"

definition big_of_json :: "json \<Rightarrow> int result" where
  "big_of_json j = (case j of JNum n \<Rightarrow> Inr n | JStr s \<Rightarrow> big_int s | JBool b \<Rightarrow> Inr (if b then 1 else 0)
     | _ \<Rightarrow> throw ''Cannot convert to a BigInt'')"

definition nonnull :: "json option \<Rightarrow> json option" where
  "nonnull v = (if v = Some JNull then None else v)"

definition native_answer :: "json \<Rightarrow> native_quote" where
  "native_answer d = (let rows = nullish (Option.bind (jfield ''simulateContractCalls'' d) jarr) [] in
     if rows = [] then \<lparr>nq_ok = False, nq_amountOut = 0, nq_whitelisted = True, nq_msg = ''no answer from the node''\<rparr>
     else
       let res = last rows in
       if jfield ''success'' res \<noteq> Some (JBool True) then
         (let msg = nullish (row_str res ''err_msg'') ''refused'' in
          \<lparr>nq_ok = False, nq_amountOut = 0, nq_whitelisted = (\<not> str_includes ''not whitelisted'' (js_lower msg)), nq_msg = msg\<rparr>)
       else
         (case rbind (json_parse (nullish (row_str res ''ret'') ''{}''))
             (\<lambda>out. if out = JNull then throw ''Cannot read properties of null''
                else big_of_json (nullish (nonnull (jfield ''amount_out'' out)) (JStr ''0''))) of
            Inr n \<Rightarrow> \<lparr>nq_ok = True, nq_amountOut = n, nq_whitelisted = True, nq_msg = []\<rparr>
          | Inl _ \<Rightarrow> \<lparr>nq_ok = False, nq_amountOut = 0, nq_whitelisted = True, nq_msg = ''unreadable answer''\<rparr>))"

definition quoteNativeSwap :: "gql \<Rightarrow> string option \<Rightarrow> swap_direction \<Rightarrow> int \<Rightarrow> string \<Rightarrow> native_quote result" where
  "quoteNativeSwap q account direction amountIn tokenContractId = (let who = qualify account in
     if amountIn \<le> 0 then Inr \<lparr>nq_ok = False, nq_amountOut = 0, nq_whitelisted = True, nq_msg = []\<rparr>
     else rmap native_answer (q sim_query (JObj [(''i'', JObj
        [(''tx_id'', JStr ''native-quote''), (''required_auths'', JStr who),
         (''calls'', JArr (native_calls who direction amountIn tokenContractId))])])))"

section \<open>The quote never promises what the pool cannot pay\<close>

lemma quote_unfold:
  assumes "quoteMagiSwap ri ro a fee sc = Some q" "0 \<le> fee" "fee \<le> 10000"
  obtains f where "f = a * (10000 - fee) div 10000" "0 < ri" "0 < ro" "0 < a" "0 < f" "f \<le> a"
    "mgq_amountOutUnits q = f * ro div (ri + f)" "0 < mgq_amountOutUnits q" "mgq_amountInUnits q = a"
proof -
  define f where "f = a * (10000 - fee) div 10000"
  have pos: "0 < ri" "0 < ro" "0 < a" using assms(1) by (auto simp: quoteMagiSwap_def split: if_splits)
  have bf: "bdiv (a * (10000 - fee)) 10000 = f" using pos assms by (simp add: f_def)
  have fpos: "0 < f" using assms(1) pos bf by (auto simp: quoteMagiSwap_def Let_def split: if_splits)
  have "a * (10000 - fee) \<le> a * 10000" using pos assms by (intro mult_left_mono) auto
  then have "f \<le> a" unfolding f_def by (intro div_le_intI) simp_all
  moreover have "mgq_amountOutUnits q = f * ro div (ri + f) \<and> 0 < mgq_amountOutUnits q \<and> mgq_amountInUnits q = a"
    using assms(1) pos bf fpos by (auto simp: quoteMagiSwap_def Let_def split: if_splits)
  ultimately show ?thesis using that pos fpos f_def by blast
qed

text \<open>C23. A quote is strictly below the reserve it is paid from, at most what the
  spot price gives, and leaves the constant product at least where it was, so
  the minimum derived from it is one the pool can meet.\<close>

theorem quote_safe:
  assumes "quoteMagiSwap ri ro a fee sc = Some q" "0 \<le> fee" "fee \<le> 10000"
  shows "0 < mgq_amountOutUnits q \<and> mgq_amountOutUnits q < ro \<and>
    mgq_amountOutUnits q \<le> a * ro div ri \<and>
    ri * ro \<le> (ri + a) * (ro - mgq_amountOutUnits q)"
proof -
  obtain f where f: "0 < ri" "0 < ro" "0 < a" "0 < f" "f \<le> a"
    "mgq_amountOutUnits q = f * ro div (ri + f)" "0 < mgq_amountOutUnits q"
    using quote_unfold [OF assms] by metis
  define x where "x = mgq_amountOutUnits q"
  have mul: "x * (ri + f) \<le> f * ro" using f by (simp add: x_def minus_mod_eq_div_mult [symmetric])
  have "x * (ri + f) < ro * (ri + f)"
    using mul f by (smt (verit, ccfv_SIG) mult.commute mult_strict_right_mono)
  then have lt: "x < ro" using f by simp
  have "f * ro div (ri + f) \<le> f * ro div ri" using f by (intro zdiv_mono2) auto
  also have "\<dots> \<le> a * ro div ri" using f by (intro zdiv_mono1 mult_right_mono) auto
  finally have spot: "x \<le> a * ro div ri" using f by (simp add: x_def)
  have "ri * ro + f * ro - x * (ri + f) \<ge> ri * ro" using mul by simp
  then have "ri * ro \<le> (ri + f) * (ro - x)" by (simp add: algebra_simps)
  also have "\<dots> \<le> (ri + a) * (ro - x)" using lt f by (intro mult_right_mono) auto
  finally show ?thesis using lt spot f by (simp add: x_def)
qed

lemma quote_safe_witness:
  "quoteMagiSwap 1000000 2000000 10000 8 1000 \<noteq> None \<and>
   mgq_amountOutUnits (the (quoteMagiSwap 1000000 2000000 10000 8 1000)) < 2000000"
proof -
  let ?q = "quoteMagiSwap 1000000 2000000 10000 8 1000"
  have "?q \<noteq> None" by (simp add: quoteMagiSwap_def)
  then show ?thesis using quote_safe [of 1000000 2000000 10000 8 1000 "the ?q"] by auto
qed

text \<open>The quote is monotone: paying in more never quotes less out.\<close>

theorem quote_monotone:
  assumes "quoteMagiSwap ri ro a fee sc = Some q" "quoteMagiSwap ri ro b fee sc = Some r"
    "0 \<le> fee" "fee \<le> 10000" "a \<le> b"
  shows "mgq_amountOutUnits q \<le> mgq_amountOutUnits r"
proof -
  obtain f where f: "f = a * (10000 - fee) div 10000" "0 < ri" "0 < ro" "0 < f"
    "mgq_amountOutUnits q = f * ro div (ri + f)" using quote_unfold [OF assms(1,3,4)] by metis
  obtain g where g: "g = b * (10000 - fee) div 10000" "0 < g"
    "mgq_amountOutUnits r = g * ro div (ri + g)" using quote_unfold [OF assms(2,3,4)] by metis
  have fg: "f \<le> g" unfolding f(1) g(1) using assms by (intro zdiv_mono1 mult_right_mono) auto
  define x where "x = f * ro div (ri + f)"
  have "x * (ri + f) \<le> f * ro" using f by (simp add: x_def minus_mod_eq_div_mult [symmetric])
  moreover have "x \<le> ro"
  proof -
    have "f * ro \<le> ro * (ri + f)" using f by (simp add: algebra_simps)
    then have "x \<le> ro * (ri + f) div (ri + f)" unfolding x_def using f by (intro zdiv_mono1) auto
    then show ?thesis using f by simp
  qed
  moreover have "x * (g - f) \<le> ro * (g - f)" using \<open>x \<le> ro\<close> fg by (intro mult_right_mono) auto
  ultimately have "x * (ri + g) \<le> g * ro" by (simp add: algebra_simps)
  then have "x \<le> g * ro div (ri + g)" using f g by (intro le_div_intI) simp_all
  then show ?thesis using f g by (simp add: x_def)
qed

lemma quote_monotone_witness:
  "mgq_amountOutUnits (the (quoteMagiSwap 1000000 2000000 10000 8 1000))
    \<le> mgq_amountOutUnits (the (quoteMagiSwap 1000000 2000000 20000 8 1000))"
proof -
  have "quoteMagiSwap 1000000 2000000 10000 8 1000 \<noteq> None" "quoteMagiSwap 1000000 2000000 20000 8 1000 \<noteq> None"
    by (simp_all add: quoteMagiSwap_def)
  then show ?thesis using quote_monotone [of 1000000 2000000 10000 8 1000 _ 20000] by auto
qed

section \<open>Rounding and round trips\<close>

lemma show_nat_power: "show_nat (10 ^ k) = CHR ''1'' # replicate k (CHR ''0'')"
proof (induction k)
  case 0
  show ?case by (simp add: js_eval)
next
  case (Suc k)
  have "show_nat (10 ^ Suc k) = show_nat (10 ^ Suc k div 10) @ [digit_char (10 ^ Suc k mod 10)]"
    by (rule show_nat_large) simp
  then show ?case using Suc by (simp add: digit_char_eval replicate_append_same)
qed

lemma scale_dp_power: "scale_dp (10 ^ k) = k"
proof -
  have n: "nat (10 ^ k) = 10 ^ k" by (simp add: nat_power_eq)
  have "\<not> (10 :: int) ^ k < 0" by (simp add: not_less)
  then show ?thesis unfolding scale_dp_def show_int_def n show_nat_power by simp
qed

lemma unitsToDecimal_nat:
  "unitsToDecimal (int u) (10 ^ k) = show_nat (u div 10 ^ k) @ CHR ''.'' # pad_start k (CHR ''0'') (show_nat (u mod 10 ^ k))"
proof -
  have "int u div 10 ^ k = int (u div 10 ^ k)" "int u mod 10 ^ k = int (u mod 10 ^ k)"
    by (simp_all add: zdiv_int zmod_int)
  then show ?thesis by (simp add: unitsToDecimal_def scale_dp_power show_int_def Let_def)
qed

lemma decimal_roundtrip_nat:
  assumes "0 < k"
  shows "decimalToUnits (unitsToDecimal (int u) (10 ^ k)) (10 ^ k) = Inr (int u)"
proof -
  define w where "w = show_nat (u div 10 ^ k)"
  define f where "f = pad_start k (CHR ''0'') (show_nat (u mod 10 ^ k))"
  have "length (show_nat (u mod 10 ^ k)) \<le> k" using assms by (intro show_nat_length) simp_all
  then have lf: "length f = k" by (simp add: f_def)
  have w: "all_digits w" by (simp add: w_def)
  have f: "all_digits f" using lf assms by (auto simp: f_def all_digits_def pad_start_def)
  have tr: "js_trim (w @ CHR ''.'' # f) = w @ CHR ''.'' # f" using trim_signed [OF w f, of False] by (simp add: signed_def)
  have sp: "split_on (CHR ''.'') (w @ CHR ''.'' # f) = [w, f]"
    using w f digits_no_char [of _ "CHR ''.''"] by (simp add: all_digits_def split_on_append split_on_no_sep)
  have nw: "w \<noteq> []" "f \<noteq> []" using w f by (simp_all add: all_digits_def)
  have v: "dec_val w = u div 10 ^ k" "dec_val f = u mod 10 ^ k" by (simp_all add: w_def f_def)
  have "int (u div 10 ^ k * 10 ^ k + u mod 10 ^ k) = int u"
    by (simp only: div_mult_mod_eq)
  then have "int (u div 10 ^ k) * 10 ^ k + int (u mod 10 ^ k) = int u"
    by (simp only: of_nat_add of_nat_mult of_nat_power of_nat_numeral)
  then show ?thesis
    unfolding unitsToDecimal_nat w_def [symmetric] f_def [symmetric] decimalToUnits_def tr sp scale_dp_power
    using nw w f lf v assms by (simp add: Let_def)
qed

interpretation milli: decimal_codec "\<lambda>u. unitsToDecimal u 1000" "\<lambda>s. decimalToUnits s 1000" "{0..}"
proof
  fix u :: int
  assume "u \<in> {0..}"
  then obtain n where "u = int n" by (metis atLeast_iff nonneg_int_cases)
  then show "decimalToUnits (unitsToDecimal u 1000) 1000 = Inr u"
    using decimal_roundtrip_nat [of 3 n] by simp
qed

lemma milliToHbd_units: "0 \<le> m \<Longrightarrow> milliToHbd m = unitsToDecimal m 1000"
  using scale_dp_power [of 3] by (simp add: milliToHbd_def unitsToDecimal_def)

interpretation milli_hbd: decimal_codec milliToHbd "\<lambda>s. decimalToUnits s 1000" "{0..}"
  by unfold_locales (use milli.parse_render milliToHbd_units in auto)

text \<open>At every asset's scale, the decimal an intent or a quote shows reads
  back as the same units, so the limit a wallet signs is the amount meant.\<close>

theorem unitsToDecimal_roundtrip:
  assumes "0 \<le> u" "ASSET_SCALE asset = Some scale"
  shows "decimalToUnits (unitsToDecimal u scale) scale = Inr u"
proof -
  obtain n where "u = int n" using assms nonneg_int_cases by blast
  moreover have "scale = 10 ^ 3 \<or> scale = 10 ^ 8" using assms(2) by (auto simp: ASSET_SCALE_def split: if_splits)
  ultimately show ?thesis using decimal_roundtrip_nat [of 3 n] decimal_roundtrip_nat [of 8 n] by auto
qed

lemma unitsToDecimal_roundtrip_witness:
  "decimalToUnits (unitsToDecimal 3095 100000000) 100000000 = Inr 3095"
  by (rule unitsToDecimal_roundtrip [of _ "''BTC''"]) (simp_all add: ASSET_SCALE_def)

text \<open>An HBD amount in base units becomes the smallest whole number of
  milli-HBD that covers it, and the intent's decimal limit reads back as
  exactly that number: an intent is never short and never a milli too wide.\<close>

theorem intent_covers:
  assumes "0 \<le> u"
  shows "u \<le> unitsToMilli u * 100000 \<and> unitsToMilli u * 100000 < u + 100000 \<and>
    decimalToUnits (milliToHbd (unitsToMilli u)) 1000 = Inr (unitsToMilli u)"
proof -
  have m: "unitsToMilli u = (u + 99999) div 100000" using assms by (simp add: unitsToMilli_def)
  then have "0 \<le> unitsToMilli u" using assms by simp
  then have "decimalToUnits (milliToHbd (unitsToMilli u)) 1000 = Inr (unitsToMilli u)"
    by (intro milli_hbd.parse_render) simp
  moreover have "u \<le> unitsToMilli u * 100000" "unitsToMilli u * 100000 < u + 100000"
    unfolding m by linarith+
  ultimately show ?thesis by blast
qed

lemma intent_covers_witness: "unitsToMilli 100001 = 2 \<and> 100001 \<le> unitsToMilli 100001 * 100000"
  using intent_covers [of 100001] by (simp add: unitsToMilli_def)

text \<open>The payload a swap hands the router parses back to the same call, and
  its two amounts to the exact units, for every recipient name.\<close>

theorem swapPayload_parses:
  "json_parse (swapPayload i) = Inr (swap_payload_json i) \<and>
   big_int (wireAmount (spi_amountInUnits i)) = Inr (spi_amountInUnits i) \<and>
   big_int (wireAmount (spi_minOutUnits i)) = Inr (spi_minOutUnits i)"
proof -
  have "wf_json (swap_payload_json i)" by (simp add: swap_payload_json_def)
  then show ?thesis unfolding swapPayload_def wireAmount_def by (simp add: json_roundtrip)
qed

text \<open>Two assets trade against each other in the wallet's list exactly when a
  pool is found for them, whichever way round they are named.\<close>

theorem counterparts_pools:
  "b \<in> set (counterparts a) \<longleftrightarrow> poolFor a b \<noteq> None \<and> poolFor b a = poolFor a b"
  by (auto simp: counterparts_def poolFor_def MAGI_POOLS_def)

end
