(* ===== verification/TxIndexer.thy ===== *)
theory TxIndexer
  imports WireTypes
begin

text \<open>
  The transaction index (api/src/indexer.ts): the IndexStore interface as a
  record of operations on a store state, its contract as a locale, the head
  walk and the backfill of syncIndex as loops over page fetches, and the
  in-memory store, on which the locale is interpreted.

  A fetch is given the number of pages already fetched and the offset, so a
  chain that grows during a sync, and a fetch that throws, are both covered.
  What was written before a throw stays written.
\<close>

record indexed_op =
  io_type :: string
  io_data :: "(string option \<times> string option) option"

record indexed_tx =
  ix_id :: string
  ix_anchr_height :: int
  ix_anchr_ts :: string
  ix_status :: string
  ix_required_auths :: "string list"
  ix_required_posting_auths :: "string list"
  ix_ops :: "indexed_op list"

record 's index_store_ops =
  so_known :: "'s \<Rightarrow> string list \<Rightarrow> string set"
  so_upsert :: "'s \<Rightarrow> indexed_tx list \<Rightarrow> 's"
  so_getMeta :: "'s \<Rightarrow> string \<Rightarrow> string option"
  so_setMeta :: "'s \<Rightarrow> string \<Rightarrow> string \<Rightarrow> 's"

record sync_result =
  sr_pages :: nat
  sr_seen :: nat
  sr_added :: nat
  sr_complete :: bool

definition INDEX_PAGE :: nat where
  "INDEX_PAGE = 100"

type_synonym fetch_page = "nat \<Rightarrow> nat \<Rightarrow> indexed_tx list result"

section \<open>The two walks\<close>

text \<open>Where a walk stands: the counters of the result, the offset of the page
  it is at, whether a short page was met, and the store.\<close>

record 's walk =
  wk_pages :: nat
  wk_seen :: nat
  wk_added :: nat
  wk_offset :: nat
  wk_end :: bool
  wk_store :: 's

definition fresh_rows :: "'s index_store_ops \<Rightarrow> 's \<Rightarrow> indexed_tx list \<Rightarrow> indexed_tx list" where
  "fresh_rows ops s rows = (let known = so_known ops s (map ix_id rows) in filter (\<lambda>r. ix_id r \<notin> known) rows)"

definition took_page :: "'s index_store_ops \<Rightarrow> bool \<Rightarrow> indexed_tx list \<Rightarrow> 's walk \<Rightarrow> 's walk" where
  "took_page ops rewrite rows w = (let fresh = fresh_rows ops (wk_store w) rows in
     w\<lparr>wk_pages := wk_pages w + 1, wk_seen := wk_seen w + length rows,
       wk_added := wk_added w + length fresh,
       wk_store := so_upsert ops (wk_store w) (if rewrite then rows else fresh)\<rparr>)"

function head_walk :: "fetch_page \<Rightarrow> 's index_store_ops \<Rightarrow> nat \<Rightarrow> 's walk \<Rightarrow> js_error option \<times> 's walk" where
  "head_walk fetchPage ops maxPages w = (if wk_pages w < maxPages then
     (case fetchPage (wk_pages w) (wk_offset w) of
        Inl e \<Rightarrow> (Some e, w)
      | Inr rows \<Rightarrow>
          let fresh = fresh_rows ops (wk_store w) rows;
              w1 = took_page ops (wk_offset w = 0) rows w
          in if length rows < INDEX_PAGE then (None, w1\<lparr>wk_end := True\<rparr>)
             else if length fresh < length rows then (None, w1)
             else head_walk fetchPage ops maxPages (w1\<lparr>wk_offset := wk_offset w + INDEX_PAGE\<rparr>))
   else (None, w))"
  by pat_completeness auto
termination
  by (relation "measure (\<lambda>(f, ops, m, w). m - wk_pages w)") (auto simp: took_page_def Let_def)

function backfill_walk :: "fetch_page \<Rightarrow> 's index_store_ops \<Rightarrow> nat \<Rightarrow> 's walk \<Rightarrow> js_error option \<times> 's walk" where
  "backfill_walk fetchPage ops maxPages w = (if wk_pages w < maxPages then
     (case fetchPage (wk_pages w) (wk_offset w) of
        Inl e \<Rightarrow> (Some e, w)
      | Inr rows \<Rightarrow>
          let w1 = took_page ops False rows w
          in if length rows < INDEX_PAGE then (None, w1\<lparr>wk_end := True\<rparr>)
             else backfill_walk fetchPage ops maxPages (w1\<lparr>wk_offset := wk_offset w + INDEX_PAGE\<rparr>))
   else (None, w))"
  by pat_completeness auto
termination
  by (relation "measure (\<lambda>(f, ops, m, w). m - wk_pages w)") (auto simp: took_page_def Let_def)

declare head_walk.simps [simp del] backfill_walk.simps [simp del]

text \<open>'Number(meta ?? 0)': the row is only ever written as the digits of an
  offset.\<close>

definition stored_offset :: "string option \<Rightarrow> nat" where
  "stored_offset v = (case v of None \<Rightarrow> 0 | Some s \<Rightarrow> if all_digits s then dec_val s else 0)"

definition sync_out :: "'s walk \<Rightarrow> bool \<Rightarrow> sync_result" where
  "sync_out w c = \<lparr>sr_pages = wk_pages w, sr_seen = wk_seen w, sr_added = wk_added w, sr_complete = c\<rparr>"

definition syncIndex :: "fetch_page \<Rightarrow> 's index_store_ops \<Rightarrow> nat \<Rightarrow> 's \<Rightarrow> sync_result result \<times> 's" where
  "syncIndex fetchPage ops maxPages s = (
     let backfilled = (so_getMeta ops s ''backfill_done'' = Some ''1'') in
     case head_walk fetchPage ops maxPages
            \<lparr>wk_pages = 0, wk_seen = 0, wk_added = 0, wk_offset = 0, wk_end = False, wk_store = s\<rparr> of
       (Some e, w) \<Rightarrow> (Inl e, wk_store w)
     | (None, w) \<Rightarrow>
        (if \<not> backfilled \<and> \<not> wk_end w then
           (let r0 = stored_offset (so_getMeta ops (wk_store w) ''backfill_offset'');
                resume = (if r0 < wk_offset w then wk_offset w else r0)
            in case backfill_walk fetchPage ops maxPages (w\<lparr>wk_offset := resume\<rparr>) of
                 (Some e, v) \<Rightarrow> (Inl e, wk_store v)
               | (None, v) \<Rightarrow>
                   (let s1 = so_setMeta ops (wk_store v) ''backfill_offset'' (show_nat (wk_offset v));
                        s2 = (if wk_end v then so_setMeta ops s1 ''backfill_done'' ''1'' else s1)
                    in (Inr (sync_out v (wk_end v)), s2)))
         else
           (let s2 = (if wk_end w \<and> \<not> backfilled then so_setMeta ops (wk_store w) ''backfill_done'' ''1'' else wk_store w)
            in (Inr (sync_out w (wk_end w \<or> backfilled)), s2))))"

section \<open>The in-memory store\<close>

record memory_store =
  ms_txs :: "(string \<times> indexed_tx) list"
  ms_meta :: "(string \<times> string) list"

definition mem_known :: "memory_store \<Rightarrow> string list \<Rightarrow> string set" where
  "mem_known s ids = set (filter (\<lambda>i. map_of (ms_txs s) i \<noteq> None) ids)"

definition mem_upsert :: "memory_store \<Rightarrow> indexed_tx list \<Rightarrow> memory_store" where
  "mem_upsert s txs = s\<lparr>ms_txs := fold (\<lambda>t. AList.update (ix_id t) t) txs (ms_txs s)\<rparr>"

definition mem_getMeta :: "memory_store \<Rightarrow> string \<Rightarrow> string option" where
  "mem_getMeta s k = map_of (ms_meta s) k"

definition mem_setMeta :: "memory_store \<Rightarrow> string \<Rightarrow> string \<Rightarrow> memory_store" where
  "mem_setMeta s k v = s\<lparr>ms_meta := AList.update k v (ms_meta s)\<rparr>"

definition MemoryIndexStore :: "memory_store index_store_ops" where
  "MemoryIndexStore = \<lparr>so_known = mem_known, so_upsert = mem_upsert, so_getMeta = mem_getMeta, so_setMeta = mem_setMeta\<rparr>"

text \<open>String comparison is by code unit, and the sort puts a before b when the
  comparator is negative.\<close>

fun str_less :: "string \<Rightarrow> string \<Rightarrow> bool" where
  "str_less s [] = False"
| "str_less [] (d # t) = True"
| "str_less (c # s) (d # t) = ((of_char c :: nat) < of_char d \<or> (c = d \<and> str_less s t))"

definition tx_before :: "indexed_tx \<Rightarrow> indexed_tx \<Rightarrow> bool" where
  "tx_before a b = (if ix_anchr_height b - ix_anchr_height a \<noteq> 0 then ix_anchr_height b - ix_anchr_height a < 0
     else \<not> str_less (ix_id a) (ix_id b))"

fun insert_tx :: "indexed_tx \<Rightarrow> indexed_tx list \<Rightarrow> indexed_tx list" where
  "insert_tx t [] = [t]"
| "insert_tx t (u # us) = (if tx_before t u then t # u # us else u # insert_tx t us)"

definition mem_all :: "memory_store \<Rightarrow> indexed_tx list" where
  "mem_all s = foldr insert_tx (map snd (ms_txs s)) []"

section \<open>The contract of a store\<close>

locale index_store =
  fixes ops :: "'s index_store_ops"
    and rows :: "'s \<Rightarrow> string \<Rightarrow> indexed_tx option"
  assumes known: "so_known ops s ids = {i \<in> set ids. rows s i \<noteq> None}"
    and upsert: "rows (so_upsert ops s ts) = fold (\<lambda>t m. m(ix_id t \<mapsto> t)) ts (rows s)"
    and upsert_meta: "so_getMeta ops (so_upsert ops s ts) k = so_getMeta ops s k"
    and setMeta: "so_getMeta ops (so_setMeta ops s k v) k' = (if k' = k then Some v else so_getMeta ops s k')"
    and setMeta_rows: "rows (so_setMeta ops s k v) = rows s"

lemma fold_put_dom: "dom (fold (\<lambda>t m. m(ix_id t \<mapsto> t)) ts f) = dom f \<union> ix_id ` set ts"
  by (induction ts arbitrary: f) auto

lemma mem_upsert_rows: "map_of (fold (\<lambda>t. AList.update (ix_id t) t) ts m) = fold (\<lambda>t f. f(ix_id t \<mapsto> t)) ts (map_of m)"
  by (induction ts arbitrary: m) (simp_all add: update_conv')

interpretation mem: index_store MemoryIndexStore "\<lambda>s. map_of (ms_txs s)"
  by unfold_locales (auto simp: MemoryIndexStore_def mem_known_def mem_upsert_def mem_getMeta_def
      mem_setMeta_def mem_upsert_rows update_conv')

section \<open>What a sync stores\<close>

definition page_of :: "indexed_tx list \<Rightarrow> nat \<Rightarrow> indexed_tx list" where
  "page_of H off = take INDEX_PAGE (drop off H)"

text \<open>A chain that does not change during the sync: the history newest first.\<close>

definition serves :: "fetch_page \<Rightarrow> indexed_tx list \<Rightarrow> bool" where
  "serves fetchPage H = (\<forall>n off. fetchPage n off = Inr (page_of H off))"

context index_store
begin

definition stored :: "'s \<Rightarrow> string set" where
  "stored s = dom (rows s)"

text \<open>Positions a to b - 1 of the history are stored.\<close>

definition covers :: "indexed_tx list \<Rightarrow> nat \<Rightarrow> nat \<Rightarrow> 's \<Rightarrow> bool" where
  "covers H a b s = (\<forall>i. a \<le> i \<and> i < b \<and> i < length H \<longrightarrow> ix_id (H ! i) \<in> stored s)"

lemma fresh: "fresh_rows ops s ts = filter (\<lambda>t. ix_id t \<notin> stored s) ts"
  by (auto simp: fresh_rows_def known stored_def Let_def intro: filter_cong)

lemma took_stored [simp]:
  "stored (wk_store (took_page ops rw ts w)) = stored (wk_store w) \<union> ix_id ` set ts"
  by (auto simp: took_page_def Let_def stored_def upsert fold_put_dom fresh)

lemma took_fields [simp]:
  "wk_pages (took_page ops rw ts w) = Suc (wk_pages w)" "wk_offset (took_page ops rw ts w) = wk_offset w"
  "wk_end (took_page ops rw ts w) = wk_end w"
  "so_getMeta ops (wk_store (took_page ops rw ts w)) k = so_getMeta ops (wk_store w) k"
  by (simp_all add: took_page_def Let_def upsert_meta)

lemma page_covers: "covers H off (off + INDEX_PAGE) s \<longleftrightarrow> ix_id ` set (page_of H off) \<subseteq> stored s"
proof -
  have "set (page_of H off) = {H ! i | i. off \<le> i \<and> i < off + INDEX_PAGE \<and> i < length H}"
  proof (intro set_eqI iffI)
    fix x assume "x \<in> set (page_of H off)"
    then obtain j where "j < length (page_of H off)" "page_of H off ! j = x" by (auto simp: in_set_conv_nth)
    then show "x \<in> {H ! i | i. off \<le> i \<and> i < off + INDEX_PAGE \<and> i < length H}"
      by (intro CollectI exI [of _ "off + j"]) (auto simp: page_of_def)
  next
    fix x assume "x \<in> {H ! i | i. off \<le> i \<and> i < off + INDEX_PAGE \<and> i < length H}"
    then obtain i where "x = H ! i" "off \<le> i" "i < off + INDEX_PAGE" "i < length H" by blast
    then have "i - off < length (page_of H off)" "page_of H off ! (i - off) = x" by (auto simp: page_of_def)
    then show "x \<in> set (page_of H off)" by (metis nth_mem)
  qed
  then show ?thesis by (auto simp: covers_def)
qed

lemma covers_mono: "covers H a b s \<Longrightarrow> stored s \<subseteq> stored t \<Longrightarrow> covers H a b t"
  by (auto simp: covers_def)

lemma covers_trans: "covers H a b s \<Longrightarrow> covers H c d s \<Longrightarrow> c \<le> b \<Longrightarrow> covers H a d s"
  unfolding covers_def by (metis le_trans not_less)

lemma covers_all: "covers H a b s \<Longrightarrow> length H \<le> b \<Longrightarrow> covers H a c s"
  unfolding covers_def by (metis less_le_trans)

text \<open>The store holds what it held at the start plus the first rows of the
  history, up to the offset.\<close>

definition walk_at :: "indexed_tx list \<Rightarrow> 's \<Rightarrow> 's walk \<Rightarrow> bool" where
  "walk_at H s w = (stored (wk_store w) = stored s \<union> ix_id ` set (take (wk_offset w) H) \<and> \<not> wk_end w)"

lemma take_page: "ix_id ` set (take off H) \<union> ix_id ` set (page_of H off) = ix_id ` set (take (off + INDEX_PAGE) H)"
  by (simp add: page_of_def take_add image_Un [symmetric])

lemma covers_take: "ix_id ` set (take b H) \<subseteq> stored s \<Longrightarrow> covers H 0 b s"
proof (unfold covers_def, intro allI impI)
  fix i
  assume s: "ix_id ` set (take b H) \<subseteq> stored s" and i: "0 \<le> i \<and> i < b \<and> i < length H"
  then have "i < length (take b H)" "take b H ! i = H ! i" by simp_all
  then have "H ! i \<in> set (take b H)" by (metis nth_mem)
  then show "ix_id (H ! i) \<in> stored s" using s by blast
qed

lemma page_short: "length (page_of H off) < INDEX_PAGE \<Longrightarrow> length H < off + INDEX_PAGE"
  by (auto simp: page_of_def min_def INDEX_PAGE_def split: if_splits)

text \<open>A page with a known row: as ids are distinct and the rows stored by this
  walk are newer, the row was stored before the walk.\<close>

lemma known_before:
  assumes "distinct (map ix_id H)" "walk_at H s w"
    "length (fresh_rows ops (wk_store w) (page_of H (wk_offset w))) < length (page_of H (wk_offset w))"
  shows "\<exists>i. wk_offset w \<le> i \<and> i < wk_offset w + INDEX_PAGE \<and> i < length H \<and> ix_id (H ! i) \<in> stored s"
proof -
  obtain t where t: "t \<in> set (page_of H (wk_offset w))" "ix_id t \<in> stored (wk_store w)"
    using assms(3) unfolding fresh by (metis (mono_tags, lifting) filter_True less_irrefl)
  then obtain j where j: "j < length (page_of H (wk_offset w))" "page_of H (wk_offset w) ! j = t"
    by (metis in_set_conv_nth)
  define i where "i = wk_offset w + j"
  have i: "wk_offset w \<le> i" "i < wk_offset w + INDEX_PAGE" "i < length H" "H ! i = t"
    using j by (auto simp: i_def page_of_def)
  have "ix_id t \<notin> ix_id ` set (take (wk_offset w) H)"
  proof
    assume "ix_id t \<in> ix_id ` set (take (wk_offset w) H)"
    then obtain k where k: "k < length (take (wk_offset w) H)" "ix_id (take (wk_offset w) H ! k) = ix_id t"
      by (metis imageE in_set_conv_nth)
    then have "map ix_id H ! k = map ix_id H ! i" "k < i" using i by auto
    moreover have "k < length (map ix_id H)" "i < length (map ix_id H)" using k i by auto
    ultimately show False using assms(1) unfolding distinct_conv_nth by (metis less_irrefl)
  qed
  then show ?thesis using t i assms(2) by (auto simp: walk_at_def)
qed

lemma head_walk_cases:
  assumes "serves f H" "distinct (map ix_id H)" "walk_at H s w" "head_walk f ops m w = (e, v)"
  shows "e = None \<and> wk_pages w \<le> wk_pages v \<and> wk_pages v \<le> max m (wk_pages w) \<and>
    (\<forall>k. so_getMeta ops (wk_store v) k = so_getMeta ops (wk_store w) k) \<and>
    stored s \<subseteq> stored (wk_store v) \<and>
    (wk_end v \<and> covers H 0 (length H) (wk_store v) \<and> length H < wk_offset v + INDEX_PAGE \<and>
        wk_offset v + INDEX_PAGE \<le> wk_offset w + INDEX_PAGE * (wk_pages v - wk_pages w)
     \<or> walk_at H s v \<and> wk_pages v = max m (wk_pages w) \<and>
        wk_offset v = wk_offset w + INDEX_PAGE * (wk_pages v - wk_pages w)
     \<or> \<not> wk_end v \<and> covers H 0 (wk_offset v + INDEX_PAGE) (wk_store v) \<and>
        stored (wk_store v) = stored s \<union> ix_id ` set (take (wk_offset v + INDEX_PAGE) H) \<and>
        wk_offset v + INDEX_PAGE \<le> wk_offset w + INDEX_PAGE * (wk_pages v - wk_pages w) \<and>
        (\<exists>i. wk_offset v \<le> i \<and> i < wk_offset v + INDEX_PAGE \<and> i < length H \<and> ix_id (H ! i) \<in> stored s))"
  using assms(3,4)
proof (induction "m - wk_pages w" arbitrary: w rule: less_induct)
  case less
  let ?rows = "page_of H (wk_offset w)"
  let ?w1 = "took_page ops (wk_offset w = 0) ?rows w"
  have st: "stored (wk_store ?w1) = stored s \<union> ix_id ` set (take (wk_offset w + INDEX_PAGE) H)"
    using less.prems(1) take_page [of "wk_offset w" H] by (auto simp: walk_at_def)
  have cov: "covers H 0 (wk_offset w + INDEX_PAGE) (wk_store ?w1)"
    using st by (intro covers_take) auto
  have f: "f (wk_pages w) (wk_offset w) = Inr ?rows" using assms(1) by (simp add: serves_def)
  show ?case
  proof (cases "wk_pages w < m")
    case False
    then have "e = None" "v = w" using less.prems(2) head_walk.simps [of f ops m w] by auto
    then show ?thesis using False less.prems(1) by (auto simp: walk_at_def)
  next
    case pg: True
    consider (short) "length ?rows < INDEX_PAGE"
      | (known) "\<not> length ?rows < INDEX_PAGE" "length (fresh_rows ops (wk_store w) ?rows) < length ?rows"
      | (on) "\<not> length ?rows < INDEX_PAGE" "\<not> length (fresh_rows ops (wk_store w) ?rows) < length ?rows" by blast
    then show ?thesis
    proof cases
      case short
      then have "e = None" "v = ?w1\<lparr>wk_end := True\<rparr>"
        using less.prems(2) head_walk.simps [of f ops m w] pg f by (auto simp: Let_def)
      then show ?thesis using pg st covers_all [OF cov less_imp_le [OF page_short [OF short]], of "length H"]
        page_short [OF short] by auto
    next
      case known
      then have v: "e = None" "v = ?w1"
        using less.prems(2) head_walk.simps [of f ops m w] pg f by (auto simp: Let_def)
      have ne: "\<not> wk_end w" using less.prems(1) by (simp add: walk_at_def)
      show ?thesis using v pg st cov ne known_before [OF assms(2) less.prems(1) known(2)] by auto
    next
      case on
      let ?w2 = "?w1\<lparr>wk_offset := wk_offset w + INDEX_PAGE\<rparr>"
      have eq: "head_walk f ops m ?w2 = (e, v)"
        using less.prems(2) head_walk.simps [of f ops m w] pg f on by (simp add: Let_def)
      have at: "walk_at H s ?w2" using st less.prems(1) by (auto simp: walk_at_def)
      have lt: "m - wk_pages ?w2 < m - wk_pages w" using pg by simp
      have ar: "INDEX_PAGE + INDEX_PAGE * (k - Suc p) = INDEX_PAGE * (k - p)" if "p < k" for k p
        using that by (simp add: INDEX_PAGE_def)
      note IH = less.hyps [OF lt at eq]
      have R: "wk_offset ?w2 + INDEX_PAGE * (wk_pages v - wk_pages ?w2) = wk_offset w + INDEX_PAGE * (wk_pages v - wk_pages w)"
        "wk_pages w \<le> wk_pages v"
        using IH pg ar [of "wk_pages w" "wk_pages v"] by auto
      have M: "max m (wk_pages ?w2) = max m (wk_pages w)" using pg by simp
      have G: "so_getMeta ops (wk_store ?w2) k = so_getMeta ops (wk_store w) k" for k by simp
      show ?thesis using IH R(2) unfolding G M R(1) by blast
    qed
  qed
qed

lemma backfill_walk_cases:
  assumes "serves f H" "covers H 0 (wk_offset w) (wk_store w)" "\<not> wk_end w" "backfill_walk f ops m w = (e, v)"
  shows "e = None \<and> wk_pages v \<le> max m (wk_pages w) \<and> (\<forall>k. so_getMeta ops (wk_store v) k = so_getMeta ops (wk_store w) k) \<and>
    stored (wk_store w) \<subseteq> stored (wk_store v) \<and> covers H 0 (wk_offset v) (wk_store v) \<and>
    (wk_pages w \<ge> m \<longrightarrow> v = w) \<and> (wk_end v \<longrightarrow> covers H 0 (length H) (wk_store v))"
  using assms(2-)
proof (induction "m - wk_pages w" arbitrary: w rule: less_induct)
  case less
  let ?rows = "page_of H (wk_offset w)"
  let ?w1 = "took_page ops False ?rows w"
  have f: "f (wk_pages w) (wk_offset w) = Inr ?rows" using assms(1) by (simp add: serves_def)
  have c1: "covers H 0 (wk_offset w) (wk_store ?w1)" by (rule covers_mono [OF less.prems(1)]) simp
  have "covers H (wk_offset w) (wk_offset w + INDEX_PAGE) (wk_store ?w1)" unfolding page_covers by simp
  then have cov: "covers H 0 (wk_offset w + INDEX_PAGE) (wk_store ?w1)" using c1 covers_trans by blast
  show ?case
  proof (cases "wk_pages w < m")
    case False
    then have "e = None" "v = w" using less.prems(3) backfill_walk.simps [of f ops m w] by auto
    then show ?thesis using False less.prems by auto
  next
    case pg: True
    show ?thesis
    proof (cases "length ?rows < INDEX_PAGE")
      case True
      then have "e = None" "v = ?w1\<lparr>wk_end := True\<rparr>"
        using less.prems(3) backfill_walk.simps [of f ops m w] pg f by (auto simp: Let_def)
      then show ?thesis using pg c1 covers_all [OF cov less_imp_le [OF page_short [OF True]], of "length H"] by auto
    next
      case False
      let ?w2 = "?w1\<lparr>wk_offset := wk_offset w + INDEX_PAGE\<rparr>"
      have eq: "backfill_walk f ops m ?w2 = (e, v)"
        using less.prems(3) backfill_walk.simps [of f ops m w] pg f False by (simp add: Let_def)
      have lt: "m - wk_pages ?w2 < m - wk_pages w" using pg by simp
      have "covers H 0 (wk_offset ?w2) (wk_store ?w2)" using cov by simp
      then show ?thesis using less.hyps [OF lt _ _ eq] pg less.prems(2) by auto
    qed
  qed
qed

definition is_done :: "'s \<Rightarrow> bool" where
  "is_done s = (so_getMeta ops s ''backfill_done'' = Some ''1'')"

definition resume_at :: "'s \<Rightarrow> nat" where
  "resume_at s = stored_offset (so_getMeta ops s ''backfill_offset'')"

text \<open>What holds of a store between syncs, when the newest n rows of the history
  arrived since the last one: those are not stored, and below them everything
  is, down to the resume offset or, once the backfill is done, to the end.\<close>

definition contiguous :: "nat \<Rightarrow> indexed_tx list \<Rightarrow> 's \<Rightarrow> bool" where
  "contiguous n H s = (distinct (map ix_id H) \<and> stored s \<subseteq> ix_id ` set (drop n H) \<and>
     (if is_done s then covers H n (length H) s else covers H n (n + resume_at s) s))"

lemma meta_after_walk:
  assumes "\<forall>k. so_getMeta ops (wk_store v) k = so_getMeta ops s k"
  shows "is_done (so_setMeta ops (wk_store v) ''backfill_offset'' x) = is_done s"
    "is_done (wk_store v) = is_done s" "resume_at (wk_store v) = resume_at s"
    "so_getMeta ops (wk_store v) ''backfill_offset'' = so_getMeta ops s ''backfill_offset''"
  using assms by (simp_all add: is_done_def resume_at_def setMeta)

lemma stored_setMeta [simp]: "stored (so_setMeta ops s k v) = stored s"
  by (simp add: stored_def setMeta_rows)

lemma covers_setMeta [simp]: "covers H a b (so_setMeta ops s k v) = covers H a b s"
  by (simp add: covers_def)

lemma resume_setMeta [simp]: "resume_at (so_setMeta ops s ''backfill_offset'' (show_nat n)) = n"
  by (simp add: resume_at_def setMeta stored_offset_def)

lemma resume_setDone [simp]: "resume_at (so_setMeta ops s ''backfill_done'' x) = resume_at s"
  by (simp add: resume_at_def setMeta)

lemma is_done_set [simp]: "is_done (so_setMeta ops s ''backfill_done'' ''1'')"
  by (simp add: is_done_def setMeta)

lemma head_covers:
  assumes "serves f H" "contiguous n H s" "n < INDEX_PAGE * maxPages \<or> \<not> is_done s \<and> resume_at s = 0"
    "head_walk f ops maxPages \<lparr>wk_pages = 0, wk_seen = 0, wk_added = 0, wk_offset = 0, wk_end = False, wk_store = s\<rparr> = (e, w)"
  shows "e = None \<and> wk_pages w \<le> maxPages \<and> (\<forall>k. so_getMeta ops (wk_store w) k = so_getMeta ops s k) \<and>
    stored s \<subseteq> stored (wk_store w) \<and>
    (wk_end w \<or> is_done s \<longrightarrow> covers H 0 (length H) (wk_store w)) \<and>
    covers H 0 (max (resume_at s) (wk_offset w)) (wk_store w)"
proof -
  let ?w0 = "\<lparr>wk_pages = 0, wk_seen = 0, wk_added = 0, wk_offset = 0, wk_end = False, wk_store = s\<rparr>"
  have d: "distinct (map ix_id H)" using assms(2) by (simp add: contiguous_def)
  have w0: "walk_at H s ?w0" by (simp add: walk_at_def)
  note C = head_walk_cases [OF assms(1) d w0 assms(4)]
  have basics: "e = None" "wk_pages w \<le> maxPages" "\<forall>k. so_getMeta ops (wk_store w) k = so_getMeta ops s k"
    "stored s \<subseteq> stored (wk_store w)" using C by auto
  have old: "covers H n (if is_done s then length H else n + resume_at s) (wk_store w)"
    using assms(2) basics(4) covers_mono by (auto simp: contiguous_def split: if_splits)
  have join: "(is_done s \<longrightarrow> covers H 0 (length H) (wk_store w)) \<and> covers H 0 (max (resume_at s) b) (wk_store w)"
    if "covers H 0 b (wk_store w)" "n \<le> b" for b
  proof (cases "is_done s")
    case True
    then have "covers H 0 (length H) (wk_store w)" using covers_trans [OF that(1)] old that(2) by simp
    then show ?thesis by (auto simp: covers_def)
  next
    case False
    then have "covers H 0 (n + resume_at s) (wk_store w)" using covers_trans [OF that(1)] old that(2) by simp
    then show ?thesis using False that(1) by (auto simp: covers_def max_def split: if_splits)
  qed
  from C consider (ended) "wk_end w" "covers H 0 (length H) (wk_store w)"
    | (out) "walk_at H s w" "wk_pages w = max maxPages 0" "wk_offset w = INDEX_PAGE * wk_pages w"
    | (known) "\<not> wk_end w" "covers H 0 (wk_offset w + INDEX_PAGE) (wk_store w)"
      "\<exists>i. wk_offset w \<le> i \<and> i < wk_offset w + INDEX_PAGE \<and> i < length H \<and> ix_id (H ! i) \<in> stored s"
    by auto
  then show ?thesis
  proof cases
    case ended
    then show ?thesis using basics covers_all [OF ended(2)] by auto
  next
    case out
    have off: "wk_offset w = INDEX_PAGE * maxPages" using out by simp
    have c: "covers H 0 (wk_offset w) (wk_store w)" using out(1) by (intro covers_take) (auto simp: walk_at_def)
    have ne: "\<not> wk_end w" using out(1) by (simp add: walk_at_def)
    show ?thesis
    proof (cases "n < INDEX_PAGE * maxPages")
      case True
      then show ?thesis using join [OF c] basics ne off by simp
    next
      case False
      then show ?thesis using assms(3) basics ne c by auto
    qed
  next
    case known
    then obtain i where i: "i < wk_offset w + INDEX_PAGE" "i < length H" "ix_id (H ! i) \<in> stored s" by blast
    have "n \<le> i"
    proof (rule ccontr)
      assume "\<not> n \<le> i"
      have "ix_id (H ! i) \<in> ix_id ` set (drop n H)" using assms(2) i by (auto simp: contiguous_def)
      then obtain k where "k < length (drop n H)" "ix_id (drop n H ! k) = ix_id (H ! i)"
        by (metis imageE in_set_conv_nth)
      then have "map ix_id H ! (n + k) = map ix_id H ! i" "n + k < length (map ix_id H)" "i < length (map ix_id H)" using i by auto
      then have "n + k = i" using d nth_eq_iff_index_eq by blast
      then show False using \<open>\<not> n \<le> i\<close> by simp
    qed
    then have "n \<le> wk_offset w + INDEX_PAGE" using i by simp
    then have J: "(is_done s \<longrightarrow> covers H 0 (length H) (wk_store w)) \<and> covers H 0 (max (resume_at s) (wk_offset w + INDEX_PAGE)) (wk_store w)"
      using join [OF known(2)] by blast
    then have "covers H 0 (max (resume_at s) (wk_offset w)) (wk_store w)" by (auto simp: covers_def)
    then show ?thesis using J basics known(1) by blast
  qed
qed

lemma contiguous_all:
  assumes "contiguous n H s" "covers H 0 (length H) t" "stored t \<subseteq> ix_id ` set H"
  shows "contiguous 0 H t"
proof -
  have "covers H 0 b t" for b using covers_all [OF assms(2) le_refl] by blast
  then show ?thesis using assms by (auto simp: contiguous_def)
qed

lemma page_sub: "ix_id ` set (page_of H off) \<subseteq> ix_id ` set H"
  by (auto simp: page_of_def dest!: in_set_takeD in_set_dropD)

lemma head_walk_stores:
  assumes "serves f H" "head_walk f ops m w = (e, v)"
  shows "stored (wk_store v) \<subseteq> stored (wk_store w) \<union> ix_id ` set H"
  using assms(2)
proof (induction "m - wk_pages w" arbitrary: w rule: less_induct)
  case less
  let ?rows = "page_of H (wk_offset w)"
  let ?w1 = "took_page ops (wk_offset w = 0) ?rows w"
  let ?w2 = "?w1\<lparr>wk_offset := wk_offset w + INDEX_PAGE\<rparr>"
  have f: "f (wk_pages w) (wk_offset w) = Inr ?rows" using assms(1) by (simp add: serves_def)
  have sub: "stored (wk_store ?w1) \<subseteq> stored (wk_store w) \<union> ix_id ` set H"
    unfolding took_stored using page_sub by (intro Un_mono subset_refl)
  note eq = less.prems [unfolded head_walk.simps [of f ops m w] f sum.case]
  consider (stop) "v = w" | (last) "wk_store v = wk_store ?w1" | (on) "wk_pages w < m" "head_walk f ops m ?w2 = (e, v)"
  proof (cases "wk_pages w < m \<and> \<not> length ?rows < INDEX_PAGE")
    case False
    then have "v = w \<or> wk_store v = wk_store ?w1" using eq by (cases "wk_pages w < m") (auto simp: Let_def)
    then show ?thesis using that by blast
  next
    case T: True
    then have pg: "wk_pages w < m" and F: "\<not> length ?rows < INDEX_PAGE" by auto
    show ?thesis
    proof (cases "length (fresh_rows ops (wk_store w) ?rows) < length ?rows")
      case True
      then have "wk_store v = wk_store ?w1" using eq pg F by (simp add: Let_def)
      then show ?thesis using that by blast
    next
      case False
      then have "head_walk f ops m ?w2 = (e, v)" using eq pg F by (simp add: Let_def)
      then show ?thesis using that pg by blast
    qed
  qed
  then show ?case
  proof cases
    case on
    have "m - wk_pages ?w2 < m - wk_pages w" using on by simp
    from less.hyps [OF this on(2)] show ?thesis using sub by auto
  qed (use sub in auto)
qed

lemma backfill_walk_stores:
  assumes "serves f H" "backfill_walk f ops m w = (e, v)"
  shows "stored (wk_store v) \<subseteq> stored (wk_store w) \<union> ix_id ` set H"
  using assms(2)
proof (induction "m - wk_pages w" arbitrary: w rule: less_induct)
  case less
  let ?rows = "page_of H (wk_offset w)"
  let ?w1 = "took_page ops False ?rows w"
  let ?w2 = "?w1\<lparr>wk_offset := wk_offset w + INDEX_PAGE\<rparr>"
  have f: "f (wk_pages w) (wk_offset w) = Inr ?rows" using assms(1) by (simp add: serves_def)
  have sub: "stored (wk_store ?w1) \<subseteq> stored (wk_store w) \<union> ix_id ` set H"
    unfolding took_stored using page_sub by (intro Un_mono subset_refl)
  note eq = less.prems [unfolded backfill_walk.simps [of f ops m w] f sum.case]
  consider (stop) "v = w" | (last) "wk_store v = wk_store ?w1" | (on) "wk_pages w < m" "backfill_walk f ops m ?w2 = (e, v)"
  proof (cases "wk_pages w < m \<and> \<not> length ?rows < INDEX_PAGE")
    case False
    then have "v = w \<or> wk_store v = wk_store ?w1" using eq by (cases "wk_pages w < m") (auto simp: Let_def)
    then show ?thesis using that by blast
  next
    case T: True
    then have pg: "wk_pages w < m" and F: "\<not> length ?rows < INDEX_PAGE" by auto
    have "backfill_walk f ops m ?w2 = (e, v)" using eq pg F by (simp add: Let_def)
    then show ?thesis using that pg by blast
  qed
  then show ?case
  proof cases
    case on
    have "m - wk_pages ?w2 < m - wk_pages w" using on by simp
    from less.hyps [OF this on(2)] show ?thesis using sub by auto
  qed (use sub in auto)
qed

lemma sync_keeps:
  assumes "serves f H" "contiguous n H s" "n < INDEX_PAGE * maxPages \<or> \<not> is_done s \<and> resume_at s = 0"
    "syncIndex f ops maxPages s = (r, t)"
  shows "\<exists>out. r = Inr out \<and> sr_pages out \<le> maxPages \<and> contiguous 0 H t \<and>
    stored s \<subseteq> stored t \<and> (sr_complete out \<longleftrightarrow> is_done t) \<and> (is_done s \<longrightarrow> is_done t)"
proof -
  let ?w0 = "\<lparr>wk_pages = 0, wk_seen = 0, wk_added = 0, wk_offset = 0, wk_end = False, wk_store = s\<rparr>"
  obtain e w where h: "head_walk f ops maxPages ?w0 = (e, w)" by fastforce
  note HC = head_covers [OF assms(1-3) h]
  have e: "e = None" and G: "\<forall>k. so_getMeta ops (wk_store w) k = so_getMeta ops s k" and P: "wk_pages w \<le> maxPages"
    and mono: "stored s \<subseteq> stored (wk_store w)" using HC by auto
  note MW = meta_after_walk [OF G]
  have d: "distinct (map ix_id H)" and old: "stored s \<subseteq> ix_id ` set H"
    using assms(2) by (auto simp: contiguous_def dest: in_set_dropD)
  have sub: "stored (wk_store w) \<subseteq> ix_id ` set H" using head_walk_stores [OF assms(1) h] old by auto
  define resume where "resume = (if resume_at s < wk_offset w then wk_offset w else resume_at s)"
  have rm: "resume = max (resume_at s) (wk_offset w)" by (simp add: resume_def max_def)
  show ?thesis
  proof (cases "\<not> is_done s \<and> \<not> wk_end w")
    case True
    obtain e' v where b: "backfill_walk f ops maxPages (w\<lparr>wk_offset := resume\<rparr>) = (e', v)" by fastforce
    have "covers H 0 (wk_offset (w\<lparr>wk_offset := resume\<rparr>)) (wk_store (w\<lparr>wk_offset := resume\<rparr>))" using HC by (simp add: rm)
    note BC = backfill_walk_cases [OF assms(1) this _ b]
    have ne: "\<not> wk_end (w\<lparr>wk_offset := resume\<rparr>)" using True by simp
    note BC = BC [OF ne]
    have sub': "stored (wk_store v) \<subseteq> ix_id ` set H" using backfill_walk_stores [OF assms(1) b] sub by auto
    let ?s1 = "so_setMeta ops (wk_store v) ''backfill_offset'' (show_nat (wk_offset v))"
    have run: "r = Inr (sync_out v (wk_end v))"
      "t = (if wk_end v then so_setMeta ops ?s1 ''backfill_done'' ''1'' else ?s1)"
    proof -
      have R: "(if stored_offset (so_getMeta ops (wk_store w) ''backfill_offset'') < wk_offset w then wk_offset w
        else stored_offset (so_getMeta ops (wk_store w) ''backfill_offset'')) = resume"
        unfolding MW(4) by (simp add: resume_def resume_at_def)
      have b': "backfill_walk f ops maxPages (w\<lparr>wk_offset := resume\<rparr>) = (None, v)" using b BC by simp
      have "syncIndex f ops maxPages s = (Inr (sync_out v (wk_end v)), if wk_end v then so_setMeta ops ?s1 ''backfill_done'' ''1'' else ?s1)"
        unfolding syncIndex_def h [unfolded e] Let_def prod.case option.case R b'
        using True by (simp add: is_done_def)
      then show "r = Inr (sync_out v (wk_end v))"
        "t = (if wk_end v then so_setMeta ops ?s1 ''backfill_done'' ''1'' else ?s1)" using assms(4) by simp_all
    qed
    have G': "\<forall>k. so_getMeta ops (wk_store v) k = so_getMeta ops s k" using BC G by simp
    note MV = meta_after_walk [OF G']
    have st: "stored t = stored (wk_store v)" by (simp add: run(2))
    show ?thesis
    proof (cases "wk_end v")
      case fin: True
      then have "covers H 0 (length H) t" using BC by (simp add: run(2))
      then have "contiguous 0 H t" using contiguous_all [OF assms(2)] sub' st by simp
      then show ?thesis using run fin BC P mono st by (auto simp: sync_out_def)
    next
      case False
      then have nd: "\<not> is_done t" using True MV by (simp add: run(2))
      have "covers H 0 (wk_offset v) t" using BC False by (simp add: run(2))
      then have "contiguous 0 H t" using nd d sub' st False by (simp add: contiguous_def run(2))
      then show ?thesis using run False nd BC P mono st True by (auto simp: sync_out_def)
    qed
  next
    case False
    have run: "r = Inr (sync_out w (wk_end w \<or> is_done s))"
      "t = (if wk_end w \<and> \<not> is_done s then so_setMeta ops (wk_store w) ''backfill_done'' ''1'' else wk_store w)"
      using assms(4) False h unfolding syncIndex_def e by (auto simp: Let_def is_done_def e split: if_splits)
    have dn: "is_done t" using False MW by (auto simp: run(2))
    have "covers H 0 (length H) t" using HC False by (auto simp: run(2))
    then have "contiguous 0 H t" using contiguous_all [OF assms(2)] sub by (simp add: run(2) split: if_splits)
    then show ?thesis using run False dn P mono by (auto simp: sync_out_def)
  qed
qed

lemma contiguous_grow:
  assumes "contiguous n H s" "distinct (map ix_id (N @ H))"
  shows "contiguous (length N + n) (N @ H) s"
proof -
  have c: "covers (N @ H) (length N + a) (length N + b) s" if "covers H a b s" for a b
    unfolding covers_def
  proof (intro allI impI)
    fix i assume i: "length N + a \<le> i \<and> i < length N + b \<and> i < length (N @ H)"
    define j where "j = i - length N"
    have "(N @ H) ! i = H ! j" "a \<le> j \<and> j < b \<and> j < length H" using i by (auto simp: nth_append j_def)
    then show "ix_id ((N @ H) ! i) \<in> stored s" using that unfolding covers_def by metis
  qed
  show ?thesis
    using assms c [of n "length H"] c [of n "n + resume_at s"] by (auto simp: contiguous_def add.assoc)
qed

lemma covers_stored: "covers H 0 (length H) s \<Longrightarrow> ix_id ` set H \<subseteq> stored s"
  by (auto simp: covers_def in_set_conv_nth)

end

section \<open>A store over the life of a chain\<close>

definition empty_store :: memory_store where
  "empty_store = \<lparr>ms_txs = [], ms_meta = []\<rparr>"

text \<open>The states an index goes through: an empty store beside a history, then
  new transactions in front of it and syncs, in any order.  Between two syncs
  fewer transactions arrive than one head walk can read, which is the
  source's assumption that the first page meets a known row.\<close>

inductive index_state :: "nat \<Rightarrow> nat \<Rightarrow> indexed_tx list \<Rightarrow> memory_store \<Rightarrow> bool" for maxPages where
  start: "distinct (map ix_id H) \<Longrightarrow> index_state maxPages (length H) H empty_store"
| grow: "index_state maxPages n H s \<Longrightarrow> distinct (map ix_id (N @ H)) \<Longrightarrow>
    length N + n < INDEX_PAGE * maxPages \<Longrightarrow> index_state maxPages (length N + n) (N @ H) s"
| sync: "index_state maxPages n H s \<Longrightarrow> serves f H \<Longrightarrow>
    syncIndex f MemoryIndexStore maxPages s = (Inr out, t) \<Longrightarrow> index_state maxPages 0 H t"

lemma empty_facts: "\<not> mem.is_done empty_store" "mem.resume_at empty_store = 0" "mem.stored empty_store = {}"
  unfolding mem.is_done_def mem.resume_at_def mem.stored_def
  by (simp_all add: empty_store_def MemoryIndexStore_def mem_getMeta_def stored_offset_def)

lemma index_state_contiguous:
  "index_state maxPages n H s \<Longrightarrow> 0 < maxPages \<Longrightarrow> mem.contiguous n H s \<and>
     (n < INDEX_PAGE * maxPages \<or> \<not> mem.is_done s \<and> mem.resume_at s = 0)"
proof (induction rule: index_state.induct)
  case (start H)
  then show ?case by (simp add: empty_facts mem.contiguous_def mem.covers_def)
next
  case (grow n H s N)
  then show ?case using mem.contiguous_grow by blast
next
  case (sync n H s f out t)
  then show ?case using mem.sync_keeps [of f H n s maxPages "Inr out" t] by (simp add: INDEX_PAGE_def)
qed


definition tx_named :: "string \<Rightarrow> indexed_tx" where
  "tx_named i = \<lparr>ix_id = i, ix_anchr_height = 1, ix_anchr_ts = [], ix_status = ''CONFIRMED'',
     ix_required_auths = [], ix_required_posting_auths = [], ix_ops = []\<rparr>"


lemma row_not_in_prefix:
  assumes "distinct (map ix_id H)" "i < length H" "b \<le> i"
  shows "ix_id (H ! i) \<notin> ix_id ` set (take b H)"
proof
  assume "ix_id (H ! i) \<in> ix_id ` set (take b H)"
  then obtain k where "k < length (take b H)" "ix_id (take b H ! k) = ix_id (H ! i)" by (metis imageE in_set_conv_nth)
  then have "map ix_id H ! k = map ix_id H ! i" "k < i" "i < length (map ix_id H)" "k < length (map ix_id H)"
    using assms(2,3) by auto
  then show False using assms(1) nth_eq_iff_index_eq by (metis less_irrefl)
qed

text \<open>A sync whose first page is all stored stops there.\<close>

lemma resync_stops:
  assumes "serves f H" "0 < maxPages" "mem_getMeta t ''backfill_done'' = Some ''1''" "INDEX_PAGE \<le> length H"
    "ix_id ` set (page_of H 0) \<subseteq> mem.stored t" "syncIndex f MemoryIndexStore maxPages t = (r', t')"
  shows "(\<exists>out. r' = Inr out \<and> sr_complete out) \<and> mem.stored t' = mem.stored t"
proof -
  let ?w0 = "\<lparr>wk_pages = 0, wk_seen = 0, wk_added = 0, wk_offset = 0, wk_end = False, wk_store = t\<rparr>"
  have full: "length (page_of H 0) = INDEX_PAGE" using assms(4) by (simp add: page_of_def)
  have "fresh_rows MemoryIndexStore t (page_of H 0) = []" using assms(5) by (auto simp: mem.fresh filter_empty_conv)
  moreover have "f 0 0 = Inr (page_of H 0)" using assms(1) by (simp add: serves_def)
  moreover have "0 < INDEX_PAGE" by (simp add: INDEX_PAGE_def)
  ultimately have "head_walk f MemoryIndexStore maxPages ?w0 = (None, took_page MemoryIndexStore True (page_of H 0) ?w0)"
    using assms(2) full by (subst head_walk.simps) (simp add: Let_def)
  then have "r' = Inr (sync_out (took_page MemoryIndexStore True (page_of H 0) ?w0) True)"
    "t' = wk_store (took_page MemoryIndexStore True (page_of H 0) ?w0)"
    using assms(3,6) by (auto simp: syncIndex_def Let_def MemoryIndexStore_def)
  then show ?thesis using assms(5) by (auto simp: sync_out_def)
qed

text \<open>C26. The other side of that assumption: once the backfill is done, a sync
  that uses up its pages on new transactions reports itself complete although
  the rows beyond its last page were never read, and the next sync of the same
  history stops at its first page, so those rows stay missing.\<close>

theorem sync_gap:
  assumes "serves f H" "distinct (map ix_id H)" "0 < maxPages"
    "mem_getMeta s ''backfill_done'' = Some ''1''"
    "i = INDEX_PAGE * maxPages" "i < length H" "\<forall>j \<le> i. map_of (ms_txs s) (ix_id (H ! j)) = None"
    "syncIndex f MemoryIndexStore maxPages s = (r, t)" "syncIndex f MemoryIndexStore maxPages t = (r', t')"
  shows "(\<exists>out. r = Inr out \<and> sr_complete out) \<and> map_of (ms_txs t) (ix_id (H ! i)) = None \<and>
    (\<exists>out. r' = Inr out \<and> sr_complete out) \<and> map_of (ms_txs t') (ix_id (H ! i)) = None"
proof -
  let ?w0 = "\<lambda>s. \<lparr>wk_pages = 0, wk_seen = 0, wk_added = 0, wk_offset = 0, wk_end = False, wk_store = s\<rparr>"
  obtain e w where h: "head_walk f MemoryIndexStore maxPages (?w0 s) = (e, w)" by fastforce
  have w0: "mem.walk_at H s (?w0 s)" for s by (simp add: mem.walk_at_def)
  note C = mem.head_walk_cases [OF assms(1,2) w0 h]
  have notin: "ix_id (H ! j) \<notin> mem.stored s" if "j \<le> i" for j using assms(7) that by (simp add: mem.stored_def domIff)
  note nth_take = row_not_in_prefix [OF assms(2,6)]
  have pgs: "wk_pages w \<le> maxPages" using C by simp
  have lim: "INDEX_PAGE * wk_pages w \<le> i" using pgs assms(5) by simp
  have B: "mem.walk_at H s w" "wk_offset w = i"
  proof -
    have "\<not> length H < wk_offset w + INDEX_PAGE \<or> \<not> wk_offset w + INDEX_PAGE \<le> INDEX_PAGE * wk_pages w"
      using lim assms(6) by linarith
    moreover have "\<not> (\<exists>j. j < wk_offset w + INDEX_PAGE \<and> ix_id (H ! j) \<in> mem.stored s) \<or>
      \<not> wk_offset w + INDEX_PAGE \<le> INDEX_PAGE * wk_pages w"
      using lim notin by (metis le_trans less_imp_le_nat)
    ultimately have "mem.walk_at H s w \<and> wk_pages w = max maxPages 0 \<and> wk_offset w = INDEX_PAGE * wk_pages w"
      using C by auto
    then show "mem.walk_at H s w" "wk_offset w = i" using assms(5) by auto
  qed
  have G: "mem_getMeta (wk_store w) ''backfill_done'' = Some ''1''"
    using C assms(4) by (simp add: MemoryIndexStore_def)
  have e: "e = None" and ne: "\<not> wk_end w" using C B by (auto simp: mem.walk_at_def)
  have rt: "r = Inr (sync_out w True)" "t = wk_store w"
    using assms(8) h e ne assms(4) by (auto simp: syncIndex_def Let_def MemoryIndexStore_def)
  have tst: "mem.stored t = mem.stored s \<union> ix_id ` set (take i H)" using B rt by (simp add: mem.walk_at_def)
  have miss: "ix_id (H ! i) \<notin> mem.stored t" using tst notin nth_take by auto
  have P: "INDEX_PAGE \<le> i" using assms(3,5) by simp
  then have "ix_id ` set (page_of H 0) \<subseteq> mem.stored t"
    using tst by (auto simp: page_of_def min_def dest: set_take_subset_set_take [THEN subsetD, rotated])
  moreover have "mem_getMeta t ''backfill_done'' = Some ''1''" using G rt by simp
  moreover have "INDEX_PAGE \<le> length H" using P assms(6) by simp
  ultimately have "(\<exists>out. r' = Inr out \<and> sr_complete out) \<and> mem.stored t' = mem.stored t"
    using resync_stops [OF assms(1,3) _ _ _ assms(9)] by blast
  then show ?thesis using miss rt by (auto simp: mem.stored_def domIff sync_out_def)
qed

lemma sync_gap_witness:
  "\<exists>t. sr_complete (case fst (syncIndex (\<lambda>n off. Inr (page_of (map (\<lambda>k. tx_named (show_nat k)) [0..<101]) off))
       MemoryIndexStore 1 \<lparr>ms_txs = [], ms_meta = [(''backfill_done'', ''1'')]\<rparr>) of Inr out \<Rightarrow> out)
   \<and> t = snd (syncIndex (\<lambda>n off. Inr (page_of (map (\<lambda>k. tx_named (show_nat k)) [0..<101]) off))
       MemoryIndexStore 1 \<lparr>ms_txs = [], ms_meta = [(''backfill_done'', ''1'')]\<rparr>)
   \<and> map_of (ms_txs t) (show_nat 100) = None"
proof -
  let ?H = "map (\<lambda>k. tx_named (show_nat k)) [0..<101]"
  let ?f = "\<lambda>n off. Inr (page_of ?H off)"
  let ?s = "\<lparr>ms_txs = [], ms_meta = [(''backfill_done'', ''1'')]\<rparr>"
  obtain r t where rt: "syncIndex ?f MemoryIndexStore 1 ?s = (r, t)" by fastforce
  obtain r' t' where rt': "syncIndex ?f MemoryIndexStore 1 t = (r', t')" by fastforce
  have sv: "serves ?f ?H" by (simp add: serves_def)
  have "map ix_id ?H = map show_nat [0..<101]" by (simp add: tx_named_def)
  then have d: "distinct (map ix_id ?H)" by (simp add: distinct_map inj_on_def del: upt_conv_Cons)
  have i: "(100 :: nat) = INDEX_PAGE * 1" by (simp add: INDEX_PAGE_def)
  have "?H ! 100 = tx_named (show_nat 100)" by (subst nth_map) (simp_all del: upt_conv_Cons)
  then have id: "ix_id (?H ! 100) = show_nat 100" by (simp add: tx_named_def)
  have "(\<exists>out. r = Inr out \<and> sr_complete out) \<and> map_of (ms_txs t) (ix_id (?H ! 100)) = None"
    using sync_gap [OF sv d _ _ i _ _ rt rt'] by (simp add: mem_getMeta_def)
  then show ?thesis using rt id by auto
qed

end
