(* ===== verification/NodePool.thy ===== *)
theory NodePool
  imports JsPrelude
begin

text \<open>
  The public MAGI nodes and the failover across them (api/src/magi-nodes.ts).
  The network is an argument: what the k-th request of a call, to a given
  address, comes back with - a response, or an exception such as the abort of
  its timer.  The remembered node is module state that other calls may change
  while this one waits; env says what it is when the k-th request settles.
\<close>

definition MAGI_NODES :: "string list" where
  "MAGI_NODES = [''https://api.okinoko.io/api/v1/graphql'', ''https://vsc.techcoderx.com/api/v1/graphql'',
     ''https://api.vsc.eco/api/v1/graphql'']"

definition FAILOVER_MS :: "bool \<Rightarrow> int" where
  "FAILOVER_MS on_server = (if on_server then 2500 else 6000)"

definition PROBE_MS :: int where
  "PROBE_MS = 3000"

definition js_lower_all :: "string \<Rightarrow> string" where
  "js_lower_all s = map to_lower s"

definition RATE_LIMITED :: "string \<Rightarrow> bool" where
  "RATE_LIMITED text = str_includes ''rate limit exceeded'' (js_lower_all text)"

definition STATE_NOT_READY :: "string \<Rightarrow> bool" where
  "STATE_NOT_READY text = str_includes ''not found locally'' (js_lower_all text)"

section \<open>The remembered node\<close>

text \<open>Storage may be missing or throw; then nothing is remembered.\<close>

record node_state =
  nd_preferred :: nat
  nd_remembered :: "string option"
  nd_storage_works :: bool

fun index_of :: "'a \<Rightarrow> 'a list \<Rightarrow> nat option" where
  "index_of x [] = None"
| "index_of x (y # ys) = (if x = y then Some 0 else map_option Suc (index_of x ys))"

definition initial_preferred :: "bool \<Rightarrow> string option \<Rightarrow> nat" where
  "initial_preferred storage_works remembered =
     (if storage_works then nullish (index_of (nullish remembered []) MAGI_NODES) 0 else 0)"

definition prefer_node :: "nat \<Rightarrow> node_state \<Rightarrow> node_state" where
  "prefer_node i s = (let s1 = s\<lparr>nd_preferred := i\<rparr> in
     if nd_storage_works s then s1\<lparr>nd_remembered := Some (MAGI_NODES ! i)\<rparr> else s1)"

definition currentMagiNode :: "string option \<Rightarrow> node_state \<Rightarrow> string" where
  "currentMagiNode url s = (case url of
     Some u \<Rightarrow> if u \<noteq> [] \<and> u \<notin> set MAGI_NODES then u else MAGI_NODES ! nd_preferred s
   | None \<Rightarrow> MAGI_NODES ! nd_preferred s)"

section \<open>Picking the fastest\<close>

text \<open>What the three probes of a node give: their times, or a failure of one
  of them.  The first only opens the connection.\<close>

type_synonym node_probes = "nat \<Rightarrow> nat \<Rightarrow> int option"

definition probe_node :: "node_probes \<Rightarrow> nat \<Rightarrow> (nat \<times> int) option" where
  "probe_node probe i = (case (probe i 0, probe i 1, probe i 2) of
     (Some _, Some a, Some b) \<Rightarrow> Some (i, min a b) | _ \<Rightarrow> None)"

text \<open>The head of a stable sort by time.\<close>

fun fastest :: "(nat \<times> int) list \<Rightarrow> (nat \<times> int) option" where
  "fastest [] = None"
| "fastest (x # xs) = (case fastest xs of None \<Rightarrow> Some x | Some y \<Rightarrow> if snd x \<le> snd y then Some x else Some y)"

definition pickFastestNode :: "string option \<Rightarrow> node_probes \<Rightarrow> node_state \<Rightarrow> string \<times> node_state" where
  "pickFastestNode url probe s = (
     if url \<noteq> None \<and> the url \<notin> set MAGI_NODES then (the url, s) else
     let timed = List.map_filter (probe_node probe) [0..<length MAGI_NODES];
         s1 = (case fastest timed of Some (i, ms) \<Rightarrow> prefer_node i s | None \<Rightarrow> s)
     in (currentMagiNode None s1, s1))"

section \<open>Fetching with failover\<close>

datatype fetch_outcome = Reply int string | Threw "string option" "string option"

record magi_fetch_options =
  mo_url :: "string option"
  mo_timeoutMs :: "int option"
  mo_failoverMs :: "int option"

type_synonym node_answers = "nat \<Rightarrow> string \<Rightarrow> fetch_outcome"
type_synonym interference = "nat \<Rightarrow> node_state \<Rightarrow> node_state"

text \<open>'limit / 1000' as JavaScript prints it, for a limit in whole
  milliseconds.\<close>

definition show_secs :: "int \<Rightarrow> string" where
  "show_secs ms = (let w = show_int (bdiv ms 1000); f = pad_start 3 (CHR ''0'') (show_int (bmod ms 1000));
       t = rev (dropWhile (\<lambda>c. c = CHR ''0'') (rev f))
     in if t = [] then w else w @ ''.'' @ t)"

definition usable :: "fetch_outcome \<Rightarrow> bool" where
  "usable out = (case out of Reply st text \<Rightarrow> st < 500 \<and> \<not> RATE_LIMITED text \<and> \<not> STATE_NOT_READY text
     | Threw _ _ \<Rightarrow> False)"

definition refusal :: "fetch_outcome \<Rightarrow> int \<Rightarrow> string" where
  "refusal out limit = (case out of
     Reply st text \<Rightarrow> if st \<ge> 500 then ''HTTP '' @ show_int st
       else if RATE_LIMITED text then ''rate limited'' else ''block not fetched yet''
   | Threw name msg \<Rightarrow>
       if name = Some ''AbortError'' then ''no answer within '' @ show_secs limit @ ''s''
       else (case msg of Some m \<Rightarrow> if m \<noteq> [] then nullish name ''error'' @ '': '' @ m else ''no response''
             | None \<Rightarrow> ''no response''))"

text \<open>The loop over the nodes still to try: each an address, with its place in
  the list when it is a public node.  The log collects the addresses asked.\<close>

fun try_nodes :: "magi_fetch_options \<Rightarrow> bool \<Rightarrow> node_answers \<Rightarrow> interference \<Rightarrow> nat \<Rightarrow> (string \<times> nat option) list
    \<Rightarrow> string list \<Rightarrow> node_state \<Rightarrow> ((int \<times> string) option \<times> string list) \<times> node_state" where
  "try_nodes opts on_server net env k [] tried s = ((None, tried), s)"
| "try_nodes opts on_server net env k ((url, i) # rest) tried s = (
     let s1 = env k s; out = net k url; final = (rest = []);
         timeoutMs = nullish (mo_timeoutMs opts) 15000;
         limit = (if final then timeoutMs else min timeoutMs (nullish (mo_failoverMs opts) (FAILOVER_MS on_server)));
         again = tried @ [url @ '' ('' @ refusal out limit @ '')'']
     in case out of
          Reply st text \<Rightarrow>
            if \<not> usable out \<and> \<not> final then try_nodes opts on_server net env (k + 1) rest again s1
            else ((Some (st, text), tried),
                  (case i of Some j \<Rightarrow> if j \<noteq> nd_preferred s1 then prefer_node j s1 else s1 | None \<Rightarrow> s1))
        | Threw _ _ \<Rightarrow> try_nodes opts on_server net env (k + 1) rest again s1)"

definition is_custom :: "magi_fetch_options \<Rightarrow> bool" where
  "is_custom opts = (case mo_url opts of None \<Rightarrow> False | Some u \<Rightarrow> u \<notin> set MAGI_NODES)"

definition node_order :: "nat \<Rightarrow> (string \<times> nat option) list" where
  "node_order p = map (\<lambda>i. let j = (p + i) mod length MAGI_NODES in (MAGI_NODES ! j, Some j)) [0..<length MAGI_NODES]"

definition magiFetch :: "magi_fetch_options \<Rightarrow> bool \<Rightarrow> node_answers \<Rightarrow> interference \<Rightarrow> node_state
    \<Rightarrow> (int \<times> string) result \<times> node_state" where
  "magiFetch opts on_server net env s = (
     let custom = is_custom opts;
         order = (if custom then [(the (mo_url opts), None)] else node_order (nd_preferred s))
     in case try_nodes opts on_server net env 0 order [] s of
          ((Some r, tried), t) \<Rightarrow> (Inr r, t)
        | ((None, tried), t) \<Rightarrow>
            (throw (''MAGI node unreachable '' @ [CHR 0xE2, CHR 0x80, CHR 0x94] @ '' tried '' @ js_join ''; '' tried),
             if custom then t else prefer_node ((nd_preferred t + 1) mod length MAGI_NODES) t))"

section \<open>What failover guarantees\<close>

lemma nodes_3 [simp]: "length MAGI_NODES = 3" by (simp add: MAGI_NODES_def)

lemma order_3: "p < 3 \<Longrightarrow> node_order p = [(MAGI_NODES ! p, Some p),
    (MAGI_NODES ! ((p + 1) mod 3), Some ((p + 1) mod 3)), (MAGI_NODES ! ((p + 2) mod 3), Some ((p + 2) mod 3))]"
  by (simp add: node_order_def Let_def upt_rec)

definition node_ok :: "node_state \<Rightarrow> bool" where
  "node_ok s = (nd_preferred s < length MAGI_NODES)"

lemma prefer_ok [simp]: "nd_preferred (prefer_node i s) = i"
  by (simp add: prefer_node_def Let_def)

lemma try_nodes_ok:
  assumes "\<And>k s. node_ok s \<Longrightarrow> node_ok (env k s)" "\<And>u j. (u, Some j) \<in> set order \<Longrightarrow> j < 3"
  shows "node_ok s \<Longrightarrow> node_ok (snd (try_nodes opts srv net env k order tried s))"
  using assms(2)
proof (induction order arbitrary: k tried s)
  case Nil
  then show ?case by simp
next
  case (Cons x rest)
  obtain url i where x: "x = (url, i)" by (cases x)
  have ok: "node_ok (env k s)" using assms(1) Cons.prems by blast
  have IH: "node_ok (snd (try_nodes opts srv net env (k + 1) rest t (env k s)))" for t
    using Cons.IH [OF ok] Cons.prems(2) by auto
  have "i = Some j \<Longrightarrow> j < 3" for j using Cons.prems(2) x by auto
  then show ?case using IH ok unfolding x
    by (cases "net k url"; cases i) (auto simp: Let_def node_ok_def)
qed



lemma usable_reply: "usable out \<Longrightarrow> \<exists>st text. out = Reply st text"
  by (cases out) (auto simp: usable_def)

lemma try_skip:
  assumes "\<not> usable (net k url)" "rest \<noteq> []"
  shows "\<exists>t. try_nodes opts srv net (\<lambda>k s. s) k ((url, i) # rest) tried s = try_nodes opts srv net (\<lambda>k s. s) (k + 1) rest t s"
  using assms by (cases "net k url") (auto simp: Let_def)

lemma try_take:
  assumes "net k url = Reply st text" "usable (Reply st text)"
  shows "try_nodes opts srv net (\<lambda>k s. s) k ((url, Some j) # rest) tried s =
    ((Some (st, text), tried), if j \<noteq> nd_preferred s then prefer_node j s else s)"
  using assms by (simp add: Let_def)

lemma try_reaches:
  assumes "j < length order" "\<forall>i<j. \<not> usable (net (k + i) (fst (order ! i)))"
  shows "\<exists>t. try_nodes opts srv net (\<lambda>k s. s) k order tried s = try_nodes opts srv net (\<lambda>k s. s) (k + j) (drop j order) t s"
  using assms
proof (induction j arbitrary: k order tried)
  case 0
  then show ?case by auto
next
  case (Suc j)
  obtain url i rest where o: "order = (url, i) # rest" using Suc.prems by (cases order) auto
  have ne: "rest \<noteq> []" using Suc.prems o by auto
  have un: "\<not> usable (net k url)" using Suc.prems(2) o by force
  obtain t where t: "try_nodes opts srv net (\<lambda>k s. s) k order tried s = try_nodes opts srv net (\<lambda>k s. s) (k + 1) rest t s"
    using try_skip [of net k url rest, OF un ne] o by blast
  have "\<forall>i<j. \<not> usable (net (k + 1 + i) (fst (rest ! i)))" using Suc.prems(2) o by force
  then obtain u where "try_nodes opts srv net (\<lambda>k s. s) (k + 1) rest t s = try_nodes opts srv net (\<lambda>k s. s) (k + 1 + j) (drop j rest) u s"
    using Suc.IH [of rest "k + 1" t] Suc.prems o by auto
  then show ?case using t o by auto
qed

text \<open>C21. Failover finds a healthy node: if, going round the list from the
  remembered node, the k-th is the first to give a usable answer - not a
  gateway error, not a rate limit, not a block it has yet to fetch - that
  answer is returned, whatever the nodes before it did, and the node is
  remembered for the next call.\<close>

theorem failover_finds_node:
  assumes "\<not> is_custom opts" "node_ok s" "k < length MAGI_NODES"
    "\<And>j. addr j = MAGI_NODES ! ((nd_preferred s + j) mod length MAGI_NODES)"
    "usable (net k (addr k))" "\<forall>j<k. \<not> usable (net j (addr j))"
  shows "\<exists>st text t. net k (addr k) = Reply st text \<and> magiFetch opts srv net (\<lambda>k s. s) s = (Inr (st, text), t) \<and>
    nd_preferred t = (nd_preferred s + k) mod length MAGI_NODES"
proof -
  let ?order = "node_order (nd_preferred s)"
  have len: "length ?order = 3" by (simp add: node_order_def)
  have at: "?order ! j = (addr j, Some ((nd_preferred s + j) mod 3))" if "j < 3" for j
    using that assms(4) by (simp add: node_order_def Let_def)
  obtain st body where r: "net k (addr k) = Reply st body" using usable_reply [OF assms(5)] by blast
  have "\<forall>j<k. \<not> usable (net (0 + j) (fst (?order ! j)))" using assms(3,6) at by simp
  then obtain t where t: "try_nodes opts srv net (\<lambda>k s. s) 0 ?order [] s =
      try_nodes opts srv net (\<lambda>k s. s) (0 + k) (drop k ?order) t s"
    using try_reaches [of k ?order net 0 opts srv "[]" s] assms(3) len by auto
  have "drop k ?order = (addr k, Some ((nd_preferred s + k) mod 3)) # drop (Suc k) ?order"
    using at assms(3) len by (metis Cons_nth_drop_Suc nodes_3)
  then have "try_nodes opts srv net (\<lambda>k s. s) 0 ?order [] s = ((Some (st, body), t),
      if (nd_preferred s + k) mod 3 \<noteq> nd_preferred s then prefer_node ((nd_preferred s + k) mod 3) s else s)"
    using t try_take [of net k "addr k" st body] r assms(5) by simp
  then show ?thesis using r assms(1) by (auto simp: magiFetch_def Let_def)
qed

lemma failover_finds_node_witness:
  "\<exists>t. magiFetch \<lparr>mo_url = None, mo_timeoutMs = None, mo_failoverMs = None\<rparr> True
     (\<lambda>k u. if k = 0 then Threw (Some ''AbortError'') None else Reply 200 ''ok'') (\<lambda>k s. s)
     \<lparr>nd_preferred = 2, nd_remembered = None, nd_storage_works = False\<rparr> = (Inr (200, ''ok''), t) \<and> nd_preferred t = 0"
  using failover_finds_node [of "\<lparr>mo_url = None, mo_timeoutMs = None, mo_failoverMs = None\<rparr>"
      "\<lparr>nd_preferred = 2, nd_remembered = None, nd_storage_works = False\<rparr>" 1
      "\<lambda>j. MAGI_NODES ! ((2 + j) mod length MAGI_NODES)"
      "\<lambda>k u. if k = 0 then Threw (Some ''AbortError'') None else Reply 200 ''ok''" True]
  by (simp add: is_custom_def node_ok_def usable_def RATE_LIMITED_def STATE_NOT_READY_def js_lower_all_def to_lower_def)

text \<open>A configured node that is not on the list is the only one ever asked,
  once, and a call to it never moves the remembered node.\<close>

theorem custom_node_alone:
  assumes "is_custom opts" "net' 0 (the (mo_url opts)) = net 0 (the (mo_url opts))"
  shows "magiFetch opts srv net (\<lambda>k s. s) s = magiFetch opts srv net' (\<lambda>k s. s) s \<and>
    snd (magiFetch opts srv net (\<lambda>k s. s) s) = s"
  using assms by (cases "net 0 (the (mo_url opts))") (simp_all add: magiFetch_def Let_def)

lemma custom_node_alone_witness:
  "snd (magiFetch \<lparr>mo_url = Some ''http://localhost'', mo_timeoutMs = None, mo_failoverMs = None\<rparr> True
     (\<lambda>k u. Reply 500 []) (\<lambda>k s. s) \<lparr>nd_preferred = 2, nd_remembered = None, nd_storage_works = False\<rparr>)
   = \<lparr>nd_preferred = 2, nd_remembered = None, nd_storage_works = False\<rparr>"
  using custom_node_alone [of "\<lparr>mo_url = Some ''http://localhost'', mo_timeoutMs = None, mo_failoverMs = None\<rparr>"
      "\<lambda>k u. Reply 500 []" "\<lambda>k u. Reply 500 []"]
  by (simp add: is_custom_def MAGI_NODES_def)

end
