(* ===== verification/AccountHistory.thy ===== *)
theory AccountHistory
  imports MarketData
begin

text \<open>
  What the pages say of an account's past: when a settlement is due
  (settle.ts), which activity rows are shown (activity.ts), where a post ranks
  (feed-order.ts), the snapshot checker's rules (snapshot-check.ts), and the
  story of one mint or pool position (position-history.ts).  Fractions the
  source computes as Numbers for display are kept in whole units of their last
  shown digit, rounded as Math.round does.
\<close>

section \<open>Rows\<close>

datatype op_status = OpConfirmed | OpFailed | OpPending

record account_op =
  ao_id :: string
  ao_time :: string
  ao_action :: string
  ao_payload :: string
  ao_status :: op_status
  ao_ret :: "string option"
  ao_contract :: "string option"

record account_call =
  ac_txId :: string
  ac_height :: int
  ac_time :: string
  ac_action :: string
  ac_payload :: string
  ac_ok :: bool
  ac_ret :: string

section \<open>Settlement (settle.ts)\<close>

definition MIN_MINT_UNITS :: int where
  "MIN_MINT_UNITS = 100000000"

record settle_view =
  se_pending :: string
  se_pending_epoch :: "int option"
  se_pending_curation :: "int option"

definition settleIsDue :: "settle_view option \<Rightarrow> int \<Rightarrow> bool result" where
  "settleIsDue me epoch = (case me of None \<Rightarrow> Inr False | Some m \<Rightarrow>
     if epoch \<le> 0 then Inr False
     else if nullish (se_pending_curation m) 0 > 0 then Inr True
     else
       let anchored = nullish (se_pending_epoch m) 0 in
       if anchored \<le> 0 then Inr False
       else if epoch \<le> anchored then Inr False
       else rmap (\<lambda>u. u \<ge> MIN_MINT_UNITS) (toUnits (se_pending m)))"

text \<open>The UTC year and zero-based month of the moment are its arguments.\<close>

definition currentMonthEpoch :: "int \<Rightarrow> int \<Rightarrow> int" where
  "currentMonthEpoch utcFullYear utcMonth = utcFullYear * 12 + (utcMonth + 1)"

section \<open>Activity rows (activity.ts)\<close>

definition hideSpentAllowances :: "account_op list \<Rightarrow> account_op list" where
  "hideSpentAllowances ops = (
     let consumed = fold (\<lambda>x c. if ao_action x \<noteq> ''increaseAllowance'' \<and> ao_status x = OpConfirmed
           then insert (ao_id x) c else c) ops {}
     in filter (\<lambda>x. \<not> (ao_action x = ''increaseAllowance'' \<and> ao_status x = OpConfirmed \<and> ao_id x \<in> consumed)) ops)"

definition is_claim :: "account_op \<Rightarrow> bool" where
  "is_claim x = (ao_action x = ''claim_pool'' \<and> ao_status x = OpConfirmed)"

text \<open>'^claimed ([0-9]+)$'.\<close>

definition claimed_units :: "account_op \<Rightarrow> string option" where
  "claimed_units x = digits_between ''claimed '' [] (nullish (ao_ret x) [])"

definition group_step :: "account_op \<Rightarrow> account_op list \<times> (string \<times> account_op list) list
    \<Rightarrow> account_op list \<times> (string \<times> account_op list) list" where
  "group_step x st = (case st of (out, groups) \<Rightarrow>
     if \<not> is_claim x then (out @ [x], groups)
     else (case map_of groups (ao_id x) of
         Some g \<Rightarrow> (out, AList.update (ao_id x) (g @ [x]) groups)
       | None \<Rightarrow> (out @ [x], AList.update (ao_id x) [x] groups)))"

definition merge_claims :: "account_op list \<Rightarrow> account_op \<Rightarrow> account_op" where
  "merge_claims g x = (let paid = map claimed_units g in
     x\<lparr>ao_payload := js_join '','' (map ao_payload g),
       ao_ret := (if list_all (\<lambda>p. p \<noteq> None) paid
         then Some (''claimed '' @ show_int (foldl (\<lambda>a b. a + dec (the b)) 0 paid)) else None)\<rparr>)"

definition groupPoolClaims :: "account_op list \<Rightarrow> account_op list" where
  "groupPoolClaims ops = (case fold group_step ops ([], []) of (out, groups) \<Rightarrow>
     map (\<lambda>x. if is_claim x then
         (case map_of groups (ao_id x) of
            None \<Rightarrow> x
          | Some g \<Rightarrow> if length g < 2 then x else merge_claims g x)
       else x) out)"

section \<open>Feed order (feed-order.ts)\<close>

definition OLDER_AFTER_DAYS :: int where "OLDER_AFTER_DAYS = 14"
definition HEIGHTS_PER_DAY :: int where "HEIGHTS_PER_DAY = 28800"

definition trendingTier :: "bool \<Rightarrow> bool option \<Rightarrow> nat" where
  "trendingTier registered paidOut = (if paidOut = Some True then 2 else if registered then 0 else 1)"

definition isOlderPaidOut :: "(bool \<times> int) option \<Rightarrow> int \<Rightarrow> bool" where
  "isOlderPaidOut post height = (case post of None \<Rightarrow> False | Some (paid_out, payout_height) \<Rightarrow>
     if \<not> paid_out \<or> height \<le> 0 \<or> payout_height \<le> 0 then False
     else height \<ge> payout_height + OLDER_AFTER_DAYS * HEIGHTS_PER_DAY)"

section \<open>The snapshot checker (snapshot-check.ts)\<close>

record he_op =
  he_timestamp :: int
  he_operation :: string
  he_quantity :: string
  he_transactionId :: string
  he_from :: "string option"
  he_to :: "string option"

definition SELF_INITIATED :: "string list" where
  "SELF_INITIATED = [''tokens_unstakeStart'', ''tokens_undelegateStart'', ''tokens_cancelUnstake'',
     ''market_placeOrder'', ''market_cancel'',
     ''marketpools_swapTokens'', ''marketpools_addLiquidity'', ''marketpools_removeLiquidity'']"

definition AUTOMATIC :: "string list" where
  "AUTOMATIC = [''tokens_unstakeDone'', ''tokens_undelegateDone'']"

definition selfSigned :: "he_op \<Rightarrow> string \<Rightarrow> bool" where
  "selfSigned x account = (if he_operation x \<in> set AUTOMATIC then False
     else if he_operation x \<in> set SELF_INITIATED then True
     else (case he_from x of Some f \<Rightarrow> f = account | None \<Rightarrow> False))"

definition ALNUM :: string where
  "ALNUM = ''abcdefghijklmnopqrstuvwxyz0123456789''"

text \<open>The character at i, or the empty string past the end; every string
  includes the empty one, so a missing character adds nothing.\<close>

definition shard_char :: "string \<Rightarrow> string \<Rightarrow> nat \<Rightarrow> string" where
  "shard_char allowed name i = (let c = (if i < length name then [name ! i] else []) in
     if str_includes c allowed then c else ''_'')"

definition shardOf :: "string \<Rightarrow> string" where
  "shardOf name = shard_char ALNUM name 0 @ shard_char (ALNUM @ ''.-'') name 1"

text \<open>The same rule as the proof shards are written by (node/migtree/migtree.go).\<close>

definition migtree_Shard :: "string \<Rightarrow> string" where
  "migtree_Shard name = foldl (\<lambda>out i. if i < length name \<and> name ! i \<in> set (if i = 1 then ALNUM @ ''.-'' else ALNUM)
     then out[i := name ! i] else out) ''__'' [0, 1]"

definition cleanName :: "string \<Rightarrow> string" where
  "cleanName s = dropWhile (\<lambda>c. c = CHR ''@'') (map to_lower (js_trim s))"

section \<open>Position stories (position-history.ts)\<close>

definition MIN_YEAR_DAYS :: int where "MIN_YEAR_DAYS = 7"

definition parseClaimed :: "string \<Rightarrow> int option" where
  "parseClaimed ret = map_option (\<lambda>(d, r). dec d) (digits_prefix ''claimed '' ret)"

definition liquidity_after :: "string \<Rightarrow> string \<Rightarrow> (int \<times> int) option" where
  "liquidity_after verb ret = (case digits_prefix (verb @ '' '') ret of None \<Rightarrow> None
     | Some (a, r) \<Rightarrow>
        (let second = (case digits_prefix '' LASSECASH and '' r of Some x \<Rightarrow> Some x | None \<Rightarrow> digits_prefix '' LC and '' r)
         in case second of None \<Rightarrow> None
            | Some (b, r2) \<Rightarrow> if starts_with '' HBD'' r2 then Some (dec a, dec b) else None))"

definition parseLiquidity :: "string \<Rightarrow> (int \<times> int) option" where
  "parseLiquidity ret = (case liquidity_after ''added'' ret of Some x \<Rightarrow> Some x | None \<Rightarrow> liquidity_after ''withdrew'' ret)"

definition reservesAt :: "pool_trade list \<Rightarrow> int \<Rightarrow> (string \<times> string) option" where
  "reservesAt trades height = map_option (\<lambda>b. (pt_lcReserve b, pt_hbdReserve b))
     (fold (\<lambda>t best. if pt_height t \<le> height \<and> (case best of None \<Rightarrow> True | Some b \<Rightarrow> pt_height t \<ge> pt_height b)
        then Some t else best) trades None)"

text \<open>'Number(s || 0)' of a state field: decimal digits, or NaN (None).\<close>

definition field_number :: "string \<Rightarrow> int option" where
  "field_number s = (if s = [] then Some 0 else if all_digits s then Some (dec s) else None)"

definition field_big :: "string \<Rightarrow> int result" where
  "field_big s = big_int (if s = [] then ''0'' else s)"

text \<open>'Math.round(a / b)' for a positive b: to the nearest, halves up.\<close>

definition round_div :: "int \<Rightarrow> int \<Rightarrow> int" where
  "round_div a b = (2 * a + b) div (2 * b)"

datatype mint_origin = Migration | Capital | Earnings

record mint_story =
  mst_id :: int
  mst_origin :: mint_origin
  mst_principal :: string
  mst_shares :: string
  mst_days :: "int option"
  mst_startHeight :: "int option"
  mst_startTxId :: "string option"
  mst_startTime :: "string option"
  mst_ended :: bool
  mst_claimTxId :: "string option"
  mst_claimHeight :: "int option"
  mst_claimTime :: "string option"
  mst_paidOut :: "string option"
  mst_gain :: "string option"
  mst_gainPct_e4 :: "int option"
  mst_annualisedPct_e2 :: "int option"
  mst_annualisedGain :: "string option"
  mst_heldDays_e1 :: "int option"
  mst_endedEarly :: bool

definition first_field :: "string \<Rightarrow> string" where
  "first_field s = hd (split_on (CHR ''|'') s)"

definition mint_claim :: "int \<Rightarrow> account_call list \<Rightarrow> account_call option" where
  "mint_claim i calls = List.find (\<lambda>c. ac_ok c \<and> ac_action c = ''claim_mint''
     \<and> first_field (ac_payload c) = show_int i \<and> parseClaimed (ac_ret c) \<noteq> None) calls"

definition mint_origin_of :: "int option \<Rightarrow> int \<Rightarrow> account_call list \<Rightarrow> mint_origin" where
  "mint_origin_of startHeight genesisHeight calls = (if startHeight = Some genesisHeight then Migration
     else if list_ex (\<lambda>c. ac_ok c \<and> ac_action c = ''mint'' \<and> Some (ac_height c) = startHeight) calls then Capital
     else Earnings)"

definition mintStory :: "int \<Rightarrow> string \<Rightarrow> account_call list \<Rightarrow> int \<Rightarrow> mint_story option result" where
  "mintStory i recd calls genesisHeight = (let f = split_on (CHR ''|'') recd in
     if length f < 6 then Inr None else
     rbind (field_big (f ! 0)) (\<lambda>principal.
     let startHeight = field_number (f ! 2); days = field_number (f ! 3);
         origin = mint_origin_of startHeight genesisHeight calls;
         start = (if origin = Migration then List.find (\<lambda>c. ac_ok c \<and> ac_action c = ''claim_migration'') calls
           else List.find (\<lambda>c. ac_ok c \<and> Some (ac_height c) = startHeight \<and> (origin = Capital \<longrightarrow> ac_action c = ''mint'')) calls);
         claim = mint_claim i calls;
         paid = Option.bind claim (\<lambda>c. parseClaimed (ac_ret c));
         gain = map_option (\<lambda>p. p - principal) paid
     in case (claim, startHeight) of
       (Some c, None) \<Rightarrow> throw ''The number NaN cannot be converted to a BigInt''
     | _ \<Rightarrow>
       let held = (case (claim, startHeight) of (Some c, Some sh) \<Rightarrow> Some (ac_height c - sh) | _ \<Rightarrow> None);
           gainPct = (case gain of Some g \<Rightarrow> if principal > 0 then Some (bdiv (g * 1000000) principal) else None | None \<Rightarrow> None);
           longEnough = (case held of Some h \<Rightarrow> h \<ge> MIN_YEAR_DAYS * HEIGHTS_PER_DAY | None \<Rightarrow> False);
           annualisedPct = (case (gainPct, held) of (Some g, Some h) \<Rightarrow>
               if longEnough then Some (round_div (g * 365 * HEIGHTS_PER_DAY) (100 * h)) else None | _ \<Rightarrow> None);
           annualisedGain = (case (gain, held) of (Some g, Some h) \<Rightarrow>
               if longEnough then Some (fromUnits (bdiv (g * (365 * HEIGHTS_PER_DAY)) h)) else None | _ \<Rightarrow> None)
       in rmap (\<lambda>shares. Some \<lparr>mst_id = i, mst_origin = origin, mst_principal = fromUnits principal,
            mst_shares = fromUnits shares, mst_days = days, mst_startHeight = startHeight,
            mst_startTxId = map_option ac_txId start, mst_startTime = map_option ac_time start,
            mst_ended = (f ! 5 = ''1''),
            mst_claimTxId = map_option ac_txId claim, mst_claimHeight = map_option ac_height claim,
            mst_claimTime = map_option ac_time claim,
            mst_paidOut = map_option fromUnits paid, mst_gain = map_option fromUnits gain,
            mst_gainPct_e4 = gainPct, mst_annualisedPct_e2 = annualisedPct, mst_annualisedGain = annualisedGain,
            mst_heldDays_e1 = map_option (\<lambda>h. round_div (10 * h) HEIGHTS_PER_DAY) held,
            mst_endedEarly = (case (claim, startHeight, days) of
                (Some c, Some sh, Some d) \<Rightarrow> ac_height c < sh + d * HEIGHTS_PER_DAY | _ \<Rightarrow> False)\<rparr>)
          (field_big (f ! 1))))"

record reward_claim =
  rwc_txId :: string
  rwc_height :: int
  rwc_time :: string
  rwc_amount :: string

record tranche_story =
  trs_id :: int
  trs_depositTxId :: "string option"
  trs_depositHeight :: "int option"
  trs_depositTime :: "string option"
  trs_depositLc :: "string option"
  trs_depositHbd :: "string option"
  trs_claims :: "reward_claim list"
  trs_claimedTotal :: string
  trs_withdrawTxId :: "string option"
  trs_withdrawHeight :: "int option"
  trs_withdrawTime :: "string option"
  trs_withdrawLc :: "string option"
  trs_withdrawHbd :: "string option"

definition pool_claim :: "int \<Rightarrow> account_call \<Rightarrow> reward_claim option" where
  "pool_claim i c = (if ac_ok c \<and> ac_action c = ''claim_pool'' \<and> first_field (ac_payload c) = show_int i
     then map_option (\<lambda>v. \<lparr>rwc_txId = ac_txId c, rwc_height = ac_height c, rwc_time = ac_time c, rwc_amount = fromUnits v\<rparr>)
            (parseClaimed (ac_ret c))
     else None)"

definition trancheStory :: "int \<Rightarrow> account_call list \<Rightarrow> tranche_story result" where
  "trancheStory i calls = (
     let byAge = sort_key ac_height calls;
         deposits = filter (\<lambda>c. ac_ok c \<and> ac_action c = ''add_liquidity'') byAge;
         dep = (if 1 \<le> i \<and> nat (i - 1) < length deposits then Some (deposits ! nat (i - 1)) else None);
         depAmt = Option.bind dep (\<lambda>c. parseLiquidity (ac_ret c));
         claims = List.map_filter (pool_claim i) byAge;
         w = List.find (\<lambda>c. ac_ok c \<and> ac_action c = ''remove_liquidity'' \<and> first_field (ac_payload c) = show_int i) byAge;
         wAmt = Option.bind w (\<lambda>c. parseLiquidity (ac_ret c))
     in rmap (\<lambda>total.
       \<lparr>trs_id = i, trs_depositTxId = map_option ac_txId dep, trs_depositHeight = map_option ac_height dep,
        trs_depositTime = map_option ac_time dep,
        trs_depositLc = map_option (\<lambda>(l, h). fromUnits l) depAmt, trs_depositHbd = map_option (\<lambda>(l, h). fromUnits h) depAmt,
        trs_claims = claims, trs_claimedTotal = fromUnits total,
        trs_withdrawTxId = map_option ac_txId w, trs_withdrawHeight = map_option ac_height w,
        trs_withdrawTime = map_option ac_time w,
        trs_withdrawLc = map_option (\<lambda>(l, h). fromUnits l) wAmt, trs_withdrawHbd = map_option (\<lambda>(l, h). fromUnits h) wAmt\<rparr>)
     (foldl (\<lambda>acc c. rbind acc (\<lambda>t. rmap (\<lambda>u. t + u) (toUnits (rwc_amount c)))) (Inr 0) claims))"

section \<open>Claims grouped by transaction\<close>

definition claims_in :: "account_op list \<Rightarrow> string \<Rightarrow> account_op list" where
  "claims_in ops i = filter (\<lambda>c. is_claim c \<and> ao_id c = i) ops"

text \<open>Every row that is not a claim, and the first claim of each transaction.\<close>

fun shown_rows :: "string set \<Rightarrow> account_op list \<Rightarrow> account_op list" where
  "shown_rows seen [] = []"
| "shown_rows seen (x # xs) = (if is_claim x \<and> ao_id x \<in> seen then shown_rows seen xs
     else x # shown_rows (if is_claim x then insert (ao_id x) seen else seen) xs)"

lemma shown_rows_snoc: "shown_rows seen (xs @ [x]) = shown_rows seen xs
    @ (if is_claim x \<and> (ao_id x \<in> seen \<or> claims_in xs (ao_id x) \<noteq> []) then [] else [x])"
  by (induction xs arbitrary: seen) (auto simp: claims_in_def filter_empty_conv)

lemma claims_in_snoc: "claims_in (xs @ [x]) i = claims_in xs i @ (if is_claim x \<and> ao_id x = i then [x] else [])"
  by (simp add: claims_in_def)

lemma group_step_eq: "group_step x (out, groups) = (if \<not> is_claim x then (out @ [x], groups)
     else (case map_of groups (ao_id x) of
         Some g \<Rightarrow> (out, AList.update (ao_id x) (g @ [x]) groups)
       | None \<Rightarrow> (out @ [x], AList.update (ao_id x) [x] groups)))"
  by (simp add: group_step_def)

lemma group_fold:
  "\<exists>groups. fold group_step ops ([], []) = (shown_rows {} ops, groups) \<and>
     (\<forall>i. map_of groups i = (if claims_in ops i = [] then None else Some (claims_in ops i)))"
proof (induction ops rule: rev_induct)
  case Nil
  show ?case by (simp add: claims_in_def)
next
  case (snoc x ops)
  then obtain groups where g: "fold group_step ops ([], []) = (shown_rows {} ops, groups)"
    "\<And>i. map_of groups i = (if claims_in ops i = [] then None else Some (claims_in ops i))" by blast
  show ?case
    by (cases "is_claim x"; cases "claims_in ops (ao_id x) = []")
      (auto simp: g group_step_eq shown_rows_snoc claims_in_snoc)
qed

text \<open>Grouping a claim-all keeps every row that is not a confirmed pool
  claim and the first claim of each transaction, in their order, and merges
  into that row exactly the claims of its own transaction: their payloads, and
  their total when every one reported a figure.\<close>

theorem groupPoolClaims_spec:
  "groupPoolClaims ops = map (\<lambda>x. if is_claim x \<and> 2 \<le> length (claims_in ops (ao_id x))
       then merge_claims (claims_in ops (ao_id x)) x else x) (shown_rows {} ops)"
proof -
  obtain groups where g: "fold group_step ops ([], []) = (shown_rows {} ops, groups)"
    "\<And>i. map_of groups i = (if claims_in ops i = [] then None else Some (claims_in ops i))"
    using group_fold by blast
  show ?thesis by (auto simp: groupPoolClaims_def g)
qed

section \<open>Shards\<close>

lemma str_includes_char: "str_includes [c] s \<longleftrightarrow> c \<in> set s"
  by (induction s) (auto simp: starts_with_def)

lemma str_includes_empty: "str_includes [] s"
  by (cases s) simp_all

text \<open>The checker looks a name up in the shard the proofs are written to
  exactly when the name has at least two characters; for a shorter one the
  written shard is padded and the looked-up one is not.\<close>

theorem shardOf_migtree: "shardOf name = migtree_Shard name \<longleftrightarrow> 2 \<le> length name"
proof -
  consider "name = []" | c where "name = [c]" | c d t where "name = c # d # t"
    by (metis neq_Nil_conv)
  then show ?thesis
    by cases (auto simp: shardOf_def migtree_Shard_def shard_char_def str_includes_char str_includes_empty)
qed

section \<open>Stories\<close>

text \<open>A mint's settled figures come from the chain and add up: what was paid
  out is the figure of a successful claim of this mint by its owner, and the
  gain shown is exactly that less the principal.\<close>

theorem mintStory_settled:
  assumes "mintStory i recd calls genesis = Inr (Some st)" "mst_paidOut st = Some paid"
  shows "\<exists>c p u. c \<in> set calls \<and> ac_ok c \<and> ac_action c = ''claim_mint'' \<and> first_field (ac_payload c) = show_int i \<and>
    mst_claimTxId st = Some (ac_txId c) \<and> parseClaimed (ac_ret c) = Some u \<and> paid = fromUnits u \<and>
    toUnits (mst_principal st) = Inr p \<and> mst_gain st = Some (fromUnits (u - p))"
proof -
  define claim where "claim = mint_claim i calls"
  obtain p where p: "mst_principal st = fromUnits p" "mst_paidOut st = map_option fromUnits (Option.bind claim (\<lambda>c. parseClaimed (ac_ret c)))"
    "mst_gain st = map_option fromUnits (map_option (\<lambda>u. u - p) (Option.bind claim (\<lambda>c. parseClaimed (ac_ret c))))"
    "mst_claimTxId st = map_option ac_txId claim"
    using assms(1) by (fastforce simp: mintStory_def Let_def rbind_Inr_iff rmap_Inr_iff claim_def split: if_splits option.splits)
  obtain c u where c: "claim = Some c" "parseClaimed (ac_ret c) = Some u" "paid = fromUnits u"
    using assms(2) p(2) by (auto simp: bind_eq_Some_conv)
  have "c \<in> set calls \<and> ac_ok c \<and> ac_action c = ''claim_mint'' \<and> first_field (ac_payload c) = show_int i"
    using c(1) by (auto simp: claim_def mint_claim_def find_Some_iff)
  then show ?thesis using p c by (auto simp: toUnits_render)
qed

definition witness_claim :: account_call where
  "witness_claim = \<lparr>ac_txId = ''t'', ac_height = 40, ac_time = [], ac_action = ''claim_mint'', ac_payload = ''3'',
     ac_ok = True, ac_ret = ''claimed 150 liquid''\<rparr>"

lemma mintStory_settled_witness:
  "\<exists>st. mintStory 3 ''100|5|10|30|0|1'' [witness_claim] 1 = Inr (Some st) \<and> mst_paidOut st = Some (fromUnits 150) \<and>
     mst_gain st = Some (fromUnits 50)"
proof -
  have c: "mint_claim 3 [witness_claim] = Some witness_claim" "parseClaimed (ac_ret witness_claim) = Some 150"
    by (simp_all add: mint_claim_def witness_claim_def first_field_def parseClaimed_def digits_prefix_def dec_def js_eval)
  obtain st where st: "mintStory 3 ''100|5|10|30|0|1'' [witness_claim] 1 = Inr (Some st)" "mst_paidOut st = Some (fromUnits 150)"
    "mst_principal st = fromUnits 100"
    by (simp add: mintStory_def c field_big_def field_number_def big_int_def js_eval to_lower_def dec_def Let_def)
  then show ?thesis using mintStory_settled [OF st(1,2)] c
    by (auto simp: toUnits_render dest!: arg_cong [where f = toUnits])
qed

lemma claims_fold:
  "(\<And>c. c \<in> set cs \<Longrightarrow> toUnits (rwc_amount c) = Inr (f c)) \<Longrightarrow>
   foldl (\<lambda>acc c. rbind acc (\<lambda>t. rmap (\<lambda>u. t + u) (toUnits (rwc_amount c)))) (Inr z) cs = Inr (z + sum_list (map f cs))"
  by (induction cs arbitrary: z) (simp_all add: add.assoc)

definition claim_units :: "int \<Rightarrow> account_call \<Rightarrow> int option" where
  "claim_units i c = (if ac_ok c \<and> ac_action c = ''claim_pool'' \<and> first_field (ac_payload c) = show_int i
     then parseClaimed (ac_ret c) else None)"

text \<open>The story of a pool position is always told, and its total is exactly
  the sum of what the chain reported for the successful claims of this position.\<close>

theorem trancheStory_total:
  "\<exists>st. trancheStory i calls = Inr st \<and>
     trs_claimedTotal st = fromUnits (sum_list (List.map_filter (claim_units i) (sort_key ac_height calls))) \<and>
     length (trs_claims st) = length (List.map_filter (claim_units i) calls)"
proof -
  let ?cs = "List.map_filter (pool_claim i) (sort_key ac_height calls)"
  define val :: "reward_claim \<Rightarrow> int" where "val = (\<lambda>c. case toUnits (rwc_amount c) of Inr u \<Rightarrow> u | Inl _ \<Rightarrow> 0)"
  have rel: "pool_claim i c = map_option (\<lambda>v. \<lparr>rwc_txId = ac_txId c, rwc_height = ac_height c, rwc_time = ac_time c,
      rwc_amount = fromUnits v\<rparr>) (claim_units i c)" for c
    by (simp add: pool_claim_def claim_units_def)
  have sums: "map val (List.map_filter (pool_claim i) xs) = List.map_filter (claim_units i) xs" for xs
    by (induction xs) (auto simp: map_filter_simps rel val_def toUnits_render split: option.splits)
  have "toUnits (rwc_amount c) = Inr (val c)" if "c \<in> set ?cs" for c
    using that by (auto simp: map_filter_def rel val_def toUnits_render)
  then have fold: "foldl (\<lambda>acc c. rbind acc (\<lambda>t. rmap (\<lambda>u. t + u) (toUnits (rwc_amount c)))) (Inr 0) ?cs
      = Inr (0 + sum_list (map val ?cs))" by (rule claims_fold)
  have len: "length (List.map_filter (pool_claim i) xs) = length (List.map_filter (claim_units i) xs)" for xs
    using arg_cong [OF sums, of length xs] by simp
  have "length (List.map_filter (claim_units i) (sort_key ac_height calls)) = length (List.map_filter (claim_units i) calls)"
    by (simp add: map_filter_def filter_sort)
  then show ?thesis using fold by (simp add: trancheStory_def Let_def sums len)
qed

end
