(* ===== verification/JsRegex.thy ===== *)
theory JsRegex
  imports JsPrelude
begin

text \<open>
  Regular expressions as JavaScript matches them: by backtracking, trying
  alternatives in order and repetitions greedily.  The rests of an expression on
  a string are what each way of matching a prefix leaves over, in the order the
  engine tries them; an iteration that consumes nothing ends a repetition.
\<close>

datatype re = REps | RChr "char \<Rightarrow> bool" | RAlt re re | RSeq re re | RStar re

function rests :: "re \<Rightarrow> string \<Rightarrow> string list" where
  "rests REps s = [s]"
| "rests (RChr P) s = (case s of [] \<Rightarrow> [] | c # t \<Rightarrow> if P c then [t] else [])"
| "rests (RAlt a b) s = rests a s @ rests b s"
| "rests (RSeq a b) s = concat (map (rests b) (filter (\<lambda>t. length t \<le> length s) (rests a s)))"
| "rests (RStar a) s = concat (map (rests (RStar a)) (filter (\<lambda>t. length t < length s) (rests a s))) @ [s]"
  by pat_completeness auto
termination by (relation "inv_image (less_than <*lex*> less_than) (\<lambda>(r, s). (length s, size r))")
    (auto simp: le_less)

declare rests.simps(5) [simp del]

definition RPlus :: "re \<Rightarrow> re" where "RPlus a = RSeq a (RStar a)"
definition ROpt :: "re \<Rightarrow> re" where "ROpt a = RAlt a REps"

fun RSeqs :: "re list \<Rightarrow> re" where
  "RSeqs [] = REps"
| "RSeqs [a] = a"
| "RSeqs (a # b # bs) = RSeq a (RSeqs (b # bs))"

definition RLit :: "string \<Rightarrow> re" where
  "RLit s = RSeqs (map (\<lambda>c. RChr (\<lambda>d. d = c)) s)"

text \<open>The i flag.\<close>

definition RLitI :: "string \<Rightarrow> re" where
  "RLitI s = RSeqs (map (\<lambda>c. RChr (\<lambda>d. to_lower d = to_lower c)) s)"

definition is_word :: "char \<Rightarrow> bool" where
  "is_word c = (is_digit c \<or> c = CHR ''_'' \<or> (let n = (of_char c :: nat) in (65 \<le> n \<and> n \<le> 90) \<or> (97 \<le> n \<and> n \<le> 122)))"

definition not_space :: "char \<Rightarrow> bool" where
  "not_space c = (\<not> is_space c)"

text \<open>A match of the whole string, of a prefix, and the end of a line.\<close>

definition re_full :: "re \<Rightarrow> string \<Rightarrow> bool" where
  "re_full r s = ([] \<in> set (rests r s))"

definition re_prefix :: "re \<Rightarrow> string \<Rightarrow> bool" where
  "re_prefix r s = (rests r s \<noteq> [])"

definition at_eol :: "string \<Rightarrow> bool" where
  "at_eol s = (s = [] \<or> hd s = CHR 0x0A \<or> hd s = CHR 0x0D)"

text \<open>The capture of a group between what precedes and what follows it, on the
  first way of matching the three in a row.\<close>

definition re_capture :: "re \<Rightarrow> re \<Rightarrow> (string \<Rightarrow> bool) \<Rightarrow> string \<Rightarrow> string option" where
  "re_capture pre grp follows s = (case
     concat (map (\<lambda>t. map (\<lambda>u. take (length t - length u) t) (filter follows (rests grp t))) (rests pre s)) of
     [] \<Rightarrow> None | g # _ \<Rightarrow> Some g)"

lemma rests_suffix: "t \<in> set (rests r s) \<Longrightarrow> \<exists>u. s = u @ t"
proof (induction r s arbitrary: t rule: rests.induct)
  case (2 P s)
  then show ?case by (auto split: list.splits if_splits)
next
  case (4 a b s)
  then obtain v where v: "v \<in> set (rests a s)" "length v \<le> length s" "t \<in> set (rests b v)" by auto
  obtain u where "s = u @ v" using "4.IH"(1) v by blast
  moreover obtain w where "v = w @ t" using "4.IH"(2) v by auto
  ultimately show ?case by auto
next
  case (5 a s)
  then consider "t = s" | v where "v \<in> set (rests a s)" "length v < length s" "t \<in> set (rests (RStar a) v)"
    by (auto simp: rests.simps(5) [of a s])
  then show ?case
  proof cases
    case 2
    obtain u where "s = u @ v" using "5.IH"(1) 2 by blast
    moreover obtain w where "v = w @ t" using "5.IH"(2) 2 by auto
    ultimately show ?thesis by auto
  qed simp
qed auto

end
