(* ===== verification/HiveContent.thy ===== *)
theory HiveContent
  imports Json JsRegex JsDate
begin

text \<open>
  What LasseCash writes to Hive about a post, and reads back: the metadata of
  posts, replies and edits (api/src/hive-metadata.ts), and the pure content
  helpers of api/src/magi-backend.ts - the permlink of a title, the cover
  image of a body, the metadata of a row, and the tip-bot rule.
\<close>

section \<open>Metadata (hive-metadata.ts)\<close>

definition APP_ID :: string where
  "APP_ID = ''lassecash/2.0''"

record post_metadata_input =
  pmi_author :: string
  pmi_permlink :: string
  pmi_tags :: "string list"
  pmi_summary :: "string option"
  pmi_image :: "string option"
  pmi_siteUrl :: string

record post_metadata =
  pmd_app :: string
  pmd_format :: string
  pmd_tags :: "string list"
  pmd_description :: string
  pmd_canonical_url :: string
  pmd_image :: "string list option"

definition strip_slashes :: "string \<Rightarrow> string" where
  "strip_slashes s = rev (dropWhile (\<lambda>c. c = CHR ''/'') (rev s))"

definition strip_prefix :: "string \<Rightarrow> string \<Rightarrow> string" where
  "strip_prefix p s = (if starts_with p s then drop (length p) s else s)"

definition bare_author :: "string \<Rightarrow> string" where
  "bare_author a = strip_prefix ''@'' (strip_prefix ''hive:'' a)"

definition postMetadata :: "post_metadata_input \<Rightarrow> post_metadata" where
  "postMetadata i = (let origin = strip_slashes (pmi_siteUrl i); author = bare_author (pmi_author i) in
     \<lparr>pmd_app = APP_ID, pmd_format = ''markdown'', pmd_tags = pmi_tags i,
      pmd_description = nullish (pmi_summary i) [],
      pmd_canonical_url = origin @ ''/@'' @ author @ ''/'' @ pmi_permlink i,
      pmd_image = (case pmi_image i of Some u \<Rightarrow> if u \<noteq> [] then Some [u] else None | None \<Rightarrow> None)\<rparr>)"

text \<open>'[^a-z0-9-]' becomes a dash, then runs of dashes one dash.\<close>

definition slug_char :: "char \<Rightarrow> bool" where
  "slug_char c = (is_digit c \<or> c = CHR ''-'' \<or> (97 \<le> (of_char c :: nat) \<and> (of_char c :: nat) \<le> 122))"

fun squeeze_dashes :: "string \<Rightarrow> string" where
  "squeeze_dashes (a # b # s) = (if a = CHR ''-'' \<and> b = CHR ''-'' then squeeze_dashes (b # s) else a # squeeze_dashes (b # s))"
| "squeeze_dashes s = s"

definition slugify :: "string \<Rightarrow> string" where
  "slugify s = squeeze_dashes (map (\<lambda>c. if slug_char (to_lower c) then to_lower c else CHR ''-'') s)"

text \<open>The stamp is the digits of 'new Date(now).toISOString()'.\<close>

definition commentPermlink :: "string \<Rightarrow> string \<Rightarrow> string \<Rightarrow> string" where
  "commentPermlink parentAuthor parentPermlink stamp = (let parent = bare_author parentAuthor;
       slug = slugify (''re-'' @ parent @ ''-'' @ parentPermlink @ ''-'' @ stamp)
     in if length slug \<le> 255 then slug
        else dropWhile (\<lambda>c. c = CHR ''-'') (drop (length slug - 255) slug))"

definition commentMetadata :: "post_metadata_input \<Rightarrow> string \<Rightarrow> string \<Rightarrow> post_metadata" where
  "commentMetadata i parentAuthor parentPermlink = (let origin = strip_slashes (pmi_siteUrl i);
       parent = bare_author parentAuthor in
     \<lparr>pmd_app = APP_ID, pmd_format = ''markdown'', pmd_tags = pmi_tags i,
      pmd_description = nullish (pmi_summary i) [],
      pmd_canonical_url = origin @ ''/@'' @ parent @ ''/'' @ parentPermlink @ ''#@'' @ bare_author (pmi_author i)
        @ ''/'' @ pmi_permlink i,
      pmd_image = None\<rparr>)"

text \<open>What JavaScript takes for false: undefined, null, false, zero, the empty
  string.\<close>

definition falsy :: "json option \<Rightarrow> bool" where
  "falsy v = (v \<in> {None, Some JNull, Some (JBool False), Some (JNum 0), Some (JStr [])})"

definition edit_ours :: "(string \<times> json) list \<Rightarrow> bool" where
  "edit_ours m = (case map_of m ''app'' of Some (JStr a) \<Rightarrow> starts_with ''lassecash/'' a | _ \<Rightarrow> False)"

definition editMetadata :: "(string \<times> json) list option \<Rightarrow> post_metadata_input \<Rightarrow> (string \<times> json) list" where
  "editMetadata base i = (let ours = postMetadata i;
       m0 = nullish base [];
       m1 = AList.update ''tags'' (JArr (map JStr (pmd_tags ours))) m0;
       m2 = AList.update ''description'' (JStr (pmd_description ours)) m1;
       m3 = (case pmd_image ours of Some im \<Rightarrow> AList.update ''image'' (JArr (map JStr im)) m2
             | None \<Rightarrow> AList.delete ''image'' m2);
       m4 = (if falsy (map_of m3 ''format'') then AList.update ''format'' (JStr (pmd_format ours)) m3 else m3)
     in if edit_ours m4 then
          (let m5 = AList.update ''app'' (JStr (pmd_app ours)) m4 in
           if falsy (map_of m5 ''canonical_url'') then AList.update ''canonical_url'' (JStr (pmd_canonical_url ours)) m5 else m5)
        else m4)"

section \<open>Permlinks and covers (magi-backend.ts)\<close>

definition alnum_lower :: "char \<Rightarrow> bool" where
  "alnum_lower c = (is_digit c \<or> (97 \<le> (of_char c :: nat) \<and> (of_char c :: nat) \<le> 122))"

definition permlink_step :: "char \<Rightarrow> string \<times> bool \<Rightarrow> string \<times> bool" where
  "permlink_step ch st = (case st of (out, lastDash) \<Rightarrow>
     if alnum_lower ch then (out @ [ch], False)
     else if ch = CHR '' '' \<or> ch = CHR ''-'' \<or> ch = CHR ''_'' then
       (if \<not> lastDash then (out @ ''-'', True) else (out, lastDash))
     else (out, lastDash))"

definition trim_dashes :: "string \<Rightarrow> string" where
  "trim_dashes s = rev (dropWhile (\<lambda>c. c = CHR ''-'') (rev (dropWhile (\<lambda>c. c = CHR ''-'') s)))"

definition permlinkFor :: "string \<Rightarrow> string" where
  "permlinkFor title = (let out = trim_dashes (fst (fold permlink_step (map to_lower title) ([], True))) in
     if length out > 80 then trim_dashes (take 80 out) else out)"

definition ascii_punct :: "char \<Rightarrow> bool" where
  "ascii_punct c = (let n = (of_char c :: nat) in (33 \<le> n \<and> n \<le> 47) \<or> (58 \<le> n \<and> n \<le> 64) \<or> (91 \<le> n \<and> n \<le> 96) \<or> (123 \<le> n \<and> n \<le> 126))"

fun md_unescape :: "string \<Rightarrow> string" where
  "md_unescape (a # b # s) = (if a = CHR 0x5C \<and> ascii_punct b then b # md_unescape s else a # md_unescape (b # s))"
| "md_unescape s = s"

fun suffixes_of :: "string \<Rightarrow> string list" where
  "suffixes_of [] = [[]]"
| "suffixes_of (c # s) = (c # s) # suffixes_of s"

definition first_some :: "('a \<Rightarrow> 'b option) \<Rightarrow> 'a list \<Rightarrow> 'b option" where
  "first_some f xs = (case List.map_filter f xs of [] \<Rightarrow> None | b # _ \<Rightarrow> Some b)"

definition md_image_pre :: re where
  "md_image_pre = RSeqs [RLit ''!['', RStar (RChr (\<lambda>c. c \<noteq> CHR '']'')), RLit ''](''] "

definition md_image_dest :: re where
  "md_image_dest = RPlus (RAlt (RSeq (RChr (\<lambda>c. c = CHR 0x5C)) (RChr (\<lambda>c. c \<noteq> CHR 0x0A \<and> c \<noteq> CHR 0x0D)))
     (RChr (\<lambda>c. c \<noteq> CHR '')'' \<and> not_space c)))"

definition bare_image :: re where
  "bare_image = RSeqs [RLitI ''http'', ROpt (RLitI ''s''), RLit ''://'', RPlus (RChr not_space), RLit ''.'',
     RAlt (RLitI ''png'') (RAlt (RSeqs [RLitI ''jp'', ROpt (RLitI ''e''), RLitI ''g'']) (RAlt (RLitI ''gif'') (RLitI ''webp'')))]"

text \<open>The line starts of a body: its beginning and what follows a line break.\<close>

fun line_starts :: "bool \<Rightarrow> string \<Rightarrow> string list" where
  "line_starts start [] = (if start then [[]] else [])"
| "line_starts start (c # s) = (if start then [c # s] else []) @ line_starts (c = CHR 0x0A \<or> c = CHR 0x0D) s"

definition firstImage :: "string \<Rightarrow> string option" where
  "firstImage body = (case first_some (re_capture md_image_pre md_image_dest (\<lambda>t. starts_with '')'' t)) (suffixes_of body) of
     Some d \<Rightarrow> Some (md_unescape d)
   | None \<Rightarrow> map_option md_unescape
       (first_some (re_capture REps bare_image (\<lambda>t. list_ex at_eol (rests (RStar (RChr is_space)) t))) (line_starts True body)))"

definition slice_tags :: "json \<Rightarrow> json list option" where
  "slice_tags j = map_option (take 21) (jarr j)"

text \<open>'description' and 'tags' of metadata that is text or already parsed.  A
  parse error is caught; reading a field of a parsed null is not.\<close>

definition hiveMeta :: "json option \<Rightarrow> (string \<times> json list option) result" where
  "hiveMeta j = (let meta = (case j of
       Some (JStr s) \<Rightarrow> json_parse (if s = [] then ''{}'' else s)
     | Some (JObj kvs) \<Rightarrow> Inr (JObj kvs)
     | _ \<Rightarrow> Inr (JObj []))
     in case meta of
       Inl _ \<Rightarrow> Inr ([], None)
     | Inr m \<Rightarrow> if m = JNull then throw ''Cannot read properties of null''
         else Inr (nullish (Option.bind (jfield ''description'' m) jstr) [], Option.bind (jfield ''tags'' m) slice_tags))"

section \<open>Tip-bot replies\<close>

definition bot_command_line :: re where
  "bot_command_line = RPlus (RSeqs [RLit ''!'', RPlus (RChr is_word),
     ROpt (RSeq (RPlus (RChr is_space)) (RPlus (RChr not_space))), RStar (RChr is_space)])"

definition posted_using :: "string \<Rightarrow> bool" where
  "posted_using l = (starts_with ''posted using'' (map to_lower l) \<and>
     (length l = 12 \<or> \<not> is_word (l ! 12)))"

definition bare_media_line :: "string \<Rightarrow> bool" where
  "bare_media_line l = (re_full (RSeqs [RLit ''!['', RStar (RChr (\<lambda>c. c \<noteq> CHR '']'')), RLit ''](''
       , RStar (RChr (\<lambda>c. c \<noteq> CHR '')'')), RLit '')'']) l
     \<or> re_full (RSeqs [RLit ''http'', ROpt (RLit ''s''), RLit ''://'', RPlus (RChr not_space)]) l)"

fun bot_lines :: "nat \<Rightarrow> string list \<Rightarrow> bool" where
  "bot_lines commands [] = (commands > 0)"
| "bot_lines commands (l # ls) =
     (if re_full bot_command_line l then bot_lines (commands + 1) ls
      else if posted_using l then bot_lines commands ls
      else if bare_media_line l then bot_lines commands ls
      else False)"

definition isBotCommandsOnly :: "string option \<Rightarrow> bool" where
  "isBotCommandsOnly body = (case body of None \<Rightarrow> False | Some s \<Rightarrow>
     if s = [] then False
     else bot_lines 0 (filter (\<lambda>l. l \<noteq> []) (map js_trim (split_on (CHR 0x0A) s))))"

section \<open>An edit keeps what it does not own\<close>

lemma map_of_delete [simp]: "map_of (AList.delete k m) = (map_of m)(k := None)"
  by (rule delete_conv')

definition edited_keys :: "string set" where
  "edited_keys = {''tags'', ''description'', ''image'', ''format'', ''app'', ''canonical_url''}"

text \<open>C28. An edit made here cannot cost another app its post: every field of its
  metadata that the form does not edit is kept; the app and the canonical URL
  of a post that does not already carry our app are kept as they are, absent
  ones included; on our own posts the app is refreshed and a canonical URL that
  is already there is kept.\<close>

theorem edit_preserves_claims:
  fixes base :: "(string \<times> json) list option" and i :: post_metadata_input
  defines "b \<equiv> map_of (nullish base [])" and "m \<equiv> map_of (editMetadata base i)"
  shows "(\<forall>k. k \<notin> edited_keys \<longrightarrow> m k = b k) \<and>
    (\<not> edit_ours (nullish base []) \<longrightarrow> m ''app'' = b ''app'' \<and> m ''canonical_url'' = b ''canonical_url'') \<and>
    (edit_ours (nullish base []) \<longrightarrow> m ''app'' = Some (JStr APP_ID) \<and>
       (\<not> falsy (b ''canonical_url'') \<longrightarrow> m ''canonical_url'' = b ''canonical_url'')) \<and>
    (\<not> falsy (b ''format'') \<longrightarrow> m ''format'' = b ''format'') \<and>
    m ''tags'' = Some (JArr (map JStr (pmi_tags i)))"
proof -
  define m0 where "m0 = nullish base []"
  define ours where "ours = postMetadata i"
  define m3 where "m3 = (case pmd_image ours of
      Some im \<Rightarrow> AList.update ''image'' (JArr (map JStr im)) (AList.update ''description'' (JStr (pmd_description ours)) (AList.update ''tags'' (JArr (map JStr (pmd_tags ours))) m0))
    | None \<Rightarrow> AList.delete ''image'' (AList.update ''description'' (JStr (pmd_description ours)) (AList.update ''tags'' (JArr (map JStr (pmd_tags ours))) m0)))"
  define m4 where "m4 = (if falsy (map_of m3 ''format'') then AList.update ''format'' (JStr (pmd_format ours)) m3 else m3)"
  define m6 where "m6 = (let m5 = AList.update ''app'' (JStr (pmd_app ours)) m4 in
           if falsy (map_of m5 ''canonical_url'') then AList.update ''canonical_url'' (JStr (pmd_canonical_url ours)) m5 else m5)"
  have m: "m = map_of (if edit_ours m4 then m6 else m4)"
    unfolding m_def editMetadata_def Let_def m0_def ours_def m3_def m4_def m6_def by (rule refl)
  have 3: "map_of m3 k = b k" if "k \<notin> {''tags'', ''description'', ''image''}" for k
    using that by (simp add: m3_def b_def m0_def update_conv' split: option.split)
  have 4: "map_of m4 k = b k" if "k \<notin> {''tags'', ''description'', ''image'', ''format''}" for k
    using that 3 by (simp add: m4_def update_conv')
  have f: "map_of m4 ''format'' = b ''format''" if "\<not> falsy (b ''format'')"
    using that 3 [of "''format''"] by (simp add: m4_def)
  have t: "map_of m4 ''tags'' = Some (JArr (map JStr (pmi_tags i)))"
    by (simp add: m4_def m3_def update_conv' ours_def postMetadata_def split: option.split)
  have o: "edit_ours m4 = edit_ours (nullish base [])"
    using 4 [of "''app''"] by (simp add: edit_ours_def b_def)
  have 6: "map_of m6 k = map_of m4 k" if "k \<notin> {''app'', ''canonical_url''}" for k
    using that by (simp add: m6_def Let_def update_conv')
  have a: "map_of m6 ''app'' = Some (JStr APP_ID)" by (simp add: m6_def Let_def update_conv' ours_def postMetadata_def)
  have c: "map_of m6 ''canonical_url'' = b ''canonical_url''" if "\<not> falsy (b ''canonical_url'')"
    using that 4 [of "''canonical_url''"] by (simp add: m6_def Let_def update_conv')
  show ?thesis
  proof (cases "edit_ours m4")
    case True
    then show ?thesis using m o 4 6 a c f t by (simp add: edited_keys_def)
  next
    case False
    then show ?thesis using m o 4 f t by (simp add: edited_keys_def)
  qed
qed

lemma edit_preserves_claims_witness:
  "map_of (editMetadata (Some [(''app'', JStr ''actifit/0.4''), (''steps'', JNum 9000)])
     \<lparr>pmi_author = ''a'', pmi_permlink = ''p'', pmi_tags = [], pmi_summary = None, pmi_image = None, pmi_siteUrl = []\<rparr>) ''steps''
   = Some (JNum 9000) \<and>
   map_of (editMetadata (Some [(''app'', JStr ''actifit/0.4''), (''steps'', JNum 9000)])
     \<lparr>pmi_author = ''a'', pmi_permlink = ''p'', pmi_tags = [], pmi_summary = None, pmi_image = None, pmi_siteUrl = []\<rparr>) ''app''
   = Some (JStr ''actifit/0.4'')"
  using edit_preserves_claims [of "Some [(''app'', JStr ''actifit/0.4''), (''steps'', JNum 9000)]"
      "\<lparr>pmi_author = ''a'', pmi_permlink = ''p'', pmi_tags = [], pmi_summary = None, pmi_image = None, pmi_siteUrl = []\<rparr>"]
  by (simp add: edited_keys_def edit_ours_def)

text \<open>Metadata text that is the JSON null is not handled as malformed: reading
  its fields throws, although a text that does not parse at all is taken as
  empty.\<close>

theorem hiveMeta_null_throws:
  "\<not> is_ok (hiveMeta (Some (JStr ''null''))) \<and> hiveMeta (Some (JStr ''{'')) = Inr ([], None)"
proof -
  have "json_parse (stringify JNull) = Inr JNull" by (rule json_roundtrip) simp
  then have "json_parse ''null'' = Inr JNull" by simp
  moreover have "json_parse ''{'' = throw ''Unexpected token''" by code_simp
  ultimately show ?thesis by (simp add: hiveMeta_def throw_def)
qed

section \<open>Permlinks\<close>

text \<open>Lower-case letters, digits and single dashes, none at the ends.\<close>

fun dashes_single :: "bool \<Rightarrow> string \<Rightarrow> bool" where
  "dashes_single ld [] = True"
| "dashes_single ld (c # s) = (if alnum_lower c then dashes_single False s else c = CHR ''-'' \<and> \<not> ld \<and> dashes_single True s)"

definition slug_ok :: "string \<Rightarrow> bool" where
  "slug_ok s = (dashes_single True s \<and> (s = [] \<or> last s \<noteq> CHR ''-''))"

lemma alnum_not_dash [simp]: "\<not> alnum_lower (CHR ''-'')"
  by (simp add: alnum_lower_def)

lemma alnum_neq_dash [simp]: "alnum_lower c \<Longrightarrow> (c = CHR ''-'') = False"
  by auto

lemma permlink_step_eq: "permlink_step ch (out, ld) = (if alnum_lower ch then (out @ [ch], False)
     else if (ch = CHR '' '' \<or> ch = CHR ''-'' \<or> ch = CHR ''_'') \<and> \<not> ld then (out @ ''-'', True) else (out, ld))"
  by (auto simp: permlink_step_def)

lemma alnum_lower_fix: "alnum_lower c \<or> c = CHR ''-'' \<Longrightarrow> to_lower c = c"
  by (auto simp: alnum_lower_def to_lower_def is_digit_def)

lemma dashes_append:
  "dashes_single ld (s @ t) \<longleftrightarrow> dashes_single ld s \<and>
     dashes_single (if s = [] then ld else last s = CHR ''-'') t"
  by (induction s arbitrary: ld) (auto split: if_splits)

lemma permlink_fold_ok:
  "dashes_single True (fst (fold permlink_step cs ([], True))) \<and>
   snd (fold permlink_step cs ([], True)) = (fst (fold permlink_step cs ([], True)) = [] \<or> last (fst (fold permlink_step cs ([], True))) = CHR ''-'')"
proof (induction cs rule: rev_induct)
  case Nil
  show ?case by simp
next
  case (snoc c cs)
  obtain out ld where f: "fold permlink_step cs ([], True) = (out, ld)" by fastforce
  show ?case using snoc by (auto simp: f permlink_step_eq dashes_append)
qed

lemma permlink_fold_id:
  "dashes_single ld s \<Longrightarrow> fst (fold permlink_step s (out, ld)) = out @ s"
proof (induction s arbitrary: out ld)
  case Nil
  then show ?case by simp
next
  case (Cons c s)
  show ?case
  proof (cases "alnum_lower c")
    case True
    then show ?thesis using Cons by (simp add: permlink_step_eq)
  next
    case False
    then have "c = CHR ''-''" "\<not> ld" "dashes_single True s" using Cons.prems by auto
    then show ?thesis using Cons.IH [of True "out @ ''-''"] by (simp add: permlink_step_eq)
  qed
qed

lemma trim_slug:
  assumes "dashes_single True s"
  shows "slug_ok (trim_dashes s) \<and> (slug_ok s \<longrightarrow> trim_dashes s = s) \<and> length (trim_dashes s) \<le> length s"
proof -
  have lead: "dropWhile (\<lambda>c. c = CHR ''-'') s = s"
  proof (cases s)
    case (Cons c t)
    have "\<not> dashes_single True (CHR ''-'' # t)" by simp
    then have "c \<noteq> CHR ''-''" using assms Cons by blast
    then show ?thesis using Cons by simp
  qed simp
  show ?thesis
  proof (cases s rule: rev_cases)
    case Nil
    then show ?thesis by (simp add: trim_dashes_def slug_ok_def)
  next
    case (snoc r c)
    show ?thesis
    proof (cases "c = CHR ''-''")
      case False
      then have "trim_dashes s = s" using snoc lead by (simp add: trim_dashes_def)
      then show ?thesis using assms snoc False by (simp add: slug_ok_def)
    next
      case True
      have r: "dashes_single True r" "r = [] \<or> last r \<noteq> CHR ''-''" "r \<noteq> []"
        using assms snoc True by (auto simp: dashes_append split: if_splits)
      then have "dropWhile (\<lambda>c. c = CHR ''-'') (rev r) = rev r" by (cases r rule: rev_cases) auto
      then have "trim_dashes s = r" using snoc True lead by (simp add: trim_dashes_def)
      then show ?thesis using r snoc True by (auto simp: slug_ok_def)
    qed
  qed
qed

lemma slug_take: "dashes_single True s \<Longrightarrow> dashes_single True (take n s)"
  by (metis append_take_drop_id dashes_append)

lemma slug_chars: "dashes_single ld s \<Longrightarrow> c \<in> set s \<Longrightarrow> alnum_lower c \<or> c = CHR ''-''"
  by (induction s arbitrary: ld) (auto split: if_splits)

lemma permlinkFor_ok: "slug_ok (permlinkFor t) \<and> length (permlinkFor t) \<le> 80"
proof -
  define out where "out = trim_dashes (fst (fold permlink_step (map to_lower t) ([], True)))"
  have o: "slug_ok out" using trim_slug permlink_fold_ok by (simp add: out_def)
  then have "dashes_single True (take 80 out)" by (simp add: slug_ok_def slug_take)
  from trim_slug [OF this] show ?thesis using o by (auto simp: permlinkFor_def out_def [symmetric] Let_def)
qed

text \<open>The permlink of a title is made of lower-case letters, digits and single
  dashes, starts and ends with neither, holds at most 80 characters, and is its
  own permlink: deriving it again gives the same key.\<close>

theorem permlinkFor_canonical:
  "slug_ok (permlinkFor t) \<and> length (permlinkFor t) \<le> 80 \<and> permlinkFor (permlinkFor t) = permlinkFor t"
proof -
  define s where "s = permlinkFor t"
  have s: "slug_ok s" "length s \<le> 80" using permlinkFor_ok by (simp_all add: s_def)
  then have d: "dashes_single True s" by (simp add: slug_ok_def)
  have "map to_lower s = s" using slug_chars [OF d] by (intro map_idI alnum_lower_fix) blast
  then have "permlinkFor s = s"
    using permlink_fold_id [OF d, of "[]"] trim_slug [OF d] s by (simp add: permlinkFor_def Let_def)
  then show ?thesis using s by (simp add: s_def)
qed

section \<open>Reply permlinks\<close>

lemma squeeze_nodash:
  "CHR ''-'' \<notin> set t \<Longrightarrow> squeeze_dashes (a @ t) = squeeze_dashes a @ t"
proof (induction a rule: squeeze_dashes.induct)
  case (1 a b s)
  then show ?case by simp
next
  case "2_1"
  then show ?case
  proof (induction t)
    case (Cons c t)
    then show ?case by (cases t) auto
  qed simp
next
  case "2_2"
  have id: "squeeze_dashes t = t" using "2_2"
  proof (induction t)
    case (Cons c t)
    then show ?case by (cases t) auto
  qed simp
  show ?case using "2_2" id by (cases t) auto
qed

lemma squeeze_set: "set (squeeze_dashes s) \<subseteq> set s"
  by (induction s rule: squeeze_dashes.induct) auto

lemma slugify_stamp:
  assumes "all_digits stamp"
  shows "slugify (s @ stamp) = slugify s @ stamp"
proof -
  have "to_lower c = c \<and> slug_char c" if "c \<in> set stamp" for c
    using that assms by (auto simp: all_digits_def list_all_iff slug_char_def)
  then have "map (\<lambda>c. if slug_char (to_lower c) then to_lower c else CHR ''-'') stamp = stamp"
    by (intro map_idI) simp
  moreover have "CHR ''-'' \<notin> set stamp" using assms by (auto simp: all_digits_def list_all_iff is_digit_def)
  ultimately show ?thesis by (simp add: slugify_def squeeze_nodash)
qed

lemma comment_permlink_suffix:
  assumes "all_digits stamp" "length stamp \<le> 255"
  shows "\<exists>p. commentPermlink parentAuthor parentPermlink stamp = p @ stamp"
proof -
  define a where "a = slugify (''re-'' @ bare_author parentAuthor @ ''-'' @ parentPermlink @ ''-'')"
  have sl: "slugify (''re-'' @ bare_author parentAuthor @ ''-'' @ parentPermlink @ ''-'' @ stamp) = a @ stamp"
    using slugify_stamp [OF assms(1), of "''re-'' @ bare_author parentAuthor @ ''-'' @ parentPermlink @ ''-''"]
    by (simp add: a_def)
  have "drop (length (a @ stamp) - 255) (a @ stamp) = drop (length (a @ stamp) - 255) a @ stamp"
    using assms(2) by simp
  moreover have "dropWhile (\<lambda>c. c = CHR ''-'') (b @ stamp) = dropWhile (\<lambda>c. c = CHR ''-'') b @ stamp" for b
  proof -
    have "dropWhile (\<lambda>c. c = CHR ''-'') stamp = stamp"
      using assms(1) by (cases stamp) (auto simp: all_digits_def is_digit_def)
    then show ?thesis by (induction b) auto
  qed
  ultimately show ?thesis unfolding commentPermlink_def Let_def sl by auto
qed

text \<open>A reply's permlink fits Hive - at most 255 characters, all of them lower
  case letters, digits or dashes - and ends in the whole time stamp even when
  the parent's name had to be cut, so replies made at different times never
  get the same key.\<close>

theorem commentPermlink_unique:
  assumes "all_digits s1" "all_digits s2" "length s1 = length s2" "length s1 \<le> 255"
  shows "length (commentPermlink a p s1) \<le> 255 \<and> list_all slug_char (commentPermlink a p s1) \<and>
    (commentPermlink a p s1 = commentPermlink b q s2 \<longrightarrow> s1 = s2)"
proof (intro conjI impI)
  have "list_all slug_char (slugify s)" for s
  proof -
    have "slug_char (CHR ''-'')" by (simp add: slug_char_def)
    then show ?thesis using squeeze_set by (fastforce simp: slugify_def list_all_iff)
  qed
  then show "list_all slug_char (commentPermlink a p s1)"
    by (auto simp: commentPermlink_def Let_def list_all_iff dest!: set_dropWhileD in_set_dropD)
  show "length (commentPermlink a p s1) \<le> 255"
    by (auto simp: commentPermlink_def Let_def intro: order_trans [OF length_dropWhile_le])
  assume eq: "commentPermlink a p s1 = commentPermlink b q s2"
  obtain x y where "commentPermlink a p s1 = x @ s1" "commentPermlink b q s2 = y @ s2"
    using comment_permlink_suffix assms by metis
  then show "s1 = s2" using eq assms(3) by (metis append_eq_append_conv)
qed

lemma commentPermlink_unique_witness:
  "commentPermlink ''hive:alice'' ''post'' ''20260901120000000'' \<noteq> commentPermlink ''bob'' ''post'' ''20260901120000001''"
  using commentPermlink_unique [of "''20260901120000000''" "''20260901120000001''" "''hive:alice''" "''post''" "''bob''" "''post''"]
  by (simp add: js_eval)

section \<open>Tip-bot replies are only that\<close>

lemma bot_lines_iff:
  "bot_lines n ls \<longleftrightarrow> (\<forall>l \<in> set ls. re_full bot_command_line l \<or> posted_using l \<or> bare_media_line l)
     \<and> (0 < n \<or> (\<exists>l \<in> set ls. re_full bot_command_line l))"
  by (induction n ls rule: bot_lines.induct) auto

text \<open>A reply is hidden as a tip-bot command exactly when one of its lines is
  a command and no line says anything else: every other line is empty, a
  command, a posted-using footer, or a bare image or link.\<close>

theorem bot_only_iff:
  "isBotCommandsOnly (Some s) \<longleftrightarrow>
     (\<exists>l \<in> set (map js_trim (split_on (CHR 0x0A) s)). l \<noteq> [] \<and> re_full bot_command_line l) \<and>
     (\<forall>l \<in> set (map js_trim (split_on (CHR 0x0A) s)). l = [] \<or> re_full bot_command_line l \<or> posted_using l \<or> bare_media_line l)"
  by (auto simp: isBotCommandsOnly_def bot_lines_iff js_trim_def)

lemma bot_only_iff_witness: "isBotCommandsOnly (Some (''!PIZZA'' @ [CHR 0x0A] @ ''!LUV 1''))"
  unfolding bot_only_iff by code_simp

end
