(* ===== verification/GrowLoop.thy ===== *)
theory GrowLoop
  imports Main
begin

text \<open>
  The fixpoint loop the source writes twice ('for (let grew = true; grew; )'):
  pass over a list again and again, adding the key of every element whose
  condition holds of the set so far, until a pass adds nothing.  The set is
  updated during the pass.  The locale states what makes the result the least
  closed set: the condition never becomes false as the set grows.
\<close>

definition grow_step :: "('a \<Rightarrow> 'k) \<Rightarrow> ('k set \<Rightarrow> 'a \<Rightarrow> bool) \<Rightarrow> 'a \<Rightarrow> 'k set \<times> bool \<Rightarrow> 'k set \<times> bool" where
  "grow_step key en x st = (case st of (V, grew) \<Rightarrow>
     if key x \<in> V then (V, grew) else if en V x then (insert (key x) V, True) else (V, grew))"

definition grow_pass :: "('a \<Rightarrow> 'k) \<Rightarrow> ('k set \<Rightarrow> 'a \<Rightarrow> bool) \<Rightarrow> 'a list \<Rightarrow> 'k set \<Rightarrow> 'k set \<times> bool" where
  "grow_pass key en xs V = fold (grow_step key en) xs (V, False)"

lemma grow_step_eq:
  "grow_step key en x (V, g) = (if key x \<in> V \<or> \<not> en V x then (V, g) else (insert (key x) V, True))"
  by (simp add: grow_step_def)

lemma fold_grow:
  "fold (grow_step key en) xs (V, g) = (W, g') \<Longrightarrow>
   V \<subseteq> W \<and> W \<subseteq> V \<union> key ` set xs \<and> (g \<longrightarrow> g') \<and> (g' \<longrightarrow> g \<or> V \<noteq> W) \<and> (\<not> g' \<longrightarrow> W = V)"
proof (induction xs arbitrary: V g)
  case Nil
  then show ?case by auto
next
  case (Cons x xs)
  show ?case
  proof (cases "key x \<in> V \<or> \<not> en V x")
    case True
    then have "fold (grow_step key en) xs (V, g) = (W, g')" using Cons.prems by (simp add: grow_step_eq)
    from Cons.IH [OF this] show ?thesis by auto
  next
    case False
    then have "fold (grow_step key en) xs (insert (key x) V, True) = (W, g')" using Cons.prems by (simp add: grow_step_eq)
    from Cons.IH [OF this] show ?thesis using False by auto
  qed
qed

lemma grow_decreases:
  assumes "fold (grow_step key en) xs (V, False) = (W, True)"
  shows "card (key ` set xs - W) < card (key ` set xs - V)"
proof (rule psubset_card_mono)
  show "key ` set xs - W \<subset> key ` set xs - V" using fold_grow [OF assms] by blast
qed simp

function grow_loop :: "('a \<Rightarrow> 'k) \<Rightarrow> ('k set \<Rightarrow> 'a \<Rightarrow> bool) \<Rightarrow> 'a list \<Rightarrow> 'k set \<Rightarrow> 'k set" where
  "grow_loop key en xs V = (case grow_pass key en xs V of (W, grew) \<Rightarrow>
     if grew then grow_loop key en xs W else W)"
  by pat_completeness auto
termination
  by (relation "measure (\<lambda>(key, en, xs, V). card (key ` set xs - V))")
    (auto simp: grow_pass_def intro!: grow_decreases)

declare grow_loop.simps [simp del]

definition closed_under :: "('a \<Rightarrow> 'k) \<Rightarrow> ('k set \<Rightarrow> 'a \<Rightarrow> bool) \<Rightarrow> 'a list \<Rightarrow> 'k set \<Rightarrow> bool" where
  "closed_under key en xs W = (\<forall>x \<in> set xs. en W x \<longrightarrow> key x \<in> W)"

lemma grow_loop_induct:
  assumes "\<And>V W. P V \<Longrightarrow> fold (grow_step key en) xs (V, False) = (W, True) \<Longrightarrow> P W" "P V"
  shows "P (grow_loop key en xs V) \<and> fold (grow_step key en) xs (grow_loop key en xs V, False) = (grow_loop key en xs V, False)"
  using assms(2)
proof (induction "card (key ` set xs - V)" arbitrary: V rule: less_induct)
  case less
  obtain W g where f: "fold (grow_step key en) xs (V, False) = (W, g)" by fastforce
  note fg = fold_grow [OF f]
  show ?case
  proof (cases g)
    case True
    then have lt: "card (key ` set xs - W) < card (key ` set xs - V)" using f by (intro grow_decreases) simp
    have "grow_loop key en xs V = grow_loop key en xs W"
      using f True by (subst grow_loop.simps) (simp add: grow_pass_def)
    then show ?thesis using less.hyps [OF lt assms(1) [OF less.prems]] f True by simp
  next
    case False
    then have "grow_loop key en xs V = V" using f fg by (subst grow_loop.simps) (simp add: grow_pass_def)
    then show ?thesis using f False fg less.prems by simp
  qed
qed

lemma grow_loop_base: "V \<subseteq> grow_loop key en xs V"
  using grow_loop_induct [of "\<lambda>W. V \<subseteq> W" key en xs V] fold_grow by (metis (no_types, lifting) order_refl order_trans)

lemma grow_loop_bound: "grow_loop key en xs V \<subseteq> V \<union> key ` set xs"
proof -
  have "W' \<subseteq> V \<union> key ` set xs"
    if "W \<subseteq> V \<union> key ` set xs" "fold (grow_step key en) xs (W, False) = (W', True)" for W W'
    using that fold_grow [OF that(2)] by blast
  then show ?thesis using grow_loop_induct [of "\<lambda>W. W \<subseteq> V \<union> key ` set xs" key en xs V] by blast
qed

lemma no_growth: "fold (grow_step key en) xs (V, False) = (V, False) \<Longrightarrow> x \<in> set xs \<Longrightarrow> en V x \<Longrightarrow> key x \<in> V"
proof (induction xs)
  case Nil
  then show ?case by simp
next
  case (Cons y ys)
  show ?case
  proof (cases "key y \<in> V \<or> \<not> en V y")
    case True
    then have "fold (grow_step key en) ys (V, False) = (V, False)" using Cons.prems by (simp add: grow_step_eq)
    then show ?thesis using Cons True by auto
  next
    case False
    then have "fold (grow_step key en) ys (insert (key y) V, True) = (V, False)" using Cons.prems by (simp add: grow_step_eq)
    from fold_grow [OF this] show ?thesis by simp
  qed
qed

lemma grow_loop_closed: "closed_under key en xs (grow_loop key en xs V)"
  using grow_loop_induct [of "\<lambda>_. True" key en xs V] no_growth by (auto simp: closed_under_def)

section \<open>The least closed set\<close>

locale grow_rule =
  fixes key :: "'a \<Rightarrow> 'k"
    and en :: "'k set \<Rightarrow> 'a \<Rightarrow> bool"
    and xs :: "'a list"
  assumes mono: "V \<subseteq> W \<Longrightarrow> en V x \<Longrightarrow> en W x"
begin

lemma fold_within:
  "V \<subseteq> W \<Longrightarrow> closed_under key en xs W \<Longrightarrow> set ys \<subseteq> set xs \<Longrightarrow>
   fold (grow_step key en) ys (V, g) = (V', g') \<Longrightarrow> V' \<subseteq> W"
proof (induction ys arbitrary: V g)
  case Nil
  then show ?case by simp
next
  case (Cons y ys)
  have "key y \<in> W" if "en V y"
    using that mono [OF Cons.prems(1)] Cons.prems(2,3) by (auto simp: closed_under_def)
  then have ins: "en V y \<Longrightarrow> insert (key y) V \<subseteq> W" using Cons.prems(1) by blast
  have sub: "set ys \<subseteq> set xs" using Cons.prems(3) by simp
  show ?case
  proof (cases "key y \<in> V \<or> \<not> en V y")
    case True
    then have "fold (grow_step key en) ys (V, g) = (V', g')" using Cons.prems(4) by (simp add: grow_step_eq)
    then show ?thesis using Cons.IH [OF Cons.prems(1,2) sub] by blast
  next
    case False
    then have "fold (grow_step key en) ys (insert (key y) V, True) = (V', g')" using Cons.prems(4) by (simp add: grow_step_eq)
    then show ?thesis using Cons.IH [OF ins Cons.prems(2) sub] False by blast
  qed
qed

lemma least: "V \<subseteq> W \<Longrightarrow> closed_under key en xs W \<Longrightarrow> grow_loop key en xs V \<subseteq> W"
  using grow_loop_induct [of "\<lambda>U. U \<subseteq> W" key en xs V] fold_within by blast

lemma grow_loop_iff:
  assumes "V \<subseteq> W" "closed_under key en xs W" "\<And>U. V \<subseteq> U \<Longrightarrow> closed_under key en xs U \<Longrightarrow> W \<subseteq> U"
  shows "grow_loop key en xs V = W"
  using least [OF assms(1,2)] assms(3) [OF grow_loop_base grow_loop_closed] by blast

end

end
