(* ===== verification/Discovery.thy ===== *)
theory Discovery
  imports HiveContent AccountHistory GrowLoop
begin

text \<open>
  The pure halves of the reads of 'magi-backend.ts': which result of an output
  belongs to which operation, which posts and comments the contract's history
  names, which of Hive's tagged posts join the feed, which comments hang below
  a post and which Hive replies are shown.
\<close>

section \<open>Small conversions\<close>

text \<open>A bare Hive name as the chain addresses it.\<close>

definition qualified_name :: "string \<Rightarrow> string" where
  "qualified_name author = (let a = strip_prefix ''@'' author in
     if CHR '':'' \<in> set a then a else ''hive:'' @ a)"

text \<open>Hive's zoneless timestamps read as UTC; anything unreadable is the epoch.
  A missing timestamp is the empty string, both being falsy.\<close>

definition isoUtc :: "string \<Rightarrow> string" where
  "isoUtc created = (if created = [] then toISOString 0
     else case date_parse (if last created = CHR ''Z'' then created else created @ ''Z'') of
       None \<Rightarrow> toISOString 0 | Some t \<Rightarrow> toISOString t)"

text \<open>A raw base-unit string, or a missing key, as a decimal amount.\<close>

definition or_zero :: "string option \<Rightarrow> string" where
  "or_zero raw = (case raw of Some s \<Rightarrow> if s = [] then ''0'' else s | None \<Rightarrow> ''0'')"

definition units :: "string option \<Rightarrow> string result" where
  "units raw = rmap (\<lambda>v. (if v < 0 then ''-'' else []) @ show_int (\<bar>v\<bar> div 100000000) @ ''.'' @
     pad_start 8 (CHR ''0'') (show_int (\<bar>v\<bar> mod 100000000))) (big_int (or_zero raw))"

text \<open>'Number(raw || 0)': None is NaN.  State values are integers.\<close>

definition num :: "string option \<Rightarrow> int option" where
  "num raw = (case big_int (or_zero raw) of Inl _ \<Rightarrow> None | Inr v \<Rightarrow> Some v)"

section \<open>Results of operations\<close>

record op_result =
  or_ok :: bool
  or_ret :: string

text \<open>One contract output: the operations it covers and their results.\<close>

record contract_output =
  co_inputs :: "string list"
  co_results :: "op_result list"

text \<open>'-<digits>' at the end of an operation's name.\<close>

definition op_suffix :: "string \<Rightarrow> (string \<times> string) option" where
  "op_suffix s = (let d = rev (takeWhile is_digit (rev s)); p = rev (dropWhile is_digit (rev s)) in
     if d \<noteq> [] \<and> p \<noteq> [] \<and> last p = CHR ''-'' then Some (butlast p, d) else None)"

definition bare_tx :: "string \<Rightarrow> string" where
  "bare_tx s = (case op_suffix s of Some (p, _) \<Rightarrow> p | None \<Rightarrow> s)"

definition line_end :: "char \<Rightarrow> bool" where
  "line_end c = (c = CHR 0x0A \<or> c = CHR 0x0D)"

definition op_of_input :: "string \<Rightarrow> string \<times> nat" where
  "op_of_input s = (case op_suffix s of
     Some (p, d) \<Rightarrow> if list_ex line_end p then (s, 0) else (p, dec_val d)
   | None \<Rightarrow> (s, 0))"

record tx_results =
  tx_byOp :: "(nat \<times> op_result) list"
  tx_byCall :: "op_result list"

type_synonym result_map = "(string \<times> tx_results) list"

definition tx_slot :: "result_map \<Rightarrow> string \<Rightarrow> tx_results" where
  "tx_slot m tx = nullish (map_of m tx) \<lparr> tx_byOp = [], tx_byCall = [] \<rparr>"

definition put_op :: "string \<times> op_result \<Rightarrow> result_map \<Rightarrow> result_map" where
  "put_op e m = (case op_of_input (fst e) of (tx, k) \<Rightarrow>
     let s = tx_slot m tx in AList.update tx (s\<lparr>tx_byOp := AList.update k (snd e) (tx_byOp s)\<rparr>) m)"

definition put_calls :: "string \<Rightarrow> op_result list \<Rightarrow> result_map \<Rightarrow> result_map" where
  "put_calls tx rs m = AList.update tx ((tx_slot m tx)\<lparr>tx_byCall := rs\<rparr>) m"

fun put_sliced :: "(string \<Rightarrow> nat option) \<Rightarrow> string list \<Rightarrow> op_result list \<Rightarrow> result_map \<Rightarrow> result_map" where
  "put_sliced cc [] rs m = m"
| "put_sliced cc (tx # ins) rs m = (let n = nullish (cc tx) 0 in
     put_sliced cc ins (drop n rs) (put_calls tx (take n rs) m))"

definition names_ops :: "contract_output \<Rightarrow> bool" where
  "names_ops out = (let ins = co_inputs out in
     ins \<noteq> [] \<and> length ins = length (co_results out) \<and>
     (list_ex (\<lambda>i. op_suffix i \<noteq> None) ins \<or> length ins = 1 \<or> length (dedupe (map bare_tx ins)) = 1))"

definition read_output :: "(string \<Rightarrow> nat option) \<Rightarrow> contract_output \<Rightarrow> result_map \<Rightarrow> result_map" where
  "read_output cc out m = (let ins = co_inputs out; rs = co_results out in
     if names_ops out then fold put_op (zip ins rs) m
     else if length ins = 1 then put_calls (hd ins) rs m
     else if list_all (\<lambda>i. cc i \<noteq> None) ins then put_sliced cc ins rs m
     else m)"

definition resultsByOp :: "contract_output list \<Rightarrow> (string \<Rightarrow> nat option) \<Rightarrow> result_map" where
  "resultsByOp outs cc = fold (read_output cc) outs []"

definition resultFor :: "result_map \<Rightarrow> string \<Rightarrow> nat \<Rightarrow> nat \<Rightarrow> op_result option" where
  "resultFor m txId opIndex callIndex = (case map_of m txId of
     None \<Rightarrow> None
   | Some e \<Rightarrow> (case map_of (tx_byOp e) opIndex of
       Some r \<Rightarrow> Some r
     | None \<Rightarrow> if callIndex < length (tx_byCall e) then Some (tx_byCall e ! callIndex) else None))"

section \<open>Discovered posts and comments\<close>

record discover_op =
  dop_type :: string
  dop_action :: "string option"
  dop_payload :: "string option"

record discover_tx =
  dt_ts :: "string option"
  dt_status :: "string option"
  dt_auths :: "string list"
  dt_posting_auths :: "string list"
  dt_ops :: "discover_op list"

record discovered =
  dc_author :: string
  dc_permlink :: string
  dc_payload :: string

datatype discover_action = DPost | DComment

definition action_name :: "discover_action \<Rightarrow> string" where
  "action_name a = (case a of DPost \<Rightarrow> ''post'' | DComment \<Rightarrow> ''comment'')"

definition signer_of :: "discover_tx \<Rightarrow> string" where
  "signer_of tx = (case dt_auths tx of a # _ \<Rightarrow> a | [] \<Rightarrow> (case dt_posting_auths tx of a # _ \<Rightarrow> a | [] \<Rightarrow> []))"

definition nth_field :: "nat \<Rightarrow> string list \<Rightarrow> string" where
  "nth_field i f = (if i < length f then f ! i else [])"

text \<open>What one operation names, when it names anything: the author (None or
  empty is skipped by the code alike), the permlink and the payload.\<close>

definition op_names :: "discover_action \<Rightarrow> (string \<Rightarrow> bool) \<Rightarrow> discover_tx \<Rightarrow> discover_op \<Rightarrow> discovered option" where
  "op_names action accept tx op = (let payload = nullish (dop_payload op) []; f = split_on (CHR ''|'') payload in
     if dop_type op \<noteq> ''call'' then None
     else if dop_action op = Some (action_name action) then
       if \<not> accept payload then None
       else if signer_of tx = [] \<or> nth_field 0 f = [] then None
       else Some \<lparr> dc_author = signer_of tx, dc_permlink = nth_field 0 f, dc_payload = payload \<rparr>
     else if action = DPost \<and> dop_action op = Some ''vote'' then
       if nth_field 0 f = [] \<or> nth_field 1 f = [] then None
       else Some \<lparr> dc_author = nth_field 0 f, dc_permlink = nth_field 1 f, dc_payload = payload \<rparr>
     else None)"

definition dc_key :: "discovered \<Rightarrow> string" where
  "dc_key d = dc_author d @ ''/'' @ dc_permlink d"

definition note_call :: "discovered \<Rightarrow> discovered list \<Rightarrow> discovered list" where
  "note_call d found = (if dc_key d \<in> dc_key ` set found then found else found @ [d])"

definition tx_calls :: "discover_action \<Rightarrow> (string \<Rightarrow> bool) \<Rightarrow> discover_tx \<Rightarrow> discovered list" where
  "tx_calls action accept tx = (if dt_status tx = Some ''FAILED'' then []
     else List.map_filter (op_names action accept tx) (dt_ops tx))"

fun discover_walk :: "nat \<Rightarrow> discover_action \<Rightarrow> (string \<Rightarrow> bool) \<Rightarrow> discover_tx list \<Rightarrow> discovered list \<Rightarrow> discovered list" where
  "discover_walk limit action accept [] found = found"
| "discover_walk limit action accept (tx # txs) found =
     (if dt_status tx = Some ''FAILED'' then discover_walk limit action accept txs found
      else let found' = fold note_call (tx_calls action accept tx) found in
        if limit \<le> length found' then found' else discover_walk limit action accept txs found')"

definition discoveredCalls :: "discover_tx list \<Rightarrow> nat \<Rightarrow> discover_action \<Rightarrow> (string \<Rightarrow> bool) \<Rightarrow> discovered list" where
  "discoveredCalls txs limit action accept = discover_walk limit action accept txs []"

section \<open>Hive's tagged posts\<close>

text \<open>One row of the tagged listing; a missing field is the empty string, which
  the code treats the same way.\<close>

record hive_tagged_post =
  hp_author :: string
  hp_permlink :: string
  hp_title :: string
  hp_body :: string
  hp_created :: string
  hp_depth :: int
  hp_parent_author :: string
  hp_json_metadata :: "json option"

definition post_key :: "string \<Rightarrow> string \<Rightarrow> string" where
  "post_key author permlink = author @ ''/'' @ permlink"

definition tagged_key :: "hive_tagged_post \<Rightarrow> string" where
  "tagged_key row = post_key (qualified_name (hp_author row)) (hp_permlink row)"

definition is_root_row :: "hive_tagged_post \<Rightarrow> bool" where
  "is_root_row row = (hp_author row \<noteq> [] \<and> hp_permlink row \<noteq> [] \<and> hp_depth row \<le> 0 \<and> hp_parent_author row = [])"

definition too_old :: "int \<Rightarrow> hive_tagged_post \<Rightarrow> bool" where
  "too_old notBefore row = (notBefore > 0 \<and> opt_holds (\<lambda>t. t < notBefore) (date_parse (isoUtc (hp_created row))))"

definition tagged_view :: "hive_tagged_post \<Rightarrow> string \<times> json list option \<Rightarrow> post_view" where
  "tagged_view row meta = \<lparr> pv_author = qualified_name (hp_author row), pv_permlink = hp_permlink row, pv_window = Viral,
     pv_created_height = 0, pv_created_time = isoUtc (hp_created row), pv_payout_height = 0, pv_payout_time = [],
     pv_rshares = ''0'', pv_payout_mode = Some 0, pv_parent_author = [], pv_parent_permlink = [],
     pv_promoted = ''0.00000000'', pv_title = (if hp_title row = [] then hp_permlink row else hp_title row),
     pv_summary = fst meta, pv_body_excerpt = take 2000 (hp_body row), pv_tags = snd meta, pv_votes = Some 0,
     pv_paid_out = False, pv_payable = False, pv_pending_payout = ''0.00000000'', pv_curator_pot = ''0.00000000'',
     pv_curation_expires_at = 0, pv_registered = False, pv_shown_for_context = None, pv_bot_commands = None \<rparr>"

definition may_post :: "(string \<Rightarrow> string \<Rightarrow> bool) \<Rightarrow> (string \<Rightarrow> string option) \<Rightarrow> string \<Rightarrow> string \<Rightarrow> bool" where
  "may_post canPost shares threshold author = canPost (or_zero (shares author)) threshold"

fun merge_rows :: "(string \<Rightarrow> string \<Rightarrow> bool) \<Rightarrow> (string \<Rightarrow> string option) \<Rightarrow> string \<Rightarrow> int \<Rightarrow>
    string set \<Rightarrow> hive_tagged_post list \<Rightarrow> post_view list result" where
  "merge_rows canPost shares threshold notBefore known [] = Inr []"
| "merge_rows canPost shares threshold notBefore known (row # rows) =
     (if \<not> is_root_row row \<or> tagged_key row \<in> known \<or> too_old notBefore row
      then merge_rows canPost shares threshold notBefore known rows
      else let known' = insert (tagged_key row) known in
        if \<not> may_post canPost shares threshold (qualified_name (hp_author row))
        then merge_rows canPost shares threshold notBefore known' rows
        else rbind (hiveMeta (hp_json_metadata row)) (\<lambda>meta.
          rmap (\<lambda>out. tagged_view row meta # out) (merge_rows canPost shares threshold notBefore known' rows)))"

definition mergeTagged :: "(string \<Rightarrow> string \<Rightarrow> bool) \<Rightarrow> (string \<times> string) list \<Rightarrow> hive_tagged_post list \<Rightarrow>
    (string \<Rightarrow> string option) \<Rightarrow> string \<Rightarrow> int \<Rightarrow> post_view list result" where
  "mergeTagged canPost registered hiveRows shares threshold notBefore =
     merge_rows canPost shares threshold notBefore (set (map (\<lambda>(a, p). post_key a p) registered)) hiveRows"

section \<open>The comment tree\<close>

text \<open>A payload field that is not there reads as 'undefined' in the key.\<close>

definition field_text :: "nat \<Rightarrow> string list \<Rightarrow> string" where
  "field_text i f = (if i < length f then f ! i else ''undefined'')"

definition parent_entry :: "discovered \<Rightarrow> string \<times> string" where
  "parent_entry e = (let f = split_on (CHR ''|'') (dc_payload e) in
     (post_key (dc_author e) (dc_permlink e), post_key (field_text 1 f) (field_text 2 f)))"

definition parentOf :: "discovered list \<Rightarrow> (string \<times> string) list" where
  "parentOf ds = fold (\<lambda>e m. AList.update (fst (parent_entry e)) (snd (parent_entry e)) m) ds []"

definition tree_rule :: "string \<Rightarrow> string set \<Rightarrow> string \<times> string \<Rightarrow> bool" where
  "tree_rule root V kp = (snd kp = root \<or> snd kp \<in> V)"

definition inTree :: "string \<Rightarrow> discovered list \<Rightarrow> string set" where
  "inTree root ds = grow_loop fst (tree_rule root) (parentOf ds) {}"

definition commentTree :: "string \<Rightarrow> string \<Rightarrow> discovered list \<Rightarrow> discovered list" where
  "commentTree author permlink ds =
     filter (\<lambda>e. post_key (dc_author e) (dc_permlink e) \<in> inTree (post_key author permlink) ds) ds"

section \<open>Which Hive replies are shown\<close>

record hive_reply =
  hr_view :: post_view
  hr_qualifies :: bool
  hr_body :: "string option"

definition view_key :: "post_view \<Rightarrow> string" where
  "view_key v = post_key (pv_author v) (pv_permlink v)"

definition parent_key :: "post_view \<Rightarrow> string" where
  "parent_key v = post_key (pv_parent_author v) (pv_parent_permlink v)"

definition is_bot_reply :: "hive_reply \<Rightarrow> bool" where
  "is_bot_reply h = isBotCommandsOnly (Some (nullish (hr_body h) (pv_body_excerpt (hr_view h))))"

definition reply_rule :: "post_view list \<Rightarrow> hive_reply list \<Rightarrow> string set \<Rightarrow> hive_reply \<Rightarrow> bool" where
  "reply_rule registered hive V h = (let key = view_key (hr_view h) in
     list_ex (\<lambda>c. parent_key c = key) registered \<or>
     list_ex (\<lambda>r. view_key (hr_view r) \<in> V \<and> parent_key (hr_view r) = key) hive)"

definition heard_keys :: "post_view list \<Rightarrow> hive_reply list \<Rightarrow> string set" where
  "heard_keys registered hive = grow_loop (\<lambda>h. view_key (hr_view h)) (reply_rule registered hive) hive
     (set (map view_key registered) \<union> set (map (\<lambda>h. view_key (hr_view h)) (filter hr_qualifies hive)))"

definition visibleHiveReplies :: "post_view list \<Rightarrow> hive_reply list \<Rightarrow> post_view list" where
  "visibleHiveReplies registered hiveAll =
     (let bots = filter is_bot_reply hiveAll; hive = filter (\<lambda>h. \<not> is_bot_reply h) hiveAll;
          visible = heard_keys registered hive
      in map (\<lambda>h. if hr_qualifies h then hr_view h else (hr_view h)\<lparr>pv_shown_for_context := Some True\<rparr>)
           (filter (\<lambda>h. view_key (hr_view h) \<in> visible) hive)
         @ map (\<lambda>h. (hr_view h)\<lparr>pv_bot_commands := Some True\<rparr>)
           (filter (\<lambda>h. parent_key (hr_view h) \<in> visible) bots))"

section \<open>Every operation reads its own result\<close>

text \<open>The name the node gives operation k of a transaction.\<close>

definition op_name :: "string \<Rightarrow> nat \<Rightarrow> string" where
  "op_name tx k = (if k = 0 then tx else tx @ ''-'' @ show_nat k)"

definition plain_id :: "string \<Rightarrow> bool" where
  "plain_id tx = list_all (\<lambda>c. c \<noteq> CHR ''-'' \<and> \<not> line_end c) tx"

lemma plain_id_suffix: "plain_id tx \<Longrightarrow> op_suffix tx = None"
proof -
  assume "plain_id tx"
  then have "CHR ''-'' \<notin> set tx" by (auto simp: plain_id_def list_all_iff)
  then have "CHR ''-'' \<notin> set (dropWhile is_digit (rev tx))" by (metis set_dropWhileD set_rev)
  then have "hd (dropWhile is_digit (rev tx)) \<noteq> CHR ''-''" if "dropWhile is_digit (rev tx) \<noteq> []"
    using that by (metis list.set_sel(1))
  then show ?thesis by (auto simp: op_suffix_def Let_def last_rev)
qed

lemma op_suffix_dash:
  assumes "all_digits d"
  shows "op_suffix (p @ ''-'' @ d) = Some (p, d)"
proof -
  have dash: "\<not> is_digit (CHR ''-'')" by (simp add: is_digit_def)
  have d: "\<And>c. c \<in> set (rev d) \<Longrightarrow> is_digit c" "d \<noteq> []" using assms by (auto simp: all_digits_def list_all_iff)
  have "takeWhile is_digit (rev d @ CHR ''-'' # rev p) = rev d"
    "dropWhile is_digit (rev d @ CHR ''-'' # rev p) = CHR ''-'' # rev p"
    using dash takeWhile_append2 [of "rev d" is_digit, OF d(1)] dropWhile_append2 [of "rev d" is_digit, OF d(1)] by simp_all
  then show ?thesis using d(2) by (simp add: op_suffix_def Let_def)
qed

lemma op_of_name: "plain_id tx \<Longrightarrow> op_of_input (op_name tx k) = (tx, k)"
  using op_suffix_dash [of "show_nat k" tx]
  by (auto simp: op_name_def op_of_input_def plain_id_suffix plain_id_def list_all_iff list_ex_iff)

lemma slot_update:
  "tx_slot (AList.update a e m) tx = (if tx = a then e else tx_slot m tx)"
  by (simp add: tx_slot_def)

lemma put_ops_byOp:
  "map_of (tx_byOp (tx_slot (fold put_op es m) tx)) k =
     (case map_of (rev (map (\<lambda>(i, r). (op_of_input i, r)) es)) (tx, k) of
        Some r \<Rightarrow> Some r | None \<Rightarrow> map_of (tx_byOp (tx_slot m tx)) k)"
proof (induction es arbitrary: m)
  case (Cons e es)
  obtain i r where e: "e = (i, r)" by fastforce
  obtain a n where a: "op_of_input i = (a, n)" by fastforce
  have "map_of (tx_byOp (tx_slot (put_op e m) tx)) k =
      (if (tx, k) = (a, n) then Some r else map_of (tx_byOp (tx_slot m tx)) k)"
    by (simp add: put_op_def e a slot_update Let_def)
  then show ?case using Cons.IH [of "put_op e m"] by (auto simp: e a map_add_def split: option.splits)
qed simp

lemma put_ops_byCall: "tx_byCall (tx_slot (fold put_op es m) tx) = tx_byCall (tx_slot m tx)"
proof (induction es arbitrary: m)
  case (Cons e es)
  have "tx_byCall (tx_slot (put_op e m) tx) = tx_byCall (tx_slot m tx)"
    by (simp add: put_op_def slot_update Let_def split: prod.splits)
  then show ?case using Cons.IH by simp
qed simp

lemma resultFor_slot:
  "resultFor m tx k j = (case map_of (tx_byOp (tx_slot m tx)) k of
     Some r \<Rightarrow> Some r
   | None \<Rightarrow> if j < length (tx_byCall (tx_slot m tx)) then Some (tx_byCall (tx_slot m tx) ! j) else None)"
  by (simp add: resultFor_def tx_slot_def nullish_def split: option.splits)

definition named_results :: "contract_output list \<Rightarrow> (string \<times> op_result) list" where
  "named_results outs = concat (map (\<lambda>out. zip (co_inputs out) (co_results out)) outs)"

lemma resultsByOp_named:
  "list_all names_ops outs \<Longrightarrow> resultsByOp outs cc = fold put_op (named_results outs) []"
proof -
  have "fold (read_output cc) outs m = fold put_op (named_results outs) m" if "list_all names_ops outs" for m
    using that by (induction outs arbitrary: m) (simp_all add: named_results_def read_output_def Let_def)
  then show "list_all names_ops outs \<Longrightarrow> resultsByOp outs cc = fold put_op (named_results outs) []"
    by (simp add: resultsByOp_def)
qed

lemma resultFor_named:
  assumes "list_all names_ops outs"
  shows "resultFor (resultsByOp outs cc) tx k j =
    map_of (rev (map (\<lambda>(i, r). (op_of_input i, r)) (named_results outs))) (tx, k)"
  by (simp add: resultFor_slot resultsByOp_named [OF assms] put_ops_byOp put_ops_byCall split: option.splits)
    (simp add: tx_slot_def)


definition sample_outputs :: "contract_output list" where
  "sample_outputs = [\<lparr>co_inputs = [''ab-1''], co_results = [\<lparr>or_ok = True, or_ret = ''minted''\<rparr>]\<rparr>,
     \<lparr>co_inputs = [''ab''], co_results = [\<lparr>or_ok = True, or_ret = ''allowed''\<rparr>]\<rparr>]"


section \<open>Discovery is the first sighting of every call that landed\<close>

fun first_sightings :: "discovered list \<Rightarrow> discovered list" where
  "first_sightings [] = []"
| "first_sightings (d # ds) = d # filter (\<lambda>e. dc_key e \<noteq> dc_key d) (first_sightings ds)"

lemma note_fold:
  "fold note_call ds acc = acc @ filter (\<lambda>e. dc_key e \<notin> dc_key ` set acc) (first_sightings ds)"
proof (induction ds arbitrary: acc)
  case (Cons d ds)
  show ?case
  proof (cases "dc_key d \<in> dc_key ` set acc")
    case True
    then have "filter (\<lambda>e. dc_key e \<notin> dc_key ` set acc) (filter (\<lambda>e. dc_key e \<noteq> dc_key d) (first_sightings ds))
        = filter (\<lambda>e. dc_key e \<notin> dc_key ` set acc) (first_sightings ds)"
      by (auto simp only: filter_filter intro!: filter_cong)
    then show ?thesis using Cons.IH [of acc] True by (simp add: note_call_def)
  next
    case False
    then show ?thesis using Cons.IH [of "acc @ [d]"] by (simp add: note_call_def conj_commute)
  qed
qed simp

lemma note_fold_Nil: "fold note_call ds [] = first_sightings ds"
  by (simp add: note_fold)

lemma first_sightings_distinct: "distinct (map dc_key (first_sightings ds))"
  by (induction ds) (auto simp: distinct_map_filter)

lemma first_sightings_set: "set (first_sightings ds) \<subseteq> set ds"
  by (induction ds) auto

lemma tx_calls_failed [simp]: "dt_status tx = Some ''FAILED'' \<Longrightarrow> tx_calls action accept tx = []"
  by (simp add: tx_calls_def)

lemma discover_walk_prefix:
  "\<exists>n. discover_walk limit action accept txs found =
      fold note_call (concat (map (tx_calls action accept) (take n txs))) found
    \<and> (length txs \<le> n \<or> limit \<le> length (discover_walk limit action accept txs found))"
proof (induction limit action accept txs found rule: discover_walk.induct)
  case (1 limit action accept found)
  then show ?case by simp
next
  case (2 limit action accept tx txs found)
  let ?found = "fold note_call (tx_calls action accept tx) found"
  consider (failed) "dt_status tx = Some ''FAILED''" | (full) "dt_status tx \<noteq> Some ''FAILED''" "limit \<le> length ?found"
    | (on) "dt_status tx \<noteq> Some ''FAILED''" "\<not> limit \<le> length ?found" by blast
  then show ?case
  proof cases
    case failed
    then obtain n where n: "discover_walk limit action accept txs found =
        fold note_call (concat (map (tx_calls action accept) (take n txs))) found"
      "length txs \<le> n \<or> limit \<le> length (discover_walk limit action accept txs found)" using 2(1) by blast
    then show ?thesis using failed by (intro exI [of _ "Suc n"]) auto
  next
    case full
    then show ?thesis by (intro exI [of _ "Suc 0"]) simp
  next
    case on
    then obtain n where n: "discover_walk limit action accept txs ?found =
        fold note_call (concat (map (tx_calls action accept) (take n txs))) ?found"
      "length txs \<le> n \<or> limit \<le> length (discover_walk limit action accept txs ?found)" using 2(2) by blast
    then show ?thesis using on by (intro exI [of _ "Suc n"]) auto
  qed
qed

text \<open>Discovery is the first sightings, by author and permlink, of the calls of
  a prefix of the history: the whole history, or as much of it as filled the
  limit.  Each key appears once, and nothing a FAILED transaction named is
  discovered.\<close>

theorem discovered_first_sightings:
  "(\<exists>n. discoveredCalls txs limit action accept =
        first_sightings (concat (map (tx_calls action accept) (take n txs)))
      \<and> (length txs \<le> n \<or> limit \<le> length (discoveredCalls txs limit action accept)))
   \<and> distinct (map dc_key (discoveredCalls txs limit action accept))
   \<and> (\<forall>d \<in> set (discoveredCalls txs limit action accept). \<exists>tx \<in> set txs.
        dt_status tx \<noteq> Some ''FAILED'' \<and> (\<exists>op \<in> set (dt_ops tx). op_names action accept tx op = Some d))"
proof -
  obtain n where n: "discoveredCalls txs limit action accept =
        first_sightings (concat (map (tx_calls action accept) (take n txs)))"
      "length txs \<le> n \<or> limit \<le> length (discoveredCalls txs limit action accept)"
    using discover_walk_prefix [of limit action accept txs "[]"] by (auto simp: discoveredCalls_def note_fold_Nil)
  have "\<exists>tx \<in> set txs. dt_status tx \<noteq> Some ''FAILED'' \<and> (\<exists>op \<in> set (dt_ops tx). op_names action accept tx op = Some d)"
    if "d \<in> set (discoveredCalls txs limit action accept)" for d
  proof -
    have "d \<in> set (concat (map (tx_calls action accept) (take n txs)))"
      using that first_sightings_set unfolding n(1) by blast
    then obtain tx where "tx \<in> set txs" "d \<in> set (tx_calls action accept tx)" by (auto dest: in_set_takeD)
    moreover from this obtain op where "op \<in> set (dt_ops tx)" "op_names action accept tx op = Some d"
      by (auto simp: tx_calls_def map_filter_def split: if_splits)
    ultimately show ?thesis by (intro bexI [of _ tx]) (auto simp: tx_calls_def split: if_splits)
  qed
  then show ?thesis using n first_sightings_distinct by metis
qed

definition sample_vote :: "string \<Rightarrow> string \<Rightarrow> discover_tx" where
  "sample_vote status payload = \<lparr>dt_ts = None, dt_status = Some status, dt_auths = [''hive:carol''], dt_posting_auths = [],
     dt_ops = [\<lparr>dop_type = ''call'', dop_action = Some ''vote'', dop_payload = Some payload\<rparr>]\<rparr>"

lemma discovered_first_sightings_witness:
  "\<exists>tx \<in> {sample_vote ''FAILED'' ''hive:bob|lost|100'', sample_vote ''CONFIRMED'' ''hive:alice|hello|100''}.
     dt_status tx \<noteq> Some ''FAILED'' \<and> (\<exists>op \<in> set (dt_ops tx). op_names DPost (\<lambda>_. True) tx op =
       Some \<lparr>dc_author = ''hive:alice'', dc_permlink = ''hello'', dc_payload = ''hive:alice|hello|100''\<rparr>)"
proof -
  let ?txs = "[sample_vote ''FAILED'' ''hive:bob|lost|100'', sample_vote ''CONFIRMED'' ''hive:alice|hello|100'']"
  have "discoveredCalls ?txs 60 DPost (\<lambda>_. True) =
      [\<lparr>dc_author = ''hive:alice'', dc_permlink = ''hello'', dc_payload = ''hive:alice|hello|100''\<rparr>]"
    by (simp add: discoveredCalls_def sample_vote_def tx_calls_def op_names_def action_name_def nth_field_def
      note_call_def map_filter_simps Let_def)
  then show ?thesis using discovered_first_sightings [of ?txs 60 DPost "\<lambda>_. True"] by (metis list.set(1,2) insertI1)
qed

section \<open>The tagged feed\<close>

text \<open>The rows that may join the feed, apart from what the chain already knows.\<close>

definition may_join :: "(string \<Rightarrow> string \<Rightarrow> bool) \<Rightarrow> (string \<Rightarrow> string option) \<Rightarrow> string \<Rightarrow> int \<Rightarrow> hive_tagged_post \<Rightarrow> bool" where
  "may_join canPost shares threshold notBefore row = (is_root_row row \<and> \<not> too_old notBefore row
     \<and> may_post canPost shares threshold (qualified_name (hp_author row)))"

lemma tagged_view_key [simp]: "view_key (tagged_view row meta) = tagged_key row"
  by (simp add: view_key_def tagged_view_def tagged_key_def)

lemma split_key: "c \<notin> set a \<Longrightarrow> c \<notin> set b \<Longrightarrow> a @ c # x = b @ c # y \<longleftrightarrow> a = b \<and> x = y"
proof (induction a arbitrary: b)
  case Nil
  then show ?case by (cases b) auto
next
  case (Cons d a)
  then show ?case by (cases b) auto
qed

lemma tagged_key_author:
  assumes "tagged_key a = tagged_key b" "CHR ''/'' \<notin> set (hp_author a)" "CHR ''/'' \<notin> set (hp_author b)"
  shows "qualified_name (hp_author a) = qualified_name (hp_author b)"
proof -
  have "CHR ''/'' \<notin> set (qualified_name x)" if "CHR ''/'' \<notin> set x" for x
    using that by (auto simp: qualified_name_def strip_prefix_def Let_def dest: in_set_dropD)
  then have "CHR ''/'' \<notin> set (qualified_name (hp_author a))" "CHR ''/'' \<notin> set (qualified_name (hp_author b))"
    using assms(2,3) by blast+
  then show ?thesis using assms(1) by (simp add: tagged_key_def post_key_def split_key)
qed

lemma merge_rows_sound:
  "merge_rows canPost shares threshold notBefore known rows = Inr out \<Longrightarrow>
   distinct (map view_key out) \<and> set (map view_key out) \<inter> known = {} \<and>
   (\<forall>v \<in> set out. \<exists>row \<in> set rows. \<exists>meta. may_join canPost shares threshold notBefore row
      \<and> hiveMeta (hp_json_metadata row) = Inr meta \<and> v = tagged_view row meta)"
proof (induction canPost shares threshold notBefore known rows arbitrary: out rule: merge_rows.induct)
  case (1 canPost shares threshold notBefore known)
  then show ?case by simp
next
  case (2 canPost shares threshold notBefore known row rows)
  let ?skip = "\<not> is_root_row row \<or> tagged_key row \<in> known \<or> too_old notBefore row"
  let ?known = "insert (tagged_key row) known"
  consider (skip) ?skip | (refused) "\<not> ?skip" "\<not> may_post canPost shares threshold (qualified_name (hp_author row))"
    | (taken) "\<not> ?skip" "may_post canPost shares threshold (qualified_name (hp_author row))" by blast
  then show ?case
  proof cases
    case skip
    then show ?thesis using 2(1) [OF _ ] 2(4) by fastforce
  next
    case refused
    then have "merge_rows canPost shares threshold notBefore ?known rows = Inr out" using 2(4) by (simp add: Let_def)
    from 2(2) [OF refused(1) refl refused(2) this] show ?thesis by auto
  next
    case taken
    then obtain meta out' where m: "hiveMeta (hp_json_metadata row) = Inr meta"
      "merge_rows canPost shares threshold notBefore ?known rows = Inr out'" "out = tagged_view row meta # out'"
      using 2(4) by (auto simp: Let_def rbind_Inr_iff rmap_Inr_iff)
    have t: "\<not> \<not> may_post canPost shares threshold (qualified_name (hp_author row))" using taken(2) by simp
    have "may_join canPost shares threshold notBefore row" using taken by (simp add: may_join_def)
    moreover obtain x y where "meta = (x, y)" by fastforce
    ultimately show ?thesis using 2(3) [OF taken(1) refl t m(2)] m(1,3) taken(1) by (auto simp: disjoint_iff)
  qed
qed

lemma merge_rows_complete:
  "merge_rows canPost shares threshold notBefore known rows = Inr out \<Longrightarrow>
   row \<in> set rows \<Longrightarrow> \<forall>r \<in> set rows. CHR ''/'' \<notin> set (hp_author r) \<Longrightarrow>
   may_join canPost shares threshold notBefore row \<Longrightarrow> tagged_key row \<notin> known \<Longrightarrow>
   tagged_key row \<in> set (map view_key out)"
proof (induction canPost shares threshold notBefore known rows arbitrary: out rule: merge_rows.induct)
  case (1 canPost shares threshold notBefore known)
  then show ?case by simp
next
  case (2 canPost shares threshold notBefore known r rows)
  let ?skip = "\<not> is_root_row r \<or> tagged_key r \<in> known \<or> too_old notBefore r"
  let ?known = "insert (tagged_key r) known"
  let ?may = "may_post canPost shares threshold (qualified_name (hp_author r))"
  have same: "?may" if "tagged_key row = tagged_key r"
    using tagged_key_author [OF that] 2(5-7) by (auto simp: may_join_def)
  consider (skip) ?skip | (refused) "\<not> ?skip" "\<not> ?may" | (taken) "\<not> ?skip" ?may by blast
  then show ?case
  proof cases
    case skip
    then have "row \<noteq> r" using 2(7,8) by (auto simp: may_join_def)
    then show ?thesis using skip 2(1) [OF skip] 2(4-8) by simp
  next
    case refused
    then have "merge_rows canPost shares threshold notBefore ?known rows = Inr out" using 2(4) by (simp add: Let_def)
    moreover have "tagged_key row \<noteq> tagged_key r" using same refused(2) by blast
    ultimately show ?thesis using 2(2) [OF refused(1) refl refused(2)] 2(5-8) by auto
  next
    case taken
    then obtain meta out' where m: "merge_rows canPost shares threshold notBefore ?known rows = Inr out'"
      "out = tagged_view r meta # out'"
      using 2(4) by (auto simp: Let_def rbind_Inr_iff rmap_Inr_iff)
    have t: "\<not> \<not> ?may" using taken(2) by simp
    show ?thesis
    proof (cases "tagged_key row = tagged_key r")
      case False
      then show ?thesis using 2(3) [OF taken(1) refl t m(1)] 2(5-8) m(2) by auto
    qed (simp add: m(2))
  qed
qed

text \<open>The tagged feed adds exactly the posts the rule admits: its keys are those
  of the root rows young enough whose author may post, less what the chain
  already has, each once; and every added view says it is unregistered and
  carries zeros, never an estimate.\<close>

theorem mergeTagged_exact:
  assumes "mergeTagged canPost registered rows shares threshold notBefore = Inr out"
    and "\<forall>r \<in> set rows. CHR ''/'' \<notin> set (hp_author r)"
  shows "distinct (map view_key out)
    \<and> set (map view_key out) = {tagged_key row | row. row \<in> set rows \<and> may_join canPost shares threshold notBefore row}
        - set (map (\<lambda>(a, p). post_key a p) registered)
    \<and> (\<forall>v \<in> set out. \<not> pv_registered v \<and> pv_pending_payout v = ''0.00000000'' \<and> pv_curator_pot v = ''0.00000000''
        \<and> pv_rshares v = ''0'' \<and> pv_votes v = Some 0 \<and> pv_window v = Viral)"
proof -
  note m = assms(1) [unfolded mergeTagged_def]
  note sound = merge_rows_sound [OF m]
  let ?new = "{tagged_key row | row. row \<in> set rows \<and> may_join canPost shares threshold notBefore row}"
  let ?old = "set (map (\<lambda>(a, p). post_key a p) registered)"
  have "set (map view_key out) \<subseteq> ?new"
  proof
    fix k
    assume "k \<in> set (map view_key out)"
    then obtain v where v: "v \<in> set out" "k = view_key v" by auto
    then obtain row meta where "row \<in> set rows" "may_join canPost shares threshold notBefore row" "v = tagged_view row meta"
      using sound by blast
    then show "k \<in> ?new" using v(2) by auto
  qed
  moreover have "?new - ?old \<subseteq> set (map view_key out)" using merge_rows_complete [OF m _ assms(2)] by blast
  moreover have "set (map view_key out) \<inter> ?old = {}" using sound by blast
  ultimately have keys: "set (map view_key out) = ?new - ?old" by blast
  have "\<forall>v \<in> set out. \<not> pv_registered v \<and> pv_pending_payout v = ''0.00000000'' \<and> pv_curator_pot v = ''0.00000000''
        \<and> pv_rshares v = ''0'' \<and> pv_votes v = Some 0 \<and> pv_window v = Viral"
  proof
    fix v
    assume "v \<in> set out"
    then obtain row meta where v: "v = tagged_view row meta" using merge_rows_sound [OF m] by blast
    show "\<not> pv_registered v \<and> pv_pending_payout v = ''0.00000000'' \<and> pv_curator_pot v = ''0.00000000''
        \<and> pv_rshares v = ''0'' \<and> pv_votes v = Some 0 \<and> pv_window v = Viral" unfolding v by (simp add: tagged_view_def)
  qed
  then show ?thesis using sound keys by blast
qed

definition sample_row :: hive_tagged_post where
  "sample_row = \<lparr>hp_author = ''alice'', hp_permlink = ''hello'', hp_title = ''Hello'', hp_body = ''text'', hp_created = [],
     hp_depth = 0, hp_parent_author = [], hp_json_metadata = None\<rparr>"

definition sample_canPost :: "string \<Rightarrow> string \<Rightarrow> bool" where
  "sample_canPost shares threshold = (or_default 0 (big_int threshold) \<le> or_default 0 (big_int shares))"

lemma mergeTagged_exact_witness:
  "\<exists>out. mergeTagged sample_canPost [(''hive:bob'', ''old'')] [sample_row, sample_row] [''hive:alice'' \<mapsto> ''500''] ''100'' 0 = Inr out
     \<and> distinct (map view_key out) \<and> set (map view_key out) = {''hive:alice/hello''}"
proof -
  let ?m = "mergeTagged sample_canPost [(''hive:bob'', ''old'')] [sample_row, sample_row] [''hive:alice'' \<mapsto> ''500''] ''100'' 0"
  have key: "tagged_key sample_row = ''hive:alice/hello''"
    by (simp add: tagged_key_def sample_row_def qualified_name_def strip_prefix_def post_key_def)
  have may: "may_join sample_canPost [''hive:alice'' \<mapsto> ''500''] ''100'' 0 sample_row"
    by (simp add: may_join_def is_root_row_def too_old_def may_post_def sample_row_def qualified_name_def
      strip_prefix_def or_zero_def sample_canPost_def js_eval)
  have meta: "hiveMeta (hp_json_metadata sample_row) = Inr ([], None)"
    by (simp add: sample_row_def hiveMeta_def jfield_def)
  have "is_root_row sample_row \<and> \<not> too_old 0 sample_row
      \<and> may_post sample_canPost [''hive:alice'' \<mapsto> ''500''] ''100'' (qualified_name (hp_author sample_row))"
    using may by (simp add: may_join_def)
  then obtain out where out: "?m = Inr out" by (simp add: mergeTagged_def key post_key_def meta)
  show ?thesis
    using mergeTagged_exact [OF out] out may key by (auto simp: sample_row_def post_key_def)
qed

section \<open>Comments below a post\<close>

text \<open>A comment descends from the root when its parent is the root or descends
  from it.\<close>

inductive descends :: "string \<Rightarrow> (string \<times> string) list \<Rightarrow> string \<Rightarrow> bool" for root entries where
  direct: "(k, root) \<in> set entries \<Longrightarrow> descends root entries k"
| below: "(k, p) \<in> set entries \<Longrightarrow> descends root entries p \<Longrightarrow> descends root entries k"

interpretation tree: grow_rule fst "tree_rule root" entries for root entries
  by unfold_locales (auto simp: tree_rule_def)

lemma inTree_descends: "grow_loop fst (tree_rule root) entries {} = {k. descends root entries k}"
proof (rule tree.grow_loop_iff)
  show "closed_under fst (tree_rule root) entries {k. descends root entries k}"
    by (auto simp: closed_under_def tree_rule_def intro: descends.intros)
  show "{k. descends root entries k} \<subseteq> U" if U: "closed_under fst (tree_rule root) entries U" for U
  proof
    fix k
    assume "k \<in> {k. descends root entries k}"
    then have "descends root entries k" by simp
    then show "k \<in> U" using U by induction (auto simp: closed_under_def tree_rule_def)
  qed
qed simp

text \<open>C29. The comments shown below a post are exactly the discovered ones whose
  chain of parents reaches the post, in the order discovered, however deep the
  chain, in whatever order the history lists parents and children, and even when
  payloads claim parents in a circle.\<close>

theorem commentTree_descends:
  "commentTree author permlink ds =
     filter (\<lambda>e. descends (post_key author permlink) (parentOf ds) (post_key (dc_author e) (dc_permlink e))) ds"
  by (simp add: commentTree_def inTree_def inTree_descends)

section \<open>Who is heard\<close>

text \<open>A reply is heard when its author qualifies, or a registered comment or a heard
  reply answers it.\<close>

inductive heard :: "post_view list \<Rightarrow> hive_reply list \<Rightarrow> string \<Rightarrow> bool" for registered hive where
  on_chain: "c \<in> set registered \<Longrightarrow> heard registered hive (view_key c)"
| staked: "h \<in> set hive \<Longrightarrow> hr_qualifies h \<Longrightarrow> heard registered hive (view_key (hr_view h))"
| parent_of_registered: "h \<in> set hive \<Longrightarrow> c \<in> set registered \<Longrightarrow> parent_key c = view_key (hr_view h) \<Longrightarrow>
    heard registered hive (view_key (hr_view h))"
| parent_of_heard: "h \<in> set hive \<Longrightarrow> r \<in> set hive \<Longrightarrow> heard registered hive (view_key (hr_view r)) \<Longrightarrow>
    parent_key (hr_view r) = view_key (hr_view h) \<Longrightarrow> heard registered hive (view_key (hr_view h))"

interpretation replies: grow_rule "\<lambda>h. view_key (hr_view h)" "reply_rule registered hive" hive for registered hive
  by unfold_locales (auto simp: reply_rule_def Let_def list_ex_iff)

lemma heard_keys_heard: "heard_keys registered hive = {k. heard registered hive k}"
  unfolding heard_keys_def
proof (rule replies.grow_loop_iff)
  let ?base = "set (map view_key registered) \<union> set (map (\<lambda>h. view_key (hr_view h)) (filter hr_qualifies hive))"
  show "?base \<subseteq> {k. heard registered hive k}" by (auto intro: heard.intros)
  show "closed_under (\<lambda>h. view_key (hr_view h)) (reply_rule registered hive) hive {k. heard registered hive k}"
    by (auto simp: closed_under_def reply_rule_def Let_def list_ex_iff intro: heard.intros)
  show "{k. heard registered hive k} \<subseteq> U"
    if U: "?base \<subseteq> U" "closed_under (\<lambda>h. view_key (hr_view h)) (reply_rule registered hive) hive U" for U
  proof
    fix k
    assume "k \<in> {k. heard registered hive k}"
    then have "heard registered hive k" by simp
    moreover have cl: "view_key (hr_view h) \<in> U" if "h \<in> set hive" "reply_rule registered hive U h" for h
      using U(2) that by (auto simp: closed_under_def)
    ultimately show "k \<in> U"
    proof induction
      case (parent_of_registered h c)
      then show ?case by (intro cl) (auto simp: reply_rule_def Let_def list_ex_iff)
    next
      case (parent_of_heard h r)
      show ?case
        by (rule cl [OF parent_of_heard.hyps(1)])
          (simp add: reply_rule_def Let_def list_ex_iff, intro disjI2 bexI [of _ r], simp add: parent_of_heard, rule parent_of_heard.hyps(2))
    qed (use U(1) in auto)
  qed
qed

text \<open>A Hive-only reply is shown exactly when it is heard: its author holds the
  threshold, or it is an ancestor of a reply that is registered or whose author
  does.  A reply of tip-bot commands alone never makes anything heard; it comes
  last, flagged, and only under a parent that is.\<close>

theorem visibleHiveReplies_heard:
  "visibleHiveReplies registered hiveAll =
     (let hive = filter (\<lambda>h. \<not> is_bot_reply h) hiveAll in
      map (\<lambda>h. if hr_qualifies h then hr_view h else (hr_view h)\<lparr>pv_shown_for_context := Some True\<rparr>)
        (filter (\<lambda>h. heard registered hive (view_key (hr_view h))) hive)
      @ map (\<lambda>h. (hr_view h)\<lparr>pv_bot_commands := Some True\<rparr>)
        (filter (\<lambda>h. is_bot_reply h \<and> heard registered hive (parent_key (hr_view h))) hiveAll))"
  by (simp add: visibleHiveReplies_def heard_keys_heard Let_def conj_commute)

end
