(* ===== verification/Engine.thy ===== *)
theory Engine
  imports Amounts
begin

text \<open>
  'api/src/engine.ts': the typed wrappers around the WebAssembly engine.  The
  engine itself is a compiled binary the page loads, so it is a parameter: a
  record of its exported functions, all over base-unit strings, or None while it
  is not loaded.  Every wrapper asks for the bridge first, throws when there is
  none, and renders base units as amounts.
\<close>

section \<open>The bridge\<close>

record engine_constants =
  ec_decimals :: int
  ec_unit :: string
  ec_multScale :: string
  ec_minMintDays :: int
  ec_maxMintDays :: int
  ec_minMintAmount :: string
  ec_graceDays :: int
  ec_bleedDays :: int
  ec_goodAcctArmDays :: int
  ec_goodAcctGrace :: int
  ec_loyaltyMaxDays :: int
  ec_migrationMintDays :: int
  ec_heightsPerDay :: string
  ec_expiryChunkSize :: int
  ec_maxRetirePerWalk :: int
  ec_userRetireBudget :: int
  ec_heightsPerYear :: string
  ec_secondsPerHeight :: int
  ec_viralPayoutDays :: int
  ec_deepPayoutDays :: int
  ec_fullVoteCostPct :: int
  ec_paramVolumeStart :: string
  ec_paramVolumeEnd :: string
  ec_paramPostThresholdViral :: string
  ec_paramPostThresholdDeep :: string
  ec_paramPostThresholdComment :: string
  ec_paramPromoteMinBurn :: string
  ec_promoteCutoffPct :: int

record governance_row =
  gr_account :: string
  gr_shares :: string
  gr_preference :: "string option"

record raw_mint_quote =
  rq_ok :: bool
  rq_shares :: string
  rq_durationMultiplier :: string
  rq_volumeMultiplier :: string
  rq_combinedMultiplier :: string

record raw_effective =
  re_ok :: bool
  re_value :: string
  re_min :: string
  re_max :: string
  re_defaultValue :: string

record raw_swap =
  rs_ok :: bool
  rs_amountOut :: string
  rs_rate :: "string option"
  rs_priceImpactPct :: "string option"

record raw_liquidity =
  rl_ok :: bool
  rl_isFirstDeposit :: bool
  rl_hbdNeeded :: string
  rl_shares :: string

record raw_withdraw =
  rw_ok :: bool
  rw_lc :: string
  rw_hbd :: string

record raw_preview =
  rp_toOwner :: string
  rp_toRewardPool :: string
  rp_early :: bool
  rp_maturityHeight :: string
  rp_mature :: bool
  rp_canArm :: bool
  rp_recoveryFraction :: string
  rp_bleedRemaining :: string
  rp_liquidationHeight :: string

record raw_tranche =
  rt_age_days :: int
  rt_loyalty :: string
  rt_value_lc :: string
  rt_value_hbd :: string
  rt_pending_reward :: string

record raw_daily =
  rd_total :: string
  rd_proofOfBrain :: string
  rd_lshare :: string
  rd_liquidity :: string
  rd_viral :: string
  rd_deep :: string

record raw_split =
  rk_proofOfBrain :: string
  rk_lshare :: string
  rk_liquidity :: string
  rk_viral :: string
  rk_deep :: string

record raw_supply =
  ru_hardcap :: string
  ru_emissionCap :: string
  ru_maxEver :: string
  ru_lost :: string

record tranche_args =
  ta_shares :: string
  ta_startHeight :: "int option"
  ta_weight :: string
  ta_accStart :: string
  ta_height :: int
  ta_totalShares :: string
  ta_lcReserve :: string
  ta_hbdReserve :: string
  ta_poolLiq :: string
  ta_accSeen :: string
  ta_accHeld :: string
  ta_acc :: string
  ta_totalWeight :: string

record bridge =
  b_mintQuote :: "string \<Rightarrow> int \<Rightarrow> string \<Rightarrow> string \<Rightarrow> string \<Rightarrow> raw_mint_quote"
  b_shareRate :: "string \<Rightarrow> string \<Rightarrow> string"
  b_shareRateHbd :: "string \<Rightarrow> string \<Rightarrow> string \<Rightarrow> string \<Rightarrow> string"
  b_supplyLimits :: "string \<Rightarrow> raw_supply"
  b_dailyRewards :: "string \<Rightarrow> string \<Rightarrow> raw_daily"
  b_poolApy :: "string \<Rightarrow> string \<Rightarrow> string \<Rightarrow> string \<Rightarrow> bool \<times> string"
  b_durationMultiplier :: "int \<Rightarrow> string"
  b_volumeMultiplier :: "string \<Rightarrow> string \<Rightarrow> string \<Rightarrow> string"
  b_loyaltyMultiplier :: "int \<Rightarrow> string"
  b_voteCost :: "int \<Rightarrow> string"
  b_canPost :: "string \<Rightarrow> string \<Rightarrow> bool"
  b_voteWeight :: "string \<Rightarrow> string \<Rightarrow> string"
  b_votePower :: "string \<Rightarrow> string \<Rightarrow> string \<Rightarrow> nat \<Rightarrow> string"
  b_trancheView :: "tranche_args \<Rightarrow> raw_tranche"
  b_trancheHealth :: "string \<Rightarrow> string \<Rightarrow> nat \<times> int \<times> int"
  b_routePayout :: "string \<Rightarrow> string \<times> string"
  b_blockSplit :: "string \<Rightarrow> raw_split"
  b_entitlement :: "string \<Rightarrow> string \<Rightarrow> string \<Rightarrow> string"
  b_effectiveValue :: "string \<Rightarrow> governance_row list \<Rightarrow> raw_effective"
  b_consensusGroup :: "(string \<times> string) list \<Rightarrow> (string \<times> string) list"
  b_swapOut :: "string \<Rightarrow> string \<Rightarrow> string \<Rightarrow> raw_swap"
  b_rewardShare :: "string \<Rightarrow> string \<Rightarrow> string \<Rightarrow> string"
  b_lcToHbd :: "string \<Rightarrow> string \<Rightarrow> string \<Rightarrow> string"
  b_liquidityQuote :: "string \<Rightarrow> string \<Rightarrow> string \<Rightarrow> string \<Rightarrow> raw_liquidity"
  b_withdrawQuote :: "string \<Rightarrow> string \<Rightarrow> string \<Rightarrow> string \<Rightarrow> raw_withdraw"
  b_mintPreview :: "string \<Rightarrow> string \<Rightarrow> string \<Rightarrow> int \<Rightarrow> bool \<Rightarrow> string \<Rightarrow> string \<Rightarrow> raw_preview"
  b_constants :: engine_constants

type_synonym engine = "bridge option"

definition engineReady :: "engine \<Rightarrow> bool" where
  "engineReady e = (e \<noteq> None)"

definition must :: "engine \<Rightarrow> bridge result" where
  "must e = (case e of None \<Rightarrow> throw ''engine not loaded'' | Some b \<Rightarrow> Inr b)"

definition constants :: "engine \<Rightarrow> engine_constants result" where
  "constants e = rmap b_constants (must e)"

text \<open>'u': a base-unit string as an amount.\<close>

definition amount_of :: "string \<Rightarrow> string result" where
  "amount_of s = rmap fromUnits (big_int s)"

section \<open>Exact functions\<close>

record mint_estimate =
  me_ok :: bool
  me_shares :: string
  me_durationMultiplier :: string
  me_volumeMultiplier :: string
  me_combinedMultiplier :: string

definition mintQuote :: "engine \<Rightarrow> string \<Rightarrow> int \<Rightarrow> string \<Rightarrow> string \<Rightarrow> string \<Rightarrow> mint_estimate result" where
  "mintQuote e pr days rate volStart volEnd = rbind (must e) (\<lambda>b.
     let r = b_mintQuote b pr days rate volStart volEnd in
     rbind (amount_of (rq_shares r)) (\<lambda>sh. rbind (amount_of (rq_durationMultiplier r)) (\<lambda>dm.
     rbind (amount_of (rq_volumeMultiplier r)) (\<lambda>vm. rbind (amount_of (rq_combinedMultiplier r)) (\<lambda>cm.
       Inr \<lparr> me_ok = rq_ok r, me_shares = sh, me_durationMultiplier = dm,
             me_volumeMultiplier = vm, me_combinedMultiplier = cm \<rparr>)))))"

definition entitlement :: "engine \<Rightarrow> string \<Rightarrow> string \<Rightarrow> string \<Rightarrow> string result" where
  "entitlement e shares accStart accEnd = rbind (must e) (\<lambda>b. amount_of (b_entitlement b shares accStart accEnd))"

definition canPost :: "engine \<Rightarrow> string \<Rightarrow> string \<Rightarrow> bool result" where
  "canPost e shares threshold = rmap (\<lambda>b. b_canPost b shares threshold) (must e)"

record effective_value =
  ev_ok :: bool
  ev_value :: string
  ev_min :: string
  ev_max :: string
  ev_defaultValue :: string

definition effectiveValue :: "engine \<Rightarrow> string \<Rightarrow> governance_row list \<Rightarrow> effective_value result" where
  "effectiveValue e key members = rbind (must e) (\<lambda>b. let r = b_effectiveValue b key members in
     rbind (amount_of (re_value r)) (\<lambda>v. rbind (amount_of (re_min r)) (\<lambda>lo.
     rbind (amount_of (re_max r)) (\<lambda>hi. rbind (amount_of (re_defaultValue r)) (\<lambda>d.
       Inr \<lparr> ev_ok = re_ok r, ev_value = v, ev_min = lo, ev_max = hi, ev_defaultValue = d \<rparr>)))))"

definition consensusGroup :: "engine \<Rightarrow> (string \<times> string) list \<Rightarrow> (string \<times> string) list result" where
  "consensusGroup e rows = rbind (must e) (\<lambda>b.
     mapR (\<lambda>(a, s). rmap (\<lambda>s'. (a, s')) (amount_of s)) (b_consensusGroup b rows))"

text \<open>'String(n)' of a number that may be NaN.\<close>

definition show_num :: "int option \<Rightarrow> string" where
  "show_num v = (case v of None \<Rightarrow> ''NaN'' | Some i \<Rightarrow> show_int i)"

definition shareRate :: "engine \<Rightarrow> int option \<Rightarrow> int \<Rightarrow> string result" where
  "shareRate e genesis height = rbind (must e) (\<lambda>b. amount_of (b_shareRate b (show_num genesis) (show_int height)))"

text \<open>An empty answer is 'no figure'.\<close>

definition amount_or_none :: "string \<Rightarrow> string option result" where
  "amount_or_none v = (if v = [] then Inr None else rmap Some (amount_of v))"

definition shareRateHbd :: "engine \<Rightarrow> int option \<Rightarrow> int \<Rightarrow> string \<Rightarrow> string \<Rightarrow> string option result" where
  "shareRateHbd e genesis height lc hbd = rbind (must e) (\<lambda>b.
     amount_or_none (b_shareRateHbd b (show_num genesis) (show_int height) lc hbd))"

definition raw_daily_amounts :: "raw_daily \<Rightarrow> raw_daily result" where
  "raw_daily_amounts r = rbind (amount_of (rd_total r)) (\<lambda>t. rbind (amount_of (rd_proofOfBrain r)) (\<lambda>p.
     rbind (amount_of (rd_lshare r)) (\<lambda>l. rbind (amount_of (rd_liquidity r)) (\<lambda>q.
     rbind (amount_of (rd_viral r)) (\<lambda>v. rbind (amount_of (rd_deep r)) (\<lambda>d.
       Inr \<lparr> rd_total = t, rd_proofOfBrain = p, rd_lshare = l, rd_liquidity = q, rd_viral = v, rd_deep = d \<rparr>))))))"

definition dailyRewards :: "engine \<Rightarrow> int \<Rightarrow> int \<Rightarrow> raw_daily result" where
  "dailyRewards e genesis height = rbind (must e) (\<lambda>b.
     raw_daily_amounts (b_dailyRewards b (show_int genesis) (show_int height)))"

definition supplyLimits :: "engine \<Rightarrow> string \<Rightarrow> raw_supply result" where
  "supplyLimits e tot = rbind (must e) (\<lambda>b. let r = b_supplyLimits b tot in
     rbind (amount_of (ru_hardcap r)) (\<lambda>h. rbind (amount_of (ru_emissionCap r)) (\<lambda>c.
     rbind (amount_of (ru_maxEver r)) (\<lambda>m. rbind (amount_of (ru_lost r)) (\<lambda>l.
       Inr \<lparr> ru_hardcap = h, ru_emissionCap = c, ru_maxEver = m, ru_lost = l \<rparr>)))))"

definition poolApy :: "engine \<Rightarrow> string \<Rightarrow> string \<Rightarrow> string \<Rightarrow> string \<Rightarrow> string option result" where
  "poolApy e daily lc shares weight = rbind (must e) (\<lambda>b.
     rbind (toBaseUnitArg daily) (\<lambda>d. rbind (toBaseUnitArg lc) (\<lambda>l.
     rbind (toBaseUnitArg shares) (\<lambda>s. rbind (toBaseUnitArg weight) (\<lambda>w.
       case b_poolApy b d l s w of (ok, apy) \<Rightarrow> if ok then rmap Some (amount_of apy) else Inr None)))))"

definition durationMultiplier :: "engine \<Rightarrow> int \<Rightarrow> string result" where
  "durationMultiplier e days = rbind (must e) (\<lambda>b. amount_of (b_durationMultiplier b days))"

definition volumeMultiplier :: "engine \<Rightarrow> string \<Rightarrow> string \<Rightarrow> string \<Rightarrow> string result" where
  "volumeMultiplier e p s t = rbind (must e) (\<lambda>b. amount_of (b_volumeMultiplier b p s t))"

definition loyaltyMultiplier :: "engine \<Rightarrow> int \<Rightarrow> string result" where
  "loyaltyMultiplier e age = rbind (must e) (\<lambda>b. amount_of (b_loyaltyMultiplier b age))"

definition voteCost :: "engine \<Rightarrow> int \<Rightarrow> string result" where
  "voteCost e pct = rbind (must e) (\<lambda>b. amount_of (b_voteCost b pct))"

definition voteWeight :: "engine \<Rightarrow> string \<Rightarrow> string \<Rightarrow> string result" where
  "voteWeight e shares spent = rbind (must e) (\<lambda>b. amount_of (b_voteWeight b shares spent))"

definition votePower :: "engine \<Rightarrow> string \<Rightarrow> int option \<Rightarrow> int \<Rightarrow> nat \<Rightarrow> string result" where
  "votePower e pw lastH height w = rbind (must e) (\<lambda>b.
     amount_of (b_votePower b pw (show_num lastH) (show_int height) w))"

definition trancheView :: "engine \<Rightarrow> tranche_args \<Rightarrow> raw_tranche result" where
  "trancheView e t = rbind (must e) (\<lambda>b. let r = b_trancheView b t in
     rbind (amount_of (rt_loyalty r)) (\<lambda>lo. rbind (amount_of (rt_value_lc r)) (\<lambda>lc.
     rbind (amount_of (rt_value_hbd r)) (\<lambda>hbd. rbind (amount_of (rt_pending_reward r)) (\<lambda>p.
       Inr \<lparr> rt_age_days = rt_age_days r, rt_loyalty = lo, rt_value_lc = lc, rt_value_hbd = hbd,
             rt_pending_reward = p \<rparr>)))))"

definition trancheHealth :: "engine \<Rightarrow> int \<Rightarrow> int \<Rightarrow> (nat \<times> int \<times> int) result" where
  "trancheHealth e touch height = rmap (\<lambda>b. b_trancheHealth b (show_int touch) (show_int height)) (must e)"

definition routePayout :: "engine \<Rightarrow> string \<Rightarrow> (string \<times> string) result" where
  "routePayout e amount = rbind (must e) (\<lambda>b. case b_routePayout b amount of (l, p) \<Rightarrow>
     rbind (amount_of l) (\<lambda>l'. rmap (\<lambda>p'. (l', p')) (amount_of p)))"

definition blockSplit :: "engine \<Rightarrow> string \<Rightarrow> raw_split result" where
  "blockSplit e amount = rbind (must e) (\<lambda>b. let r = b_blockSplit b amount in
     rbind (amount_of (rk_proofOfBrain r)) (\<lambda>p. rbind (amount_of (rk_lshare r)) (\<lambda>l.
     rbind (amount_of (rk_liquidity r)) (\<lambda>q. rbind (amount_of (rk_viral r)) (\<lambda>v.
     rbind (amount_of (rk_deep r)) (\<lambda>d.
       Inr \<lparr> rk_proofOfBrain = p, rk_lshare = l, rk_liquidity = q, rk_viral = v, rk_deep = d \<rparr>))))))"

section \<open>Estimates from live pool state\<close>

record swap_estimate =
  se_ok :: bool
  se_amountOut :: string
  se_rate :: string
  se_priceImpactPct :: string

definition optional_amount :: "string option \<Rightarrow> string result" where
  "optional_amount v = (case v of None \<Rightarrow> Inr ''0.00000000''
     | Some s \<Rightarrow> if s = [] then Inr ''0.00000000'' else amount_of s)"

definition estimateSwap :: "engine \<Rightarrow> string \<Rightarrow> string \<Rightarrow> string \<Rightarrow> swap_estimate result" where
  "estimateSwap e rin rout amount = rbind (must e) (\<lambda>b. let r = b_swapOut b rin rout amount in
     rbind (amount_of (rs_amountOut r)) (\<lambda>a. rbind (optional_amount (rs_rate r)) (\<lambda>rt.
     rbind (optional_amount (rs_priceImpactPct r)) (\<lambda>pi.
       Inr \<lparr> se_ok = rs_ok r, se_amountOut = a, se_rate = rt, se_priceImpactPct = pi \<rparr>))))"

definition estimateRewardShare :: "engine \<Rightarrow> string \<Rightarrow> string \<Rightarrow> string \<Rightarrow> string result" where
  "estimateRewardShare e pool mine tot = rbind (must e) (\<lambda>b. amount_of (b_rewardShare b pool mine tot))"

definition lcToHbd :: "engine \<Rightarrow> string \<Rightarrow> string \<Rightarrow> string \<Rightarrow> string option result" where
  "lcToHbd e amount lc hbd = rbind (must e) (\<lambda>b. amount_or_none (b_lcToHbd b amount lc hbd))"

record liquidity_estimate =
  le_ok :: bool
  le_isFirstDeposit :: bool
  le_hbdNeeded :: string
  le_shares :: string

definition estimateLiquidity :: "engine \<Rightarrow> string \<Rightarrow> string \<Rightarrow> string \<Rightarrow> string \<Rightarrow> liquidity_estimate result" where
  "estimateLiquidity e lcIn lc hbd shares = rbind (must e) (\<lambda>b. let r = b_liquidityQuote b lcIn lc hbd shares in
     rbind (amount_of (rl_hbdNeeded r)) (\<lambda>h. rmap (\<lambda>s.
       \<lparr> le_ok = rl_ok r, le_isFirstDeposit = rl_isFirstDeposit r, le_hbdNeeded = h, le_shares = s \<rparr>)
       (amount_of (rl_shares r))))"

definition estimateWithdraw :: "engine \<Rightarrow> string \<Rightarrow> string \<Rightarrow> string \<Rightarrow> string \<Rightarrow> (bool \<times> string \<times> string) result" where
  "estimateWithdraw e shares tot lc hbd = rbind (must e) (\<lambda>b. let r = b_withdrawQuote b shares tot lc hbd in
     rbind (amount_of (rw_lc r)) (\<lambda>l. rmap (\<lambda>h. (rw_ok r, l, h)) (amount_of (rw_hbd r))))"

record mint_like =
  ml_principal :: string
  ml_shares :: string
  ml_start_height :: int
  ml_days :: int
  ml_good_accounting :: bool

record mint_preview =
  mp_toOwner :: string
  mp_toRewardPool :: string
  mp_early :: bool
  mp_mature :: bool
  mp_canArmGoodAccounting :: bool
  mp_recoveryFraction :: string
  mp_bleedRemaining :: string
  mp_maturityHeight :: "int option"
  mp_liquidationHeight :: "int option"

text \<open>'Number(s)' of an integer's digits; None is NaN.\<close>

definition number_of :: "string \<Rightarrow> int option" where
  "number_of s = (case big_int s of Inl _ \<Rightarrow> None | Inr v \<Rightarrow> Some v)"

definition previewMintClose :: "engine \<Rightarrow> mint_like \<Rightarrow> int \<Rightarrow> string \<Rightarrow> mint_preview result" where
  "previewMintClose e m height accrued = rbind (must e) (\<lambda>b.
     rbind (toUnits (ml_principal m)) (\<lambda>p. rbind (toUnits (ml_shares m)) (\<lambda>s.
     let r = b_mintPreview b (show_int p) (show_int s) (show_int (ml_start_height m)) (ml_days m)
               (ml_good_accounting m) (show_int height) accrued in
     rbind (amount_of (rp_toOwner r)) (\<lambda>ow. rbind (amount_of (rp_toRewardPool r)) (\<lambda>po.
     rbind (amount_of (rp_recoveryFraction r)) (\<lambda>rf. rbind (amount_of (rp_bleedRemaining r)) (\<lambda>bl.
       Inr \<lparr> mp_toOwner = ow, mp_toRewardPool = po, mp_early = rp_early r, mp_mature = rp_mature r,
             mp_canArmGoodAccounting = rp_canArm r, mp_recoveryFraction = rf, mp_bleedRemaining = bl,
             mp_maturityHeight = number_of (rp_maturityHeight r), mp_liquidationHeight = number_of (rp_liquidationHeight r) \<rparr>)))))))"

section \<open>Nothing is rounded at the boundary\<close>

lemma amount_of_show [simp]: "amount_of (show_int i) = Inr (fromUnits i)"
  by (simp add: amount_of_def)

text \<open>A figure the engine gives in base units reaches the page as an amount that
  parses back to the same integer.\<close>

lemma amount_of_exact: "amount_of s = Inr a \<Longrightarrow> toUnits a = big_int s"
  by (auto simp: amount_of_def rmap_Inr_iff js_num)

lemma must_None [simp]: "must None = throw ''engine not loaded''" "must (Some b) = Inr b"
  by (simp_all add: must_def)

lemma previewMintClose_args:
  assumes "ml_principal m = fromUnits p" "ml_shares m = fromUnits s"
  shows "previewMintClose (Some b) m height accrued =
    (let r = b_mintPreview b (show_int p) (show_int s) (show_int (ml_start_height m)) (ml_days m)
       (ml_good_accounting m) (show_int height) accrued in
     rbind (amount_of (rp_toOwner r)) (\<lambda>ow. rbind (amount_of (rp_toRewardPool r)) (\<lambda>po.
     rbind (amount_of (rp_recoveryFraction r)) (\<lambda>rf. rbind (amount_of (rp_bleedRemaining r)) (\<lambda>bl.
       Inr \<lparr> mp_toOwner = ow, mp_toRewardPool = po, mp_early = rp_early r, mp_mature = rp_mature r,
             mp_canArmGoodAccounting = rp_canArm r, mp_recoveryFraction = rf, mp_bleedRemaining = bl,
             mp_maturityHeight = number_of (rp_maturityHeight r), mp_liquidationHeight = number_of (rp_liquidationHeight r) \<rparr>)))))"
  by (simp add: previewMintClose_def assms js_num Let_def)

section \<open>An engine for the worked examples\<close>

text \<open>The short days of the test build, and zero for every figure.\<close>

definition still_constants :: engine_constants where
  "still_constants = \<lparr>ec_decimals = 8, ec_unit = ''100000000'', ec_multScale = ''100000000'', ec_minMintDays = 1,
     ec_maxMintDays = 1095, ec_minMintAmount = ''100000000'', ec_graceDays = 14, ec_bleedDays = 180,
     ec_goodAcctArmDays = 7, ec_goodAcctGrace = 365, ec_loyaltyMaxDays = 365, ec_migrationMintDays = 91,
     ec_heightsPerDay = ''120'', ec_expiryChunkSize = 20, ec_maxRetirePerWalk = 60, ec_userRetireBudget = 10,
     ec_heightsPerYear = ''43800'', ec_secondsPerHeight = 3, ec_viralPayoutDays = 7, ec_deepPayoutDays = 30,
     ec_fullVoteCostPct = 2, ec_paramVolumeStart = ''mint.volume_start'', ec_paramVolumeEnd = ''mint.volume_end'',
     ec_paramPostThresholdViral = ''post.threshold_viral'', ec_paramPostThresholdDeep = ''post.threshold_deep'',
     ec_paramPostThresholdComment = ''post.threshold_comment'', ec_paramPromoteMinBurn = ''promote.min_burn'',
     ec_promoteCutoffPct = 50\<rparr>"

definition still_bridge :: bridge where
  "still_bridge = \<lparr>
     b_mintQuote = (\<lambda>_ _ _ _ _. \<lparr>rq_ok = True, rq_shares = ''0'', rq_durationMultiplier = ''0'', rq_volumeMultiplier = ''0'', rq_combinedMultiplier = ''0''\<rparr>),
     b_shareRate = (\<lambda>_ _. ''0''), b_shareRateHbd = (\<lambda>_ _ _ _. ''0''),
     b_supplyLimits = (\<lambda>_. \<lparr>ru_hardcap = ''0'', ru_emissionCap = ''0'', ru_maxEver = ''0'', ru_lost = ''0''\<rparr>),
     b_dailyRewards = (\<lambda>_ _. \<lparr>rd_total = ''0'', rd_proofOfBrain = ''0'', rd_lshare = ''0'', rd_liquidity = ''0'', rd_viral = ''0'', rd_deep = ''0''\<rparr>),
     b_poolApy = (\<lambda>_ _ _ _. (False, ''0'')), b_durationMultiplier = (\<lambda>_. ''0''), b_volumeMultiplier = (\<lambda>_ _ _. ''0''),
     b_loyaltyMultiplier = (\<lambda>_. ''0''), b_voteCost = (\<lambda>_. ''0''), b_canPost = (\<lambda>_ _. True), b_voteWeight = (\<lambda>_ _. ''0''),
     b_votePower = (\<lambda>p _ _ _. p),
     b_trancheView = (\<lambda>_. \<lparr>rt_age_days = 0, rt_loyalty = ''0'', rt_value_lc = ''0'', rt_value_hbd = ''0'', rt_pending_reward = ''0''\<rparr>),
     b_trancheHealth = (\<lambda>_ _. (0, 0, 0)), b_routePayout = (\<lambda>a. (a, ''0'')),
     b_blockSplit = (\<lambda>_. \<lparr>rk_proofOfBrain = ''0'', rk_lshare = ''0'', rk_liquidity = ''0'', rk_viral = ''0'', rk_deep = ''0''\<rparr>),
     b_entitlement = (\<lambda>_ _ _. ''0''),
     b_effectiveValue = (\<lambda>_ _. \<lparr>re_ok = True, re_value = ''0'', re_min = ''0'', re_max = ''0'', re_defaultValue = ''0''\<rparr>),
     b_consensusGroup = (\<lambda>m. m), b_swapOut = (\<lambda>_ _ _. \<lparr>rs_ok = False, rs_amountOut = ''0'', rs_rate = None, rs_priceImpactPct = None\<rparr>),
     b_rewardShare = (\<lambda>_ _ _. ''0''), b_lcToHbd = (\<lambda>_ _ _. []),
     b_liquidityQuote = (\<lambda>_ _ _ _. \<lparr>rl_ok = False, rl_isFirstDeposit = False, rl_hbdNeeded = ''0'', rl_shares = ''0''\<rparr>),
     b_withdrawQuote = (\<lambda>_ _ _ _. \<lparr>rw_ok = False, rw_lc = ''0'', rw_hbd = ''0''\<rparr>),
     b_mintPreview = (\<lambda>p _ _ _ _ _ _. \<lparr>rp_toOwner = p, rp_toRewardPool = ''0'', rp_early = False, rp_maturityHeight = ''0'', rp_mature = True,
       rp_canArm = True, rp_recoveryFraction = ''0'', rp_bleedRemaining = ''0'', rp_liquidationHeight = ''0''\<rparr>),
     b_constants = still_constants\<rparr>"

end
