(* ===== verification/JsNumber.thy ===== *)
theory JsNumber
  imports JsPrelude
begin

text \<open>
  The few places where the source multiplies or divides a number that is not a
  BigInt: binary doubles with 53 significant bits, rounded to nearest, ties to
  even.  A double is kept as an integer over a power of two, so that ceilings and
  'toFixed' are exact.
\<close>

fun bit_length :: "nat \<Rightarrow> nat" where
  "bit_length n = (if n = 0 then 0 else 1 + bit_length (n div 2))"

declare bit_length.simps [simp del]

definition half_even :: "int \<Rightarrow> int \<Rightarrow> int" where
  "half_even p q = (let w = p div q; r = 2 * (p mod q) in
     if r < q then w else if r > q then w + 1 else if even w then w else w + 1)"

definition ceil_div :: "int \<Rightarrow> int \<Rightarrow> int" where
  "ceil_div p q = - ((- p) div q)"

text \<open>A non-negative integer cut to 53 significant bits.\<close>

definition fl53 :: "int \<Rightarrow> int" where
  "fl53 n = (let d = bit_length (nat n) - 53 in half_even n (2 ^ d) * 2 ^ d)"

text \<open>'Math.ceil(n * c)' for a non-negative whole n and the constant whose double
  is m / 2 ^ k.\<close>

definition ceil_mul :: "int \<Rightarrow> nat \<Rightarrow> int \<Rightarrow> int" where
  "ceil_mul m k n = ceil_div (fl53 (n * m)) (2 ^ k)"

text \<open>The doubles nearest 1.3, 0.6 and 1.08.\<close>

definition ceil_13 :: "int \<Rightarrow> int" where "ceil_13 n = ceil_mul 5854679515581645 52 n"
definition ceil_06 :: "int \<Rightarrow> int" where "ceil_06 n = ceil_mul 5404319552844595 53 n"

definition DOUBLE_108 :: int where "DOUBLE_108 = 4863887597560136"

text \<open>The quotient of two whole numbers, as mantissa and scale.\<close>

definition fl_div :: "int \<Rightarrow> int \<Rightarrow> int \<times> nat" where
  "fl_div a b = (let j = 54 + bit_length (nat b) - bit_length (nat a);
       j' = (if a * 2 ^ j div b \<ge> 2 ^ 53 then j - 1 else j);
       j'' = (if a * 2 ^ j' div b \<ge> 2 ^ 53 then j' - 1 else j')
     in (half_even (a * 2 ^ j'') b, j''))"

text \<open>'x.toFixed(2)' of a non-negative double: the nearest hundredth of its exact
  value.\<close>

definition to_fixed2 :: "int \<times> nat \<Rightarrow> string" where
  "to_fixed2 x = (case x of (m, j) \<Rightarrow> let h = (200 * m + 2 ^ j) div (2 * 2 ^ j) in
     show_int (h div 100) @ ''.'' @ pad_start 2 (CHR ''0'') (show_int (h mod 100)))"

text \<open>'(n / 100).toFixed(2)' of a whole number of hundredths.\<close>

definition hundredths :: "int \<Rightarrow> string" where
  "hundredths n = (if n < 0 then ''-'' else []) @ show_int (\<bar>n\<bar> div 100) @ ''.'' @ pad_start 2 (CHR ''0'') (show_int (\<bar>n\<bar> mod 100))"

lemma ceil_div_le: "0 < q \<Longrightarrow> p \<le> ceil_div p q * q"
  using div_mult_le_int [of q "- p"] by (simp add: ceil_div_def)

lemma ceil_div_nonneg: "0 < q \<Longrightarrow> 0 \<le> p \<Longrightarrow> 0 \<le> ceil_div p q"
  by (simp add: ceil_div_def div_le_intI)

lemma half_even_nonneg: "0 < q \<Longrightarrow> 0 \<le> p \<Longrightarrow> 0 \<le> half_even p q"
  by (simp add: half_even_def Let_def pos_imp_zdiv_nonneg_iff)

lemma ceil_mul_nonneg: "0 \<le> m \<Longrightarrow> 0 \<le> n \<Longrightarrow> 0 \<le> ceil_mul m k n"
  by (simp add: ceil_mul_def fl53_def Let_def ceil_div_nonneg half_even_nonneg)

lemma ceil_13_nonneg [simp]: "0 \<le> n \<Longrightarrow> 0 \<le> ceil_13 n"
  by (simp add: ceil_13_def ceil_mul_nonneg)

lemma ceil_06_nonneg [simp]: "0 \<le> n \<Longrightarrow> 0 \<le> ceil_06 n"
  by (simp add: ceil_06_def ceil_mul_nonneg)

end
