(* ===== verification/Wallet.thy ===== *)
theory Wallet
  imports Pools HiveContent JsNumber "HOL-Library.State_Monad"
begin

text \<open>
  'AiohaWallet' of 'api/src/aioha-signer.ts': what the wallet is asked to sign,
  the dry run of a call, the credit meter with its cache, and the token contract
  read once.  The wallet extension, the node and the clock are parameters in the
  record 'wallet_env'; the wallet's own fields are the state, and the state also
  keeps the list of everything the user was asked to sign, in order, so that a
  theorem can say what was and was not sent.
\<close>

section \<open>Calls, operations and the world outside\<close>

datatype key_type = ActiveKey | PostingKey

text \<open>A 'transfer.allow' intent.\<close>

record intent =
  it_token :: string
  it_limit :: string

record contract_call =
  cl_action :: string
  cl_payload :: string
  cl_rcLimit :: int
  cl_intents :: "intent list"
  cl_contract :: "string option"

datatype hive_meta = NewMeta post_metadata | EditedMeta "(string \<times> json) list"

text \<open>The operations of a Hive transaction: a custom_json with its two authority
  lists and text, a vote in basis points (None is NaN), and a comment.\<close>

datatype hive_op =
    CustomJson "string list" "string list" string
  | HiveVote string string string "int option"
  | HiveComment string string string string string string hive_meta

text \<open>What the extension is asked to do.  Amounts of Hive assets are passed through
  as the decimal text of the number.\<close>

datatype wallet_request =
    SignAndBroadcast "hive_op list" key_type
  | VscCallContract string string string int "intent list" key_type
  | HiveTransfer string string string string
  | VscWithdraw string string string
  | VscTransfer string string string string
  | WriteComment "string option" string string string string hive_meta

record wallet_reply =
  wr_success :: bool
  wr_result :: "string option"
  wr_error :: "string option"

record sim_call =
  sc_contract :: string
  sc_action :: string
  sc_payload :: string
  sc_rcLimit :: int
  sc_intents :: "intent list"

record sim_row =
  sr_success :: bool
  sr_err :: "string option"
  sr_gas :: int

text \<open>The node, the extension and the page.  'en_reply n r' is the extension's
  answer to its n-th request; 'en_simulate' gives None for a missing list.\<close>

record wallet_env =
  en_contract :: string
  en_netId :: string
  en_rcLimit :: int
  en_siteUrl :: string
  en_user :: "string option"
  en_loggedIn :: bool
  en_now :: int
  en_reply :: "nat \<Rightarrow> wallet_request \<Rightarrow> wallet_reply"
  en_simulate :: "string \<Rightarrow> sim_call list \<Rightarrow> sim_row list option result"
  en_accountRc :: "string \<Rightarrow> (int option \<times> int option) option result"
  en_cfgToken :: "string option result"
  en_confirm :: "(int \<Rightarrow> bool) option"
  en_locale :: "int \<Rightarrow> string"

record rc_reading =
  rr_account :: string
  rr_amount :: "int option"
  rr_at :: int

record wallet_state =
  ws_rc :: "rc_reading option"
  ws_maxRc :: "int option"
  ws_tokenChecked :: bool
  ws_token :: "string option"
  ws_asked :: "wallet_request list"

definition fresh_wallet :: wallet_state where
  "fresh_wallet = \<lparr>ws_rc = None, ws_maxRc = None, ws_tokenChecked = False, ws_token = None, ws_asked = []\<rparr>"

type_synonym 'a wallet = "(wallet_state, 'a) state"

section \<open>Small pieces\<close>

definition qualifyAuth :: "string \<Rightarrow> string" where
  "qualifyAuth account = (if CHR '':'' \<in> set account then account else ''hive:'' @ account)"

definition milliLimitStr :: "int \<Rightarrow> string" where
  "milliLimitStr milli = show_int (bdiv milli 1000) @ ''.'' @ pad_start 3 (CHR ''0'') (show_int (bmod milli 1000))"

text \<open>A case-insensitive literal anywhere in a text.\<close>

definition has_text :: "string \<Rightarrow> string \<Rightarrow> bool" where
  "has_text lit s = str_includes (map to_lower lit) (map to_lower s)"

text \<open>'<[^>]+>' replaced by a space, from the left.\<close>

function drop_tags :: "string \<Rightarrow> string" where
  "drop_tags [] = []"
| "drop_tags (c # s) = (let body = takeWhile (\<lambda>d. d \<noteq> CHR ''>'') s; rest = dropWhile (\<lambda>d. d \<noteq> CHR ''>'') s in
     if c = CHR ''<'' \<and> body \<noteq> [] \<and> rest \<noteq> [] then CHR '' '' # drop_tags (tl rest) else c # drop_tags s)"
  by pat_completeness auto
termination
  by (relation "measure length") (auto simp: less_Suc_eq_le intro: le_trans [OF diff_le_self length_dropWhile_le])

fun squeeze_spaces :: "bool \<Rightarrow> string \<Rightarrow> string" where
  "squeeze_spaces sp [] = []"
| "squeeze_spaces sp (c # s) = (if is_space c then (if sp then squeeze_spaces True s else CHR '' '' # squeeze_spaces True s)
     else c # squeeze_spaces False s)"

fun ordered_texts :: "string list \<Rightarrow> string \<Rightarrow> bool" where
  "ordered_texts [] s = True"
| "ordered_texts (l # ls) [] = False"
| "ordered_texts (l # ls) (c # s) =
     ((starts_with (map to_lower l) (map to_lower (c # s)) \<and> ordered_texts ls (drop (length l) (c # s)))
      \<or> ordered_texts (l # ls) s)"

definition em_dash :: string where
  "em_dash = [CHR '' '', CHR 0xE2, CHR 0x80, CHR 0x94, CHR '' '']"

definition hiveReason :: "string option \<Rightarrow> string" where
  "hiveReason raw = (let err = js_trim (squeeze_spaces False (drop_tags (nullish raw []))) in
     if err = [] then ''rejected''
     else if has_text ''identical to this vote'' err \<or> has_text ''vote is the same'' err then
       ''you have already voted on this at that weight on Hive'' @ em_dash @ ''move the slider to a different weight and cast again. A vote is replaced by re-voting, never removed.''
     else if ordered_texts [''only'', ''vote'', ''once''] err \<or> has_text ''cannot vote again'' err
          \<or> has_text ''vote_regeneration'' err then
       ''Hive is rate-limiting your votes'' @ em_dash @ ''wait a few seconds and cast again.''
     else if ordered_texts [''exceeded'', ''bandwidth''] err \<or> has_text ''resource credits'' err
          \<or> has_text ''insufficient rc'' err then
       ''your Hive account is out of resource credits for now. Hive RC refills on its own over the next hours.''
     else if ordered_texts [''comment'', ''same as before''] err \<or> has_text ''Comment already exists'' err then
       ''this text is identical to what you already published'' @ em_dash @ ''change something and try again.''
     else if has_text ''missing required posting authority'' err \<or> has_text ''missing required active authority'' err then
       ''your wallet did not grant the authority this needs. Sign in again, or unlock the wallet and retry.''
     else err)"

section \<open>Asking the extension\<close>

definition ask :: "wallet_env \<Rightarrow> wallet_request \<Rightarrow> wallet_reply wallet" where
  "ask env r = do {
     s \<leftarrow> State_Monad.get;
     _ \<leftarrow> State_Monad.set (s\<lparr>ws_asked := ws_asked s @ [r]\<rparr>);
     State_Monad.return (en_reply env (length (ws_asked s)) r)
   }"

definition forgetRc :: "unit wallet" where
  "forgetRc = do { s \<leftarrow> State_Monad.get; State_Monad.set (s\<lparr>ws_rc := None\<rparr>) }"

text \<open>The four places that turn a reply into a result.\<close>

definition tx_of_reply :: "wallet_reply \<Rightarrow> string \<Rightarrow> tx_result" where
  "tx_of_reply r okmsg = \<lparr>tr_ok = wr_success r, tr_msg = (if wr_success r then okmsg else hiveReason (wr_error r)),
     tr_height = 0, tr_txId = (if wr_success r then wr_result r else None)\<rparr>"

definition refused :: "string \<Rightarrow> tx_result" where
  "refused msg = \<lparr>tr_ok = False, tr_msg = msg, tr_height = 0, tr_txId = None\<rparr>"

definition depositHbd :: "wallet_env \<Rightarrow> string \<Rightarrow> string \<Rightarrow> tx_result result wallet" where
  "depositHbd env amount asset = (case en_user env of
     None \<Rightarrow> State_Monad.return (throw ''not signed in'')
   | Some user \<Rightarrow> do {
       r \<leftarrow> ask env (HiveTransfer ''vsc.gateway'' amount (if asset = ''HIVE'' then ''HIVE'' else ''HBD'') (''to='' @ user));
       State_Monad.return (Inr (tx_of_reply r ''submitted''))
     })"

definition withdrawHbd :: "wallet_env \<Rightarrow> string \<Rightarrow> string option \<Rightarrow> string \<Rightarrow> tx_result result wallet" where
  "withdrawHbd env amount to asset = (case en_user env of
     None \<Rightarrow> State_Monad.return (throw ''not signed in'')
   | Some user \<Rightarrow> do {
       r \<leftarrow> ask env (VscWithdraw (case to of Some t \<Rightarrow> if t = [] then user else t | None \<Rightarrow> user) amount
              (if asset = ''HIVE'' then ''HIVE'' else ''HBD''));
       State_Monad.return (Inr (tx_of_reply r ''submitted''))
     })"

definition sendNative :: "wallet_env \<Rightarrow> string \<Rightarrow> string \<Rightarrow> string \<Rightarrow> string \<Rightarrow> tx_result result wallet" where
  "sendNative env to amount asset memo = (if en_user env = None then State_Monad.return (throw ''not signed in'')
     else do {
       r \<leftarrow> ask env (VscTransfer to amount (if asset = ''HIVE'' then ''HIVE'' else ''HBD'') memo);
       State_Monad.return (Inr (tx_of_reply r ''submitted''))
     })"

section \<open>Broadcasting\<close>

definition intent_json :: "intent \<Rightarrow> json" where
  "intent_json i = JObj [(''type'', JStr ''transfer.allow''),
     (''args'', JObj [(''token'', JStr (it_token i)), (''limit'', JStr (it_limit i))])]"

definition call_json :: "wallet_env \<Rightarrow> contract_call \<Rightarrow> string \<Rightarrow> json" where
  "call_json env c contractId = JObj [(''net_id'', JStr (en_netId env)), (''contract_id'', JStr contractId),
     (''action'', JStr (cl_action c)), (''payload'', JStr (cl_payload c)),
     (''rc_limit'', JNum (cl_rcLimit c)), (''intents'', JArr (map intent_json (cl_intents c)))]"

definition vscOp :: "wallet_env \<Rightarrow> contract_call \<Rightarrow> string \<Rightarrow> key_type \<Rightarrow> hive_op result" where
  "vscOp env c contractId key = (case en_user env of
     None \<Rightarrow> throw ''not signed in''
   | Some user \<Rightarrow> Inr (CustomJson (if key = ActiveKey then [user] else []) (if key = PostingKey then [user] else [])
       (stringify (call_json env c contractId))))"

definition broadcast :: "wallet_env \<Rightarrow> hive_op list \<Rightarrow> key_type \<Rightarrow> tx_result wallet" where
  "broadcast env ops key = do {
     _ \<leftarrow> forgetRc;
     r \<leftarrow> ask env (SignAndBroadcast ops key);
     State_Monad.return (tx_of_reply r ''submitted'')
   }"

definition broadcastCalls :: "wallet_env \<Rightarrow> contract_call list \<Rightarrow> string \<Rightarrow> key_type \<Rightarrow> hive_op list \<Rightarrow> tx_result result wallet" where
  "broadcastCalls env calls contractId key hiveOps =
     (case mapR (\<lambda>c. vscOp env c (nullish (cl_contract c) contractId) key) calls of
        Inl e \<Rightarrow> State_Monad.return (Inl e)
      | Inr ops \<Rightarrow> do { r \<leftarrow> broadcast env (hiveOps @ ops) key; State_Monad.return (Inr r) })"

definition broadcastWithCall :: "wallet_env \<Rightarrow> hive_op list \<Rightarrow> contract_call \<Rightarrow> string \<Rightarrow> contract_call list \<Rightarrow> tx_result result wallet" where
  "broadcastWithCall env hiveOps call contractId extra =
     (case mapR (\<lambda>c. vscOp env c contractId PostingKey) (call # extra) of
        Inl e \<Rightarrow> State_Monad.return (Inl e)
      | Inr ops \<Rightarrow> do { r \<leftarrow> broadcast env (hiveOps @ ops) PostingKey; State_Monad.return (Inr r) })"

definition rawCall :: "wallet_env \<Rightarrow> string \<Rightarrow> string \<Rightarrow> string \<Rightarrow> int \<Rightarrow> tx_result result wallet" where
  "rawCall env contractId action payload rcLimit = broadcastCalls env
     [\<lparr>cl_action = action, cl_payload = payload, cl_rcLimit = rcLimit, cl_intents = [], cl_contract = Some contractId\<rparr>]
     contractId ActiveKey []"

section \<open>Reading the node\<close>

definition RC_CACHE_MS :: int where "RC_CACHE_MS = 2500"

definition readRc :: "wallet_env \<Rightarrow> string \<Rightarrow> int option wallet" where
  "readRc env account = (case en_accountRc env (qualifyAuth account) of
     Inr (Some (Some amount, Some mx)) \<Rightarrow>
       if mx \<noteq> 0 then do {
         s \<leftarrow> State_Monad.get;
         _ \<leftarrow> State_Monad.set (s\<lparr>ws_maxRc := Some mx\<rparr>);
         State_Monad.return (Some amount)
       } else State_Monad.return None
   | _ \<Rightarrow> State_Monad.return None)"

definition availableRc :: "wallet_env \<Rightarrow> string \<Rightarrow> int option wallet" where
  "availableRc env account = do {
     s \<leftarrow> State_Monad.get;
     (case ws_rc s of
        Some c \<Rightarrow> if rr_account c = account \<and> en_now env - rr_at c < RC_CACHE_MS then State_Monad.return (rr_amount c)
          else do {
            a \<leftarrow> readRc env account;
            t \<leftarrow> State_Monad.get;
            _ \<leftarrow> State_Monad.set (t\<lparr>ws_rc := Some \<lparr>rr_account = account, rr_amount = a, rr_at = en_now env\<rparr>\<rparr>);
            State_Monad.return a
          }
      | None \<Rightarrow> do {
            a \<leftarrow> readRc env account;
            t \<leftarrow> State_Monad.get;
            _ \<leftarrow> State_Monad.set (t\<lparr>ws_rc := Some \<lparr>rr_account = account, rr_amount = a, rr_at = en_now env\<rparr>\<rparr>);
            State_Monad.return a
          })
   }"

definition tokenContract :: "wallet_env \<Rightarrow> string option wallet" where
  "tokenContract env = do {
     s \<leftarrow> State_Monad.get;
     if ws_tokenChecked s then State_Monad.return (ws_token s)
     else do {
       let t = (case en_cfgToken env of Inr (Some i) \<Rightarrow> if i = [] then None else Some i | _ \<Rightarrow> None);
       _ \<leftarrow> State_Monad.set (s\<lparr>ws_tokenChecked := True, ws_token := t\<rparr>);
       State_Monad.return t
     }
   }"

datatype sim_outcome = SimOk int | SimRefused string bool

definition gas_limit_hit :: "string \<Rightarrow> bool" where
  "gas_limit_hit m = (has_text ''gas_limit'' m \<or> has_text ''cost limit'' m)"

definition simulate :: "wallet_env \<Rightarrow> string \<Rightarrow> string \<Rightarrow> string \<Rightarrow> intent list \<Rightarrow> int \<Rightarrow> contract_call option \<Rightarrow> sim_outcome result" where
  "simulate env account action payload intents probe precall =
     rbind (en_simulate env (qualifyAuth account)
       ((case precall of None \<Rightarrow> [] | Some p \<Rightarrow>
           [\<lparr>sc_contract = nullish (cl_contract p) [], sc_action = cl_action p, sc_payload = cl_payload p,
             sc_rcLimit = probe, sc_intents = []\<rparr>])
        @ [\<lparr>sc_contract = en_contract env, sc_action = action, sc_payload = payload, sc_rcLimit = probe,
            sc_intents = intents\<rparr>]))
     (\<lambda>answer. let rows = nullish answer [] in
        if precall \<noteq> None \<and> rows \<noteq> [] \<and> \<not> sr_success (hd rows) then
          (let m = nullish (sr_err (hd rows)) ''the allowance call was refused'' in Inr (SimRefused m (gas_limit_hit m)))
        else if rows = [] then throw ''simulation returned nothing''
        else if sr_success (last rows) then Inr (SimOk (sr_gas (last rows)))
        else (let m = nullish (sr_err (last rows)) ''refused'' in Inr (SimRefused m (gas_limit_hit m))))"

section \<open>Bitcoin and the native pool\<close>

definition btc_payload :: "int \<Rightarrow> string \<Rightarrow> json" where
  "btc_payload sats to = JObj [(''amount'', JStr (show_int sats)), (''to'', JStr to), (''deduct_fee'', JBool True)]"

text \<open>'Math.min(100000, Math.ceil((gas / 100000) * 1.08))'.\<close>

definition btc_rc :: "int \<Rightarrow> int" where
  "btc_rc gas = (case fl_div gas 100000 of (m, j) \<Rightarrow> min 100000 (ceil_div (fl53 (m * DOUBLE_108)) (2 ^ (j + 52))))"

definition caller_json :: "wallet_env \<Rightarrow> string \<Rightarrow> string \<Rightarrow> json \<Rightarrow> int \<Rightarrow> string" where
  "caller_json env user action payload rc = stringify (JObj [(''net_id'', JStr (en_netId env)),
     (''caller'', JStr (''hive:'' @ user)), (''contract_id'', JStr BTC_MAPPING_CONTRACT),
     (''action'', JStr action), (''payload'', payload), (''rc_limit'', JNum rc)])"

definition btc_probe :: "wallet_env \<Rightarrow> string \<Rightarrow> json \<Rightarrow> sim_row option result" where
  "btc_probe env user payload = rmap (\<lambda>rows. case rows of Some (r # _) \<Rightarrow> Some r | _ \<Rightarrow> None)
     (en_simulate env (''hive:'' @ user) [\<lparr>sc_contract = BTC_MAPPING_CONTRACT, sc_action = ''unmap'',
        sc_payload = stringify payload, sc_rcLimit = 100000, sc_intents = []\<rparr>])"

definition withdraw_at :: "wallet_env \<Rightarrow> string \<Rightarrow> json \<Rightarrow> int \<Rightarrow> tx_result result wallet" where
  "withdraw_at env user payload rcLimit = do {
     avail \<leftarrow> availableRc env (''hive:'' @ user);
     if opt_holds (\<lambda>a. a < rcLimit) avail then
       State_Monad.return (Inr (refused (''A Bitcoin withdrawal needs about '' @ en_locale env rcLimit @ '' credits and you have ''
         @ en_locale env (the avail) @ ''. Hold about '' @ to_fixed2 (fl_div (rcLimit - the avail) 1000)
         @ '' more HBD on MAGI (each HBD is 1,000 credits, available at once), then try again. Nothing was sent.'')))
     else do {
       r \<leftarrow> broadcast env [CustomJson [user] [] (caller_json env user ''unmap'' payload rcLimit)] ActiveKey;
       State_Monad.return (Inr r)
     }
   }"

definition withdrawBtc :: "wallet_env \<Rightarrow> int \<Rightarrow> string \<Rightarrow> tx_result result wallet" where
  "withdrawBtc env sats to = (case en_user env of
     None \<Rightarrow> State_Monad.return (throw ''not signed in'')
   | Some user \<Rightarrow>
     (let payload = btc_payload sats to in
      case or_default None (btc_probe env user payload) of
        Some r \<Rightarrow> if \<not> sr_success r then State_Monad.return (Inr (refused (nullish (sr_err r) ''MAGI refused the withdrawal'')))
          else withdraw_at env user payload (btc_rc (sr_gas r))
      | None \<Rightarrow> withdraw_at env user payload 30000))"

definition sendBtc :: "wallet_env \<Rightarrow> string \<Rightarrow> int \<Rightarrow> tx_result result wallet" where
  "sendBtc env toDid sats = (case en_user env of
     None \<Rightarrow> State_Monad.return (throw ''not signed in'')
   | Some user \<Rightarrow> do {
       r \<leftarrow> broadcast env [CustomJson [user] [] (caller_json env user ''transfer''
              (JObj [(''amount'', JStr (show_int sats)), (''to'', JStr toDid)]) 2000)] ActiveKey;
       State_Monad.return (Inr r)
     })"

definition allowance_for :: "string \<Rightarrow> string \<Rightarrow> string" where
  "allowance_for spender amount = stringify (JObj [(''spender'', JStr (''contract:'' @ spender)), (''amount'', JStr amount)])"

definition seedNativePool :: "wallet_env \<Rightarrow> string \<Rightarrow> string \<Rightarrow> int \<Rightarrow> tx_result result wallet" where
  "seedNativePool env poolId lc hbdMilli = do {
     t \<leftarrow> tokenContract env;
     (case t of
        None \<Rightarrow> State_Monad.return (Inr (refused ''token contract unknown''))
      | Some token \<Rightarrow> (case (if en_loggedIn env then en_user env else None) of
          None \<Rightarrow> State_Monad.return (Inr (refused ''not signed in''))
        | Some user \<Rightarrow>
          if \<not> all_digits lc \<or> lc = ''0'' \<or> \<not> hbdMilli > 0 then
            State_Monad.return (Inr (refused ''amounts must be positive''))
          else broadcastCalls env
            [\<lparr>cl_action = ''increaseAllowance'', cl_payload = allowance_for poolId lc, cl_rcLimit = 1500,
              cl_intents = [], cl_contract = Some token\<rparr>,
             \<lparr>cl_action = ''add_liquidity'',
              cl_payload = stringify (JObj [(''amount0'', JStr (show_int hbdMilli)), (''amount1'', JStr lc),
                (''recipient'', JStr (''hive:'' @ user)), (''min_lp_out'', JStr ''0'')]),
              cl_rcLimit = 4000,
              cl_intents = [\<lparr>it_token = ''hbd'', it_limit = show_int (hbdMilli div 1000) @ ''.'' @
                pad_start 3 (CHR ''0'') (show_int (hbdMilli mod 1000))\<rparr>],
              cl_contract = Some poolId\<rparr>]
            poolId ActiveKey []))
   }"

definition native_execute :: "swap_direction \<Rightarrow> int \<Rightarrow> int \<Rightarrow> string \<Rightarrow> contract_call" where
  "native_execute direction amountIn minOut to = \<lparr>cl_action = ''execute'',
     cl_payload = stringify (JObj [(''type'', JStr ''swap''), (''version'', JStr ''1.0.0''),
       (''asset_in'', JStr (if direction = LcHbd then ''LASSECASH'' else ''HBD'')),
       (''asset_out'', JStr (if direction = LcHbd then ''HBD'' else ''LASSECASH'')),
       (''amount_in'', JStr (show_int amountIn)), (''min_amount_out'', JStr (show_int minOut)),
       (''recipient'', JStr to)]),
     cl_rcLimit = 4000,
     cl_intents = (if direction = HbdLc then [\<lparr>it_token = ''hbd'', it_limit = milliLimitStr amountIn\<rparr>] else []),
     cl_contract = Some NATIVE_ROUTER_ID\<rparr>"

definition swapNativePool :: "wallet_env \<Rightarrow> swap_direction \<Rightarrow> int \<Rightarrow> int \<Rightarrow> tx_result result wallet" where
  "swapNativePool env direction amountIn minOut = (case (if en_loggedIn env then en_user env else None) of
     None \<Rightarrow> State_Monad.return (Inr (refused ''not signed in''))
   | Some user \<Rightarrow>
     if amountIn \<le> 0 then State_Monad.return (Inr (refused ''amount must be positive''))
     else (let swap = native_execute direction amountIn minOut (''hive:'' @ user) in
       if direction = HbdLc then broadcastCalls env [swap] NATIVE_ROUTER_ID ActiveKey []
       else do {
         t \<leftarrow> tokenContract env;
         (case t of
            None \<Rightarrow> State_Monad.return (Inr (refused ''token contract unknown''))
          | Some token \<Rightarrow> broadcastCalls env
              [\<lparr>cl_action = ''increaseAllowance'', cl_payload = allowance_for NATIVE_ROUTER_ID (show_int amountIn),
                cl_rcLimit = 1500, cl_intents = [], cl_contract = Some token\<rparr>, swap]
              NATIVE_ROUTER_ID ActiveKey [])
       }))"

section \<open>Writing to Hive\<close>

record article_input =
  ai_permlink :: string
  ai_title :: string
  ai_body :: string
  ai_tags :: "string list"
  ai_summary :: "string option"
  ai_image :: "string option"

definition article_tags :: "string list \<Rightarrow> string list" where
  "article_tags tags = take 21 (''lassecash'' # filter (\<lambda>t. t \<noteq> ''lassecash'') tags)"

definition article_fields :: "wallet_env \<Rightarrow> string \<Rightarrow> article_input \<Rightarrow> post_metadata_input" where
  "article_fields env author i = \<lparr>pmi_author = author, pmi_permlink = ai_permlink i, pmi_tags = article_tags (ai_tags i),
     pmi_summary = Some (nullish (ai_summary i) []), pmi_image = ai_image i, pmi_siteUrl = en_siteUrl env\<rparr>"

definition written :: "wallet_reply \<Rightarrow> string \<Rightarrow> unit result" where
  "written r fallback = (if wr_success r then Inr ()
     else throw (case wr_error r of Some e \<Rightarrow> if e = [] then fallback else e | None \<Rightarrow> fallback))"

definition writeArticle :: "wallet_env \<Rightarrow> article_input \<Rightarrow> string option \<Rightarrow> (string \<times> json) list option \<Rightarrow> unit result wallet" where
  "writeArticle env i category base = (case en_user env of
     None \<Rightarrow> State_Monad.return (throw ''not signed in'')
   | Some author \<Rightarrow> do {
       let fields = article_fields env author i;
       let meta = (case base of None \<Rightarrow> NewMeta (postMetadata fields) | Some b \<Rightarrow> EditedMeta (editMetadata (Some b) fields));
       let parent = (case category of Some c \<Rightarrow> if c = [] then ''lassecash'' else c | None \<Rightarrow> ''lassecash'');
       r \<leftarrow> ask env (WriteComment None parent (ai_permlink i) (ai_title i) (ai_body i) meta);
       State_Monad.return (written r ''publish to Hive failed'')
     })"

definition publishToHive :: "wallet_env \<Rightarrow> article_input \<Rightarrow> unit result wallet" where
  "publishToHive env i = writeArticle env i None None"

definition editOnHive :: "wallet_env \<Rightarrow> article_input \<Rightarrow> string option \<Rightarrow> (string \<times> json) list option \<Rightarrow> unit result wallet" where
  "editOnHive env i category metadata = writeArticle env i category (Some (nullish metadata []))"

record reply_input =
  ri_permlink :: string
  ri_body :: string
  ri_parentAuthor :: string
  ri_parentPermlink :: string

definition reply_meta :: "wallet_env \<Rightarrow> string \<Rightarrow> reply_input \<Rightarrow> hive_meta" where
  "reply_meta env author i = NewMeta (commentMetadata \<lparr>pmi_author = author, pmi_permlink = ri_permlink i,
     pmi_tags = [''lassecash''], pmi_summary = None, pmi_image = None, pmi_siteUrl = en_siteUrl env\<rparr>
     (bare_author (ri_parentAuthor i)) (ri_parentPermlink i))"

definition publishCommentToHive :: "wallet_env \<Rightarrow> reply_input \<Rightarrow> unit result wallet" where
  "publishCommentToHive env i = (case en_user env of
     None \<Rightarrow> State_Monad.return (throw ''not signed in'')
   | Some author \<Rightarrow> do {
       r \<leftarrow> ask env (WriteComment (Some (bare_author (ri_parentAuthor i))) (ri_parentPermlink i) (ri_permlink i) [] (ri_body i)
              (reply_meta env author i));
       State_Monad.return (written r ''publish comment to Hive failed'')
     })"

definition articleOp :: "wallet_env \<Rightarrow> article_input \<Rightarrow> hive_op result" where
  "articleOp env i = (case en_user env of None \<Rightarrow> throw ''not signed in''
     | Some author \<Rightarrow> Inr (HiveComment [] ''lassecash'' author (ai_permlink i) (ai_title i) (ai_body i)
         (NewMeta (postMetadata (article_fields env author i)))))"

definition replyOp :: "wallet_env \<Rightarrow> reply_input \<Rightarrow> hive_op result" where
  "replyOp env i = (case en_user env of None \<Rightarrow> throw ''not signed in''
     | Some author \<Rightarrow> Inr (HiveComment (bare_author (ri_parentAuthor i)) (ri_parentPermlink i) author (ri_permlink i) []
         (ri_body i) (reply_meta env author i)))"

end
