(* ===== verification/Signer.thy ===== *)
theory Signer
  imports Wallet
begin

text \<open>
  'AiohaSigner' of 'api/src/aioha-signer.ts': the tables, the sizing of a call's
  credit limit from a dry run, the allowance that rides with a call that debits
  LASSECASH, the one transaction a press becomes, and claim-all in chunks.
\<close>

section \<open>Tables\<close>

definition MaxSideCalls :: nat where "MaxSideCalls = 2"
definition HiveCustomJsonPerBlock :: nat where "HiveCustomJsonPerBlock = 5"

definition signaturesFor :: "int \<Rightarrow> int" where
  "signaturesFor n = (if n \<le> 0 then 0 else ceil_div n (int HiveCustomJsonPerBlock))"

definition ACTIVE_OPS :: "string list" where
  "ACTIVE_OPS = [''transfer'', ''burn'', ''mint'', ''claim_mint'', ''good_accounting'', ''fund'', ''promote_post'',
     ''add_liquidity'', ''remove_liquidity'', ''claim_pool'', ''swap_lassecash_hbd'', ''swap_hbd_lassecash'',
     ''migrate'', ''migrate_batch'', ''claim_migration'']"

definition RC_LIMITS :: "(string \<times> int) list" where
  "RC_LIMITS = [(''transfer'', 2500), (''burn'', 600), (''fund'', 1500), (''settle'', 2000), (''advance'', 10000),
     (''mint'', 7000), (''claim_mint'', 7000), (''sweep_mint'', 7000), (''good_accounting'', 800),
     (''set_duration'', 400), (''settle_pending'', 6000), (''promote'', 3000), (''set_param'', 3000), (''post'', 3000),
     (''comment'', 5000), (''promote_post'', 2500), (''vote'', 7000), (''payout'', 4000), (''claim_curation'', 1200),
     (''sweep_curation'', 1200), (''add_liquidity'', 4000), (''remove_liquidity'', 4000), (''claim_pool'', 4000),
     (''sweep_tranche'', 4000), (''swap_lassecash_hbd'', 3000), (''swap_hbd_lassecash'', 3000),
     (''claim_migration'', 9500), (''record_burn'', 1000)]"

definition HBD_DRAW_OPS :: "(string \<times> nat) list" where
  "HBD_DRAW_OPS = [(''add_liquidity'', 1), (''swap_hbd_lassecash'', 0)]"

definition TOKEN_DEBIT_OPS :: "(string \<times> nat) list" where
  "TOKEN_DEBIT_OPS = [(''transfer'', 1), (''burn'', 0), (''fund'', 1), (''mint'', 0), (''promote_post'', 2),
     (''add_liquidity'', 0), (''swap_lassecash_hbd'', 0)]"

definition ALLOWANCE_RC :: int where "ALLOWANCE_RC = 1000"
definition GAS_PER_RC :: int where "GAS_PER_RC = 100000"
definition RC_HEADROOM :: int where "RC_HEADROOM = 3"
definition RC_CEILING :: int where "RC_CEILING = 30000"
definition PROBE_MARGIN_MILLI :: int where "PROBE_MARGIN_MILLI = 1000"
definition MaxClaimAllBatch :: nat where "MaxClaimAllBatch = 12"

definition draws_hbd :: "string \<Rightarrow> bool" where
  "draws_hbd entrypoint = (map_of HBD_DRAW_OPS entrypoint \<noteq> None)"

definition key_for :: "string \<Rightarrow> key_type" where
  "key_for entrypoint = (if entrypoint \<in> set ACTIVE_OPS then ActiveKey else PostingKey)"

definition table_limit :: "wallet_env \<Rightarrow> string \<Rightarrow> int" where
  "table_limit env entrypoint = nullish (map_of RC_LIMITS entrypoint) (en_rcLimit env)"

text \<open>A pipe-separated argument, with the code's default for one that is missing.\<close>

definition arg_at :: "nat \<Rightarrow> string \<Rightarrow> string \<Rightarrow> string" where
  "arg_at i args dflt = (let f = split_on (CHR ''|'') args in if i < length f then f ! i else dflt)"

definition hbdLimit :: "string \<Rightarrow> string result" where
  "hbdLimit s = rmap (\<lambda>n. let milli = bdiv (n + 99999) 100000 in
     show_int (bdiv milli 1000) @ ''.'' @ pad_start 3 (CHR ''0'') (show_int (bmod milli 1000))) (big_int s)"

definition drawMilli :: "string \<Rightarrow> string \<Rightarrow> int option" where
  "drawMilli entrypoint args = (case map_of HBD_DRAW_OPS entrypoint of None \<Rightarrow> None
     | Some idx \<Rightarrow> let raw = js_trim (arg_at idx args []) in
         if all_digits raw then Some ((int (dec_val raw) + 99999) div 100000) else None)"

section \<open>Sizing\<close>

datatype sized = Limit int | Refusal tx_result

definition rcRefusal :: "wallet_env \<Rightarrow> int \<Rightarrow> int \<Rightarrow> int option \<Rightarrow> tx_result" where
  "rcRefusal env needed avail mx = (let
       gapHbd = hundredths (ceil_div (needed - avail) 10);
       head = ''Needs ~'' @ en_locale env needed @ '' credits, you have '' @ en_locale env avail @ ''. '';
       arrow = [CHR '' '', CHR 0xE2, CHR 0x86, CHR 0x92, CHR '' '']
     in if opt_holds (\<lambda>m. needed > m) mx then
          refused (head @ ''That is more than your meter can hold ('' @ en_locale env (the mx) @ ''), so waiting will not help. Add ~''
            @ hundredths (ceil_div (needed - the mx) 10) @ '' HBD on MAGI (Wallet'' @ arrow @ ''Move funds); it works at once.'')
        else refused (head @ ''Add ~'' @ gapHbd @ '' HBD on MAGI (Wallet'' @ arrow
            @ ''Move funds) to fix it at once, or wait: credits refill over 5 days.''))"

definition allowanceCall :: "wallet_env \<Rightarrow> string \<Rightarrow> string \<Rightarrow> contract_call option wallet" where
  "allowanceCall env entrypoint args = (case map_of TOKEN_DEBIT_OPS entrypoint of
     None \<Rightarrow> State_Monad.return None
   | Some debitArg \<Rightarrow> do {
       t \<leftarrow> tokenContract env;
       State_Monad.return (case t of None \<Rightarrow> None
         | Some token \<Rightarrow> let amount = js_trim (arg_at debitArg args ''0'') in
             if \<not> all_digits amount \<or> amount = ''0'' then None
             else Some \<lparr>cl_action = ''increaseAllowance'', cl_payload = allowance_for (en_contract env) amount,
               cl_rcLimit = ALLOWANCE_RC, cl_intents = [], cl_contract = Some token\<rparr>)
     })"

definition probe_limit :: "string \<Rightarrow> string \<Rightarrow> int \<Rightarrow> int option \<Rightarrow> int" where
  "probe_limit entrypoint args tableLimit avail = (if \<not> draws_hbd entrypoint then 100000
     else case (avail, drawMilli entrypoint args) of
       (Some a, Some d) \<Rightarrow> max tableLimit (min RC_CEILING (max 0 (a - d - PROBE_MARGIN_MILLI)))
     | _ \<Rightarrow> tableLimit)"

definition explain_refusal :: "string \<Rightarrow> string \<Rightarrow> bool \<Rightarrow> tx_result" where
  "explain_refusal entrypoint msg gasLimitHit =
     (if has_text ''wasm function not found'' msg then
        refused (''This page is out of date'' @ em_dash @ ''reload it (Ctrl+Shift+R, or Cmd+Shift+R on a Mac) and try again.'')
      else if gasLimitHit then
        refused (''this call would exceed the per-call gas ceiling'' @ em_dash @ ''call advance first to close the accrual gap'')
      else if str_includes ''Insufficient balance'' msg then
        refused (''The contract could not pay this out: its token reported too little backing. That should not happen since the 4 October fix''
          @ em_dash @ ''please report it on the LasseCash Discord. Your position is safe and recorded on chain, and nothing has been spent.'')
      else if draws_hbd entrypoint \<and> has_text ''insufficient balance'' msg then
        refused (''Not enough RC'' @ em_dash @ ''hold more HBD on MAGI, it'' @ [CHR 0x27] @ ''s free RC.'')
      else refused msg)"

text \<open>The limit for a call whose dry run took 'gas'.\<close>

definition table_floor :: "string \<Rightarrow> int \<Rightarrow> int" where
  "table_floor entrypoint tableLimit = (if entrypoint = ''advance'' then 0 else ceil_06 tableLimit)"

definition sized_limit :: "int \<Rightarrow> int \<Rightarrow> int" where
  "sized_limit tableLimit gas = min RC_CEILING (max tableLimit (ceil_div gas GAS_PER_RC * RC_HEADROOM))"

definition least_limit :: "string \<Rightarrow> int \<Rightarrow> int \<Rightarrow> int" where
  "least_limit entrypoint tableLimit gas = max (ceil_13 (ceil_div gas GAS_PER_RC)) (table_floor entrypoint tableLimit)"

definition fit_limit :: "wallet_env \<Rightarrow> string \<Rightarrow> string \<Rightarrow> int \<Rightarrow> int \<Rightarrow> int option \<Rightarrow> int option \<Rightarrow> sized" where
  "fit_limit env entrypoint args tableLimit gas avail mx = (let
       want = sized_limit tableLimit gas; least = least_limit entrypoint tableLimit gas;
       draw = (if avail \<noteq> None \<and> draws_hbd entrypoint then drawMilli entrypoint args else None)
     in case (avail, draw) of
          (Some a, Some d) \<Rightarrow> let room = a - d - PROBE_MARGIN_MILLI in
            if room < least then Refusal (rcRefusal env (least + d + PROBE_MARGIN_MILLI) a mx) else Limit (min want room)
        | (Some a, None) \<Rightarrow> if want > a then (if a < least then Refusal (rcRefusal env least a mx) else Limit a) else Limit want
        | (None, _) \<Rightarrow> (case en_confirm env of
            Some confirm \<Rightarrow> if confirm least then Limit want
              else Refusal (refused (''Cancelled'' @ em_dash @ ''nothing was sent, no credits used.''))
          | None \<Rightarrow> Limit want))"

definition sizeRc :: "wallet_env \<Rightarrow> string \<Rightarrow> string \<Rightarrow> string \<Rightarrow> intent list \<Rightarrow> int \<Rightarrow> sized wallet" where
  "sizeRc env account entrypoint args intents tableLimit = do {
     avail \<leftarrow> availableRc env account;
     precall \<leftarrow> allowanceCall env entrypoint args;
     s \<leftarrow> State_Monad.get;
     State_Monad.return (case simulate env account entrypoint args intents (probe_limit entrypoint args tableLimit avail) precall of
         Inl _ \<Rightarrow> if opt_holds (\<lambda>a. a < tableLimit) avail then Refusal (rcRefusal env tableLimit (the avail) (ws_maxRc s))
           else Limit tableLimit
       | Inr (SimRefused msg hit) \<Rightarrow> Refusal (explain_refusal entrypoint msg hit)
       | Inr (SimOk gas) \<Rightarrow> fit_limit env entrypoint args tableLimit gas avail (ws_maxRc s))
   }"

section \<open>One press, one transaction\<close>

record entry_call =
  ec_entrypoint :: string
  ec_args :: string

record submit_options =
  so_rcLimit :: "int option"
  so_sideCalls :: "entry_call list"
  so_preCalls :: "entry_call list"

definition no_options :: submit_options where
  "no_options = \<lparr>so_rcLimit = None, so_sideCalls = [], so_preCalls = []\<rparr>"

definition plain_call :: "string \<Rightarrow> string \<Rightarrow> int \<Rightarrow> contract_call" where
  "plain_call action payload rc = \<lparr>cl_action = action, cl_payload = payload, cl_rcLimit = rc, cl_intents = [], cl_contract = None\<rparr>"

fun sizeAll :: "wallet_env \<Rightarrow> string \<Rightarrow> entry_call list \<Rightarrow> (entry_call \<times> sized) list wallet" where
  "sizeAll env account [] = State_Monad.return []"
| "sizeAll env account (c # cs) = do {
     z \<leftarrow> sizeRc env account (ec_entrypoint c) (ec_args c) [] (table_limit env (ec_entrypoint c));
     zs \<leftarrow> sizeAll env account cs;
     State_Monad.return ((c, z) # zs)
   }"

text \<open>Slices stop at the first that cannot be afforded; settlements are dropped
  one by one.\<close>

fun affordable_prefix :: "(entry_call \<times> sized) list \<Rightarrow> contract_call list" where
  "affordable_prefix [] = []"
| "affordable_prefix ((c, z) # cs) = (case z of
     Limit lim \<Rightarrow> plain_call (ec_entrypoint c) (ec_args c) lim # affordable_prefix cs | Refusal _ \<Rightarrow> [])"

fun affordable :: "(entry_call \<times> sized) list \<Rightarrow> contract_call list" where
  "affordable [] = []"
| "affordable ((c, z) # cs) = (case z of
     Limit lim \<Rightarrow> plain_call (ec_entrypoint c) (ec_args c) lim # affordable cs | Refusal _ \<Rightarrow> affordable cs)"

definition hive_vote :: "string \<Rightarrow> string \<Rightarrow> hive_op" where
  "hive_vote account args = HiveVote (strip_prefix ''hive:'' account) (strip_prefix ''hive:'' (arg_at 0 args []))
     (arg_at 1 args [])
     (map_option (\<lambda>w. max 0 (min 100 w) * 100)
       (case big_int (arg_at 2 args ''0'') of Inl _ \<Rightarrow> None | Inr w \<Rightarrow> Some w))"

definition asks_advance :: "string \<Rightarrow> bool" where
  "asks_advance msg = (has_text ''accrual is behind'' msg \<or> has_text ''call advance'' msg)"

definition caught_up :: "nat \<Rightarrow> tx_result \<Rightarrow> tx_result" where
  "caught_up n r = (if tr_ok r then r\<lparr>tr_ok := False,
     tr_msg := ''the chain is catching up on matured mints'' @ em_dash @ ''this transaction advanced it '' @ show_nat n
       @ '' step'' @ (if n > 1 then ''s'' else []) @ ''; press again''\<rparr> else r)"

definition draw_intents :: "string \<Rightarrow> string \<Rightarrow> intent list result" where
  "draw_intents entrypoint args = (case map_of HBD_DRAW_OPS entrypoint of None \<Rightarrow> Inr []
     | Some i \<Rightarrow> rmap (\<lambda>l. [\<lparr>it_token = ''hbd'', it_limit = l\<rparr>]) (hbdLimit (arg_at i args ''0'')))"

definition send_lone :: "wallet_env \<Rightarrow> string \<Rightarrow> string \<Rightarrow> int \<Rightarrow> intent list \<Rightarrow> tx_result wallet" where
  "send_lone env entrypoint args rc intents = do {
     _ \<leftarrow> forgetRc;
     r \<leftarrow> ask env (VscCallContract (en_contract env) entrypoint args rc intents (key_for entrypoint));
     State_Monad.return (tx_of_reply r (nullish (wr_result r) ''submitted''))
   }"

definition submit_sized :: "wallet_env \<Rightarrow> string \<Rightarrow> string \<Rightarrow> string \<Rightarrow> intent list \<Rightarrow> contract_call list
    \<Rightarrow> (entry_call \<times> sized) list \<Rightarrow> sized \<Rightarrow> (entry_call \<times> sized) list \<Rightarrow> tx_result result wallet" where
  "submit_sized env account entrypoint args intents allowance preSized z sideSized = (let
       pre = allowance @ affordable_prefix preSized; key = key_for entrypoint
     in case z of
       Refusal r \<Rightarrow>
         if pre \<noteq> [] \<and> asks_advance (tr_msg r) then do {
           res \<leftarrow> broadcastCalls env pre (en_contract env) key [];
           State_Monad.return (rmap (caught_up (length pre)) res)
         } else State_Monad.return (Inr r)
     | Limit rc \<Rightarrow>
         (let side = affordable sideSized; hiveOps = (if entrypoint = ''vote'' then [hive_vote account args] else [])
          in if pre \<noteq> [] \<or> side \<noteq> [] \<or> hiveOps \<noteq> [] then
               broadcastCalls env (pre @ [\<lparr>cl_action = entrypoint, cl_payload = args, cl_rcLimit = rc, cl_intents = intents,
                   cl_contract = None\<rparr>] @ side) (en_contract env) key hiveOps
             else do { r \<leftarrow> send_lone env entrypoint args rc intents; State_Monad.return (Inr r) }))"

definition submit :: "wallet_env \<Rightarrow> string \<Rightarrow> string \<Rightarrow> string \<Rightarrow> submit_options \<Rightarrow> tx_result result wallet" where
  "submit env account entrypoint args opts = (case draw_intents entrypoint args of
     Inl e \<Rightarrow> State_Monad.return (Inl e)
   | Inr intents \<Rightarrow> do {
       al \<leftarrow> allowanceCall env entrypoint args;
       let allowance = (case al of None \<Rightarrow> [] | Some c \<Rightarrow> [c]);
       let tableLimit = nullish (so_rcLimit opts) (table_limit env entrypoint);
       let preSlots = HiveCustomJsonPerBlock - 1 - length allowance;
       let preWanted = take preSlots (so_preCalls opts);
       let sideRoom = preSlots - length preWanted;
       let sideWanted = take (min MaxSideCalls sideRoom) (so_sideCalls opts);
       preSized \<leftarrow> sizeAll env account preWanted;
       z \<leftarrow> sizeRc env account entrypoint args intents tableLimit;
       sideSized \<leftarrow> sizeAll env account sideWanted;
       submit_sized env account entrypoint args intents allowance preSized z sideSized
     })"

section \<open>Posts, comments and pools\<close>

definition sizedSideCalls :: "wallet_env \<Rightarrow> string \<Rightarrow> entry_call list \<Rightarrow> contract_call list wallet" where
  "sizedSideCalls env account sideCalls = do {
     zs \<leftarrow> sizeAll env account (take (min MaxSideCalls (HiveCustomJsonPerBlock - 1)) sideCalls);
     State_Monad.return (affordable zs)
   }"

definition register_with :: "wallet_env \<Rightarrow> string \<Rightarrow> string \<Rightarrow> string \<Rightarrow> hive_op result \<Rightarrow> entry_call list \<Rightarrow> tx_result result wallet" where
  "register_with env account entrypoint payload hiveOp sideCalls = do {
     z \<leftarrow> sizeRc env account entrypoint payload [] (table_limit env entrypoint);
     (case z of Refusal r \<Rightarrow> State_Monad.return (Inr r)
      | Limit rc \<Rightarrow> (case hiveOp of Inl e \<Rightarrow> State_Monad.return (Inl e)
        | Inr op \<Rightarrow> do {
            extra \<leftarrow> sizedSideCalls env account sideCalls;
            broadcastWithCall env [op] (plain_call entrypoint payload rc) (en_contract env) extra
          }))
   }"

definition publishAndRegister :: "wallet_env \<Rightarrow> string \<Rightarrow> article_input \<Rightarrow> int \<Rightarrow> int \<Rightarrow> entry_call list \<Rightarrow> tx_result result wallet" where
  "publishAndRegister env account i window payoutMode sideCalls =
     register_with env account ''post'' (ai_permlink i @ ''|'' @ show_int window @ ''|'' @ show_int payoutMode)
       (articleOp env i) sideCalls"

definition comment_payload :: "reply_input \<Rightarrow> int \<Rightarrow> string" where
  "comment_payload i payoutMode = (let parent = strip_prefix ''@'' (ri_parentAuthor i);
       qual = (if starts_with ''hive:'' parent then parent else ''hive:'' @ parent)
     in ri_permlink i @ ''|'' @ qual @ ''|'' @ ri_parentPermlink i @ ''|'' @ show_int payoutMode)"

definition commentAndRegister :: "wallet_env \<Rightarrow> string \<Rightarrow> reply_input \<Rightarrow> int \<Rightarrow> entry_call list \<Rightarrow> tx_result result wallet" where
  "commentAndRegister env account i payoutMode sideCalls =
     register_with env account ''comment'' (comment_payload i payoutMode) (replyOp env i) sideCalls"

record magi_swap_in =
  ms_router :: string
  ms_payload :: string
  ms_intents :: "intent list"
  ms_rcLimit :: int
  ms_approve :: "(string \<times> string \<times> int) option"

definition signerMagiSwap :: "wallet_env \<Rightarrow> magi_swap_in \<Rightarrow> tx_result result wallet" where
  "signerMagiSwap env i = (if en_user env = None then State_Monad.return (throw ''not signed in'')
     else broadcastCalls env
       ((case ms_approve i of None \<Rightarrow> []
         | Some (c, p, rc) \<Rightarrow> [\<lparr>cl_action = ''increaseAllowance'', cl_payload = p, cl_rcLimit = rc, cl_intents = [], cl_contract = Some c\<rparr>])
        @ [\<lparr>cl_action = ''execute'', cl_payload = ms_payload i, cl_rcLimit = ms_rcLimit i, cl_intents = ms_intents i, cl_contract = None\<rparr>])
       (ms_router i) ActiveKey [])"

section \<open>Claim all\<close>

fun claim_calls :: "wallet_env \<Rightarrow> string \<Rightarrow> string \<Rightarrow> int \<Rightarrow> int list \<Rightarrow> contract_call list \<Rightarrow> (contract_call list \<times> tx_result option) wallet" where
  "claim_calls env account entrypoint tableLimit [] calls = State_Monad.return (calls, None)"
| "claim_calls env account entrypoint tableLimit (i # ids) calls = do {
     z \<leftarrow> sizeRc env account entrypoint (show_int i) [] tableLimit;
     (case z of
        Refusal r \<Rightarrow> State_Monad.return (calls, if calls = [] then Some r else None)
      | Limit lim \<Rightarrow> claim_calls env account entrypoint tableLimit ids (calls @ [plain_call entrypoint (show_int i) lim]))
   }"

fun send_chunks :: "wallet_env \<Rightarrow> key_type \<Rightarrow> nat \<Rightarrow> contract_call list list \<Rightarrow> tx_result \<Rightarrow> nat \<Rightarrow> (tx_result \<times> nat) result wallet" where
  "send_chunks env key total_ids [] res sent = State_Monad.return (Inr (res, sent))"
| "send_chunks env key total_ids (chunk # chunks) res sent = do {
     r \<leftarrow> broadcastCalls env chunk (en_contract env) key [];
     (case r of
        Inl e \<Rightarrow> State_Monad.return (Inl e)
      | Inr x \<Rightarrow>
          if tr_ok x then send_chunks env key total_ids chunks x (sent + length chunk)
          else State_Monad.return (Inr (if sent > 0
            then x\<lparr>tr_msg := ''claimed '' @ show_nat sent @ '' of '' @ show_nat total_ids @ '', then: '' @ tr_msg x\<rparr> else x, sent)))
   }"

definition claimAllOf :: "wallet_env \<Rightarrow> string \<Rightarrow> string \<Rightarrow> int list \<Rightarrow> tx_result result wallet" where
  "claimAllOf env account entrypoint ids = do {
     cr \<leftarrow> claim_calls env account entrypoint (table_limit env entrypoint) (take MaxClaimAllBatch ids) [];
     (case cr of (calls, firstRefusal) \<Rightarrow>
        if calls = [] then State_Monad.return (Inr (nullish firstRefusal (refused ''nothing to claim'')))
        else do {
          r \<leftarrow> send_chunks env (key_for entrypoint) (length ids) (batches HiveCustomJsonPerBlock calls) (refused ''nothing to claim'') 0;
          State_Monad.return (rmap (\<lambda>(res, sent).
            if tr_ok res \<and> sent < length ids then res\<lparr>tr_msg := ''claimed '' @ show_nat sent @ '' of '' @ show_nat (length ids)
              @ em_dash @ ''the rest refused for RC and can be claimed once it recovers, or after depositing more HBD''\<rparr>
            else res) r)
        })
   }"

end
