(* ===== verification/SignerSafety.thy ===== *)
theory SignerSafety
  imports Signer "HOL-Library.Sublist"
begin

text \<open>
  What a press on a button can make the wallet sign: at most one transaction, its
  calls in a fixed order and never more than Hive takes, under the key the call
  calls for; never a call the dry run refused; never a limit above what the
  account holds.
\<close>

section \<open>Requests as the node reads them\<close>

text \<open>The contract calls of a request: the JSON text of each custom_json read back,
  as its action and payload.\<close>

definition op_call :: "hive_op \<Rightarrow> (string \<times> string) option" where
  "op_call op = (case op of CustomJson _ _ t \<Rightarrow> (case json_parse t of Inl _ \<Rightarrow> None
       | Inr j \<Rightarrow> (case (Option.bind (jfield ''action'' j) jstr, Option.bind (jfield ''payload'' j) jstr) of
           (Some a, Some p) \<Rightarrow> Some (a, p) | _ \<Rightarrow> None))
     | _ \<Rightarrow> None)"

fun sent_calls :: "wallet_request \<Rightarrow> (string \<times> string) list" where
  "sent_calls (SignAndBroadcast ops key) = List.map_filter op_call ops"
| "sent_calls (VscCallContract c a p rc is key) = [(a, p)]"
| "sent_calls _ = []"

definition is_custom_json :: "hive_op \<Rightarrow> bool" where
  "is_custom_json op = (case op of CustomJson _ _ _ \<Rightarrow> True | _ \<Rightarrow> False)"

text \<open>What Hive counts against its ceiling.\<close>

fun custom_jsons :: "wallet_request \<Rightarrow> nat" where
  "custom_jsons (SignAndBroadcast ops key) = length (filter is_custom_json ops)"
| "custom_jsons (VscCallContract c a p rc is key) = 1"
| "custom_jsons _ = 0"

fun signed_under :: "string \<Rightarrow> key_type \<Rightarrow> wallet_request \<Rightarrow> bool" where
  "signed_under user key (SignAndBroadcast ops k) = (k = key \<and> list_all (\<lambda>op. case op of
     CustomJson act post _ \<Rightarrow> act = (if key = ActiveKey then [user] else []) \<and> post = (if key = PostingKey then [user] else [])
   | _ \<Rightarrow> True) ops)"
| "signed_under user key (VscCallContract c a p rc is k) = (k = key)"
| "signed_under user key _ = False"

definition asked_by :: "'a wallet \<Rightarrow> wallet_state \<Rightarrow> wallet_request list" where
  "asked_by m s = drop (length (ws_asked s)) (ws_asked (snd (run_state m s)))"

section \<open>Steps that ask nothing\<close>

definition silent :: "'a wallet \<Rightarrow> bool" where
  "silent m = (\<forall>s. ws_asked (snd (run_state m s)) = ws_asked s)"

named_theorems quiet

lemma silent_return [quiet]: "silent (State_Monad.return x)" by (simp add: silent_def)

lemma silent_get [quiet]: "silent State_Monad.get" by (simp add: silent_def)

lemma silent_bind [quiet]:
  assumes "silent m" "\<And>x. silent (f x)"
  shows "silent (State_Monad.bind m f)"
  using assms by (simp add: silent_def case_prod_beta)

lemma silent_bind_get:
  assumes "\<And>s. ws_asked (snd (run_state (f s) s)) = ws_asked s"
  shows "silent (State_Monad.bind State_Monad.get f)"
  using assms by (simp add: silent_def)

lemma silent_readRc [quiet]: "silent (readRc env account)"
  by (auto simp: readRc_def silent_def split: sum.splits option.splits)

lemma readRc_run: "ws_asked (snd (run_state (readRc env account) s)) = ws_asked s"
  using silent_readRc by (simp add: silent_def)

lemma silent_availableRc [quiet]: "silent (availableRc env account)"
  by (auto simp: availableRc_def silent_def case_prod_beta readRc_run split: option.splits)

lemma silent_tokenContract [quiet]: "silent (tokenContract env)"
  by (auto simp: tokenContract_def silent_def Let_def split: sum.splits option.splits)

lemma silent_allowanceCall [quiet]: "silent (allowanceCall env entrypoint args)"
  by (auto simp: allowanceCall_def intro!: quiet split: option.splits)

lemma silent_sizeRc [quiet]: "silent (sizeRc env account entrypoint args intents tableLimit)"
  unfolding sizeRc_def by (intro quiet)

lemma silent_sizeAll [quiet]: "silent (sizeAll env account cs)"
  by (induction cs) (auto intro!: quiet)

lemma silentD: "silent m \<Longrightarrow> run_state m s = (x, t) \<Longrightarrow> ws_asked t = ws_asked s"
  unfolding silent_def by (metis snd_conv)

section \<open>The operation of a call\<close>

lemma call_json_wf: "wf_json (call_json env c k)"
proof -
  have "wf_jsons (map intent_json is)" for "is" by (induction "is") (simp_all add: intent_json_def)
  then show ?thesis by (simp add: call_json_def)
qed

lemma call_json_fields:
  "Option.bind (jfield ''action'' (call_json env c k)) jstr = Some (cl_action c)"
  "Option.bind (jfield ''payload'' (call_json env c k)) jstr = Some (cl_payload c)"
  by (simp_all add: call_json_def jfield_def jstr_def)

lemma vscOp_call: "vscOp env c k key = Inr op \<Longrightarrow> op_call op = Some (cl_action c, cl_payload c)"
  by (auto simp: vscOp_def op_call_def json_roundtrip [OF call_json_wf] call_json_fields split: option.splits)

lemma vscOp_custom: "vscOp env c k key = Inr op \<Longrightarrow> is_custom_json op"
  by (auto simp: vscOp_def is_custom_json_def split: option.splits)

lemma vscOp_auth: "vscOp env c k key = Inr op \<Longrightarrow> en_user env = Some user \<Longrightarrow> signed_under user key (SignAndBroadcast [op] key)"
  by (auto simp: vscOp_def)

lemma ops_of_calls:
  "mapR (\<lambda>c. vscOp env c (k c) key) calls = Inr ops \<Longrightarrow>
   List.map_filter op_call ops = map (\<lambda>c. (cl_action c, cl_payload c)) calls \<and> filter is_custom_json ops = ops
   \<and> length ops = length calls"
proof (induction calls arbitrary: ops)
  case Nil
  then show ?case by (simp add: map_filter_simps)
next
  case (Cons c calls)
  then obtain op ops' where o: "vscOp env c (k c) key = Inr op" "mapR (\<lambda>c. vscOp env c (k c) key) calls = Inr ops'"
    "ops = op # ops'" by (auto simp: rbind_Inr_iff rmap_Inr_iff)
  then show ?case using Cons.IH [OF o(2)] vscOp_call [OF o(1)] vscOp_custom [OF o(1)] by (simp add: map_filter_simps)
qed

lemma ops_signed:
  "mapR (\<lambda>c. vscOp env c (k c) key) calls = Inr ops \<Longrightarrow> en_user env = Some user \<Longrightarrow>
   signed_under user key (SignAndBroadcast ops key)"
proof (induction calls arbitrary: ops)
  case (Cons c calls)
  then obtain op ops' where o: "vscOp env c (k c) key = Inr op" "mapR (\<lambda>c. vscOp env c (k c) key) calls = Inr ops'"
    "ops = op # ops'" by (auto simp: rbind_Inr_iff rmap_Inr_iff)
  then show ?case using Cons.IH [OF o(2)] Cons.prems(2) vscOp_auth [OF o(1)] by simp
qed simp

section \<open>What each step asks\<close>

lemma asked_return [simp]: "asked_by (State_Monad.return x) s = []" by (simp add: asked_by_def)

lemma asked_silent: "silent m \<Longrightarrow> asked_by (State_Monad.bind m f) s = (case run_state m s of (x, t) \<Rightarrow> asked_by (f x) t)"
  by (simp add: asked_by_def silent_def case_prod_beta)

lemma asked_map: "asked_by (State_Monad.bind m (\<lambda>x. State_Monad.return (f x))) s = asked_by m s"
  by (simp add: asked_by_def case_prod_beta)

lemma run_broadcast:
  "run_state (broadcast env ops key) s = (tx_of_reply (en_reply env (length (ws_asked s)) (SignAndBroadcast ops key)) ''submitted'',
     s\<lparr>ws_rc := None, ws_asked := ws_asked s @ [SignAndBroadcast ops key]\<rparr>)"
  by (simp add: broadcast_def forgetRc_def ask_def)

lemma asked_broadcastCalls:
  "asked_by (broadcastCalls env calls k key hive) s =
     (case mapR (\<lambda>c. vscOp env c (nullish (cl_contract c) k) key) calls of
        Inl e \<Rightarrow> [] | Inr ops \<Rightarrow> [SignAndBroadcast (hive @ ops) key])"
  by (simp add: broadcastCalls_def asked_by_def run_broadcast split: sum.splits)

lemma asked_broadcastWithCall:
  "asked_by (broadcastWithCall env hive call k extra) s =
     (case mapR (\<lambda>c. vscOp env c k PostingKey) (call # extra) of
        Inl e \<Rightarrow> [] | Inr ops \<Rightarrow> [SignAndBroadcast (hive @ ops) PostingKey])"
  by (simp add: broadcastWithCall_def asked_by_def run_broadcast split: sum.splits)

lemma asked_send_lone:
  "asked_by (send_lone env entrypoint args rc intents) s =
     [VscCallContract (en_contract env) entrypoint args rc intents (key_for entrypoint)]"
  by (simp add: send_lone_def asked_by_def forgetRc_def ask_def)

definition entry_pair :: "entry_call \<Rightarrow> string \<times> string" where
  "entry_pair c = (ec_entrypoint c, ec_args c)"

abbreviation call_pair :: "contract_call \<Rightarrow> string \<times> string" where
  "call_pair c \<equiv> (cl_action c, cl_payload c)"

lemma prefix_affordable: "prefix (map call_pair (affordable_prefix zs)) (map (entry_pair \<circ> fst) zs)"
  by (induction zs rule: affordable_prefix.induct) (auto simp: plain_call_def entry_pair_def split: sized.splits)

lemma prefix_affordable_calls:
  assumes "prefix (map fst zs) cs"
  shows "prefix (map call_pair (affordable_prefix zs)) (map entry_pair cs)"
  using prefix_affordable [of zs] map_mono_prefix [OF assms, of entry_pair] by (auto simp: o_def intro: prefix_order.trans)

lemma subseq_affordable: "subseq (map call_pair (affordable zs)) (map (entry_pair \<circ> fst) zs)"
  by (induction zs rule: affordable.induct) (auto simp: plain_call_def entry_pair_def split: sized.splits)

lemma sizeAll_fst: "run_state (sizeAll env account cs) s = (zs, t) \<Longrightarrow> map fst zs = cs"
  by (induction cs arbitrary: s zs t) (auto split: prod.splits)

lemma allowanceCall_action:
  "run_state (allowanceCall env entrypoint args) s = (Some c, t) \<Longrightarrow>
   cl_action c = ''increaseAllowance'' \<and> map_of TOKEN_DEBIT_OPS entrypoint \<noteq> None"
  by (auto simp: allowanceCall_def Let_def split: option.splits prod.splits if_splits)

text \<open>A transaction a press may become: at most one allowance, some leading slices,
  then the user's call and at most MaxSideCalls settlements, or neither.\<close>

definition press_ok :: "string \<Rightarrow> string \<Rightarrow> string \<Rightarrow> submit_options \<Rightarrow> wallet_request \<Rightarrow> bool" where
  "press_ok user entrypoint args opts q = (signed_under user (key_for entrypoint) q
     \<and> custom_jsons q \<le> HiveCustomJsonPerBlock
     \<and> (\<exists>al pre mine side. sent_calls q = al @ pre @ mine @ side
        \<and> length al \<le> 1 \<and> fst ` set al \<subseteq> {''increaseAllowance''}
        \<and> prefix pre (map entry_pair (so_preCalls opts))
        \<and> subseq side (map entry_pair (so_sideCalls opts)) \<and> length side \<le> MaxSideCalls
        \<and> (mine = [(entrypoint, args)] \<or> (mine = [] \<and> side = []))))"

lemma hive_vote_call [simp]: "op_call (hive_vote account args) = None" "\<not> is_custom_json (hive_vote account args)"
  by (simp_all add: hive_vote_def op_call_def is_custom_json_def)

definition hive_part :: "string \<Rightarrow> string \<Rightarrow> string \<Rightarrow> hive_op list" where
  "hive_part account entrypoint args = (if entrypoint = ''vote'' then [hive_vote account args] else [])"

text \<open>A broadcast of a press's calls is such a transaction.\<close>

lemma press_broadcast:
  assumes "en_user env = Some user"
    and "asked_by (broadcastCalls env (al @ pre @ mine @ side) k (key_for e) (if h then hive_part account e args else [])) s = qs"
    and "length al + length pre + length mine + length side \<le> HiveCustomJsonPerBlock"
    and "length al \<le> 1" "cl_action ` set al \<subseteq> {''increaseAllowance''}"
    and "prefix (map call_pair pre) (map entry_pair (so_preCalls opts))"
    and "subseq (map call_pair side) (map entry_pair (so_sideCalls opts))" "length side \<le> MaxSideCalls"
    and "map call_pair mine = [(e, args)] \<or> (mine = [] \<and> side = [])"
  shows "length qs \<le> 1 \<and> list_all (press_ok user e args opts) qs"
proof (cases "mapR (\<lambda>c. vscOp env c (nullish (cl_contract c) k) (key_for e)) (al @ pre @ mine @ side)")
  case (Inl x)
  then show ?thesis using assms(2) by (simp add: asked_broadcastCalls)
next
  case (Inr ops)
  let ?q = "SignAndBroadcast ((if h then hive_part account e args else []) @ ops) (key_for e)"
  have qs: "qs = [?q]" using assms(2) Inr by (simp add: asked_broadcastCalls)
  note ops = ops_of_calls [OF Inr]
  have sent: "sent_calls ?q = map call_pair al @ map call_pair pre @ map call_pair mine @ map call_pair side"
    using ops by (simp add: hive_part_def map_filter_simps)
  have five: "custom_jsons ?q \<le> HiveCustomJsonPerBlock" using ops assms(3) by (simp add: hive_part_def)
  have signed: "signed_under user (key_for e) ?q"
    using ops_signed [OF Inr assms(1)] by (simp add: hive_part_def hive_vote_def)
  have one: "length (map call_pair al) \<le> 1" using assms(4) by simp
  have kind: "fst ` set (map call_pair al) \<subseteq> {''increaseAllowance''}" using assms(5) by (auto simp: image_subset_iff)
  have few: "length (map call_pair side) \<le> MaxSideCalls" using assms(8) by simp
  have own: "map call_pair mine = [(e, args)] \<or> (map call_pair mine = [] \<and> map call_pair side = [])" using assms(9) by blast
  have "press_ok user e args opts ?q"
    unfolding press_ok_def
    by (intro conjI, rule signed, rule five, intro exI conjI, rule sent, rule one, rule kind, rule assms(6), rule assms(7),
      rule few, rule own)
  then show ?thesis using qs by simp
qed

lemma length_affordable: "length (affordable zs) \<le> length zs" "length (affordable_prefix zs) \<le> length zs"
  by (induction zs rule: affordable.induct) (auto split: sized.splits)

lemma submit_sized_press:
  assumes user: "en_user env = Some user"
    and al: "length al \<le> 1" "cl_action ` set al \<subseteq> {''increaseAllowance''}"
    and pre: "prefix (map fst preSized) (so_preCalls opts)" "length preSized \<le> HiveCustomJsonPerBlock - 1 - length al"
    and side: "prefix (map fst sideSized) (so_sideCalls opts)"
      "length sideSized \<le> min MaxSideCalls (HiveCustomJsonPerBlock - 1 - length al - length preSized)"
  shows "let qs = asked_by (submit_sized env account e args intents al preSized z sideSized) s
    in length qs \<le> 1 \<and> list_all (press_ok user e args opts) qs"
proof -
  let ?pre = "affordable_prefix preSized" and ?side = "affordable sideSized"
  have pre': "prefix (map call_pair ?pre) (map entry_pair (so_preCalls opts))"
    by (rule prefix_affordable_calls [OF pre(1)])
  have side': "subseq (map call_pair ?side) (map entry_pair (so_sideCalls opts))"
    using subseq_affordable [of sideSized] prefix_imp_subseq [OF map_mono_prefix [OF side(1), of entry_pair]]
    by (auto simp: o_def intro: subseq_order.trans)
  have len: "length ?pre \<le> length preSized" "length ?side \<le> length sideSized" by (rule length_affordable)+
  have five: "length al + length ?pre + 1 + length ?side \<le> HiveCustomJsonPerBlock"
    using len al(1) pre(2) side(2) unfolding HiveCustomJsonPerBlock_def by linarith
  show ?thesis
  proof (cases z)
    case (Refusal r)
    have "length al + length ?pre + length [] + length [] \<le> HiveCustomJsonPerBlock" using five by simp
    from press_broadcast [where h = False and mine = "[]" and side = "[]" and k = "en_contract env" and e = e and account = account
        and args = args and s = s, OF user refl this al pre'] show ?thesis
      by (auto simp: submit_sized_def Refusal Let_def asked_map)
  next
    case (Limit rc)
    let ?mine = "\<lparr>cl_action = e, cl_payload = args, cl_rcLimit = rc, cl_intents = intents, cl_contract = None\<rparr>"
    have lone: "press_ok user e args opts (VscCallContract (en_contract env) e args rc intents (key_for e))"
      unfolding press_ok_def
      by (intro conjI, simp, simp add: HiveCustomJsonPerBlock_def, rule exI [of _ "[]"], rule exI [of _ "[]"],
          rule exI [of _ "[(e, args)]"], rule exI [of _ "[]"], simp)
    have "length ?side \<le> MaxSideCalls" using len side(2) by simp
    from press_broadcast [where h = True and mine = "[?mine]" and side = ?side and k = "en_contract env" and e = e and account = account
        and args = args and s = s, OF user refl _ al pre' side' this] five lone show ?thesis
      by (auto simp: submit_sized_def Limit Let_def hive_part_def asked_map asked_send_lone)
  qed
qed


section \<open>A refused dry run is never broadcast\<close>

lemma broadcast_sent:
  "concat (map sent_calls (asked_by (broadcastCalls env calls k key []) s)) \<in> {[], map call_pair calls}"
  using ops_of_calls by (fastforce simp: asked_broadcastCalls split: sum.splits)

text \<open>The node refuses every dry run that ends in this call.\<close>

definition dry_run_refused :: "wallet_env \<Rightarrow> string \<Rightarrow> string \<Rightarrow> bool" where
  "dry_run_refused env e args = (\<forall>acct calls. calls \<noteq> [] \<and> sc_action (last calls) = e \<and> sc_payload (last calls) = args \<longrightarrow>
     (\<exists>rows. en_simulate env acct calls = Inr (Some rows) \<and> rows \<noteq> [] \<and> \<not> sr_success (last rows)))"

lemma simulate_refuses:
  assumes "dry_run_refused env e args"
  shows "\<exists>m h. simulate env account e args intents probe precall = Inr (SimRefused m h)"
proof -
  let ?pre = "case precall of None \<Rightarrow> [] | Some p \<Rightarrow> [\<lparr>sc_contract = nullish (cl_contract p) [], sc_action = cl_action p,
      sc_payload = cl_payload p, sc_rcLimit = probe, sc_intents = []\<rparr>]"
  let ?me = "\<lparr>sc_contract = en_contract env, sc_action = e, sc_payload = args, sc_rcLimit = probe, sc_intents = intents\<rparr>"
  obtain rows where "en_simulate env (qualifyAuth account) (?pre @ [?me]) = Inr (Some rows)" "rows \<noteq> []" "\<not> sr_success (last rows)"
    using assms [unfolded dry_run_refused_def, rule_format, of "?pre @ [?me]" "qualifyAuth account"] by auto
  then show ?thesis by (simp add: simulate_def Let_def)
qed

lemma sizeRc_refuses:
  assumes "dry_run_refused env e args"
  shows "\<exists>r. fst (run_state (sizeRc env account e args intents t) s) = Refusal r"
proof -
  obtain a s1 where a: "run_state (availableRc env account) s = (a, s1)" by fastforce
  obtain c s2 where c: "run_state (allowanceCall env e args) s1 = (c, s2)" by fastforce
  obtain m h where "simulate env account e args intents (probe_limit e args t a) c = Inr (SimRefused m h)"
    using simulate_refuses [OF assms] by blast
  then show ?thesis by (simp add: sizeRc_def a c)
qed

text \<open>The stages of a press, once the intents are known.\<close>

lemma submit_stages:
  assumes "draw_intents e args = Inr intents"
  obtains al zs z ys s2 s3 s4 s1 where
    "run_state (allowanceCall env e args) s = (al, s1)"
    "run_state (sizeRc env account e args intents (nullish (so_rcLimit opts) (table_limit env e))) s2 = (z, s3)"
    "prefix (map fst zs) (so_preCalls opts)"
    "run_state (submit env account e args opts) s
      = run_state (submit_sized env account e args intents (case al of None \<Rightarrow> [] | Some c \<Rightarrow> [c]) zs z ys) s4"
    "ws_asked s4 = ws_asked s"
proof -
  obtain al s1 where al: "run_state (allowanceCall env e args) s = (al, s1)" by fastforce
  let ?al = "case al of None \<Rightarrow> [] | Some c \<Rightarrow> [c]"
  let ?pre = "take (HiveCustomJsonPerBlock - 1 - length ?al) (so_preCalls opts)"
  let ?side = "take (min MaxSideCalls (HiveCustomJsonPerBlock - 1 - length ?al - length ?pre)) (so_sideCalls opts)"
  obtain zs s2 where zs: "run_state (sizeAll env account ?pre) s1 = (zs, s2)" by fastforce
  obtain z s3 where z: "run_state (sizeRc env account e args intents (nullish (so_rcLimit opts) (table_limit env e))) s2 = (z, s3)"
    by fastforce
  obtain ys s4 where ys: "run_state (sizeAll env account ?side) s3 = (ys, s4)" by fastforce
  have run: "run_state (submit env account e args opts) s
      = run_state (submit_sized env account e args intents ?al zs z ys) s4"
    unfolding submit_def assms sum.case Let_def by (simp only: run_state_bind al zs z ys prod.case)
  have "ws_asked s4 = ws_asked s"
    using silentD [OF silent_allowanceCall al] silentD [OF silent_sizeAll zs] silentD [OF silent_sizeRc z]
      silentD [OF silent_sizeAll ys] by simp
  then show thesis using that [OF al z _ run] sizeAll_fst [OF zs] take_is_prefix by metis
qed

text \<open>C2. A call whose dry run is refused is never broadcast, whatever rides with it,
  whatever the meter says and whatever the options: the transaction the wallet
  signs, if it signs one, does not contain it.\<close>

theorem refused_never_broadcast:
  assumes "dry_run_refused env e args"
    and "e \<noteq> ''increaseAllowance''" and "(e, args) \<notin> set (map entry_pair (so_preCalls opts))"
  shows "(e, args) \<notin> set (concat (map sent_calls (asked_by (submit env account e args opts) s)))"
proof (cases "draw_intents e args")
  case (Inl x)
  then show ?thesis by (simp add: submit_def)
next
  case (Inr intents)
  obtain al zs z ys s2 s3 s4 s1 where st: "run_state (allowanceCall env e args) s = (al, s1)"
    "run_state (sizeRc env account e args intents (nullish (so_rcLimit opts) (table_limit env e))) s2 = (z, s3)"
    "prefix (map fst zs) (so_preCalls opts)"
    "run_state (submit env account e args opts) s
      = run_state (submit_sized env account e args intents (case al of None \<Rightarrow> [] | Some c \<Rightarrow> [c]) zs z ys) s4"
    "ws_asked s4 = ws_asked s" using submit_stages [OF Inr] .
  let ?al = "case al of None \<Rightarrow> [] | Some c \<Rightarrow> [c]" and ?pre = "affordable_prefix zs"
  obtain r where z: "z = Refusal r" using sizeRc_refuses [OF assms(1), of account intents "nullish (so_rcLimit opts) (table_limit env e)" s2] st(2)
    by (auto simp del: ex_simps)
  have al: "(e, args) \<notin> set (map call_pair ?al)"
    using allowanceCall_action [of env e args s] st(1) assms(2) by (cases al) auto
  have "set (map call_pair ?pre) \<subseteq> set (map entry_pair (so_preCalls opts))"
    by (rule set_mono_prefix [OF prefix_affordable_calls [OF st(3)]])
  then have pre: "(e, args) \<notin> set (map call_pair (?al @ ?pre))" using al assms(3) by auto
  have "asked_by (submit env account e args opts) s = asked_by (submit_sized env account e args intents ?al zs z ys) s4"
    using st(4,5) by (simp add: asked_by_def)
  also have "\<dots> = [] \<or> \<dots> = asked_by (broadcastCalls env (?al @ ?pre) (en_contract env) (key_for e) []) s4"
    by (simp add: submit_sized_def z Let_def asked_map)
  finally have "concat (map sent_calls (asked_by (submit env account e args opts) s)) \<in> {[], map call_pair (?al @ ?pre)}"
    using broadcast_sent [of env "?al @ ?pre" "en_contract env" "key_for e" s4] by (elim disjE) (simp_all only: list.map concat.simps insertI1)
  then show ?thesis by (elim insertE emptyE) (simp_all only: pre list.set empty_iff simp_thms)
qed

section \<open>A limit the account can carry\<close>

lemma fit_limit_meter:
  assumes "fit_limit env e args t gas (Some a) mx = Limit lim"
  shows "lim \<le> a \<and> lim \<le> RC_CEILING \<and>
    (draws_hbd e \<longrightarrow> opt_holds (\<lambda>d. lim + d + PROBE_MARGIN_MILLI \<le> a) (drawMilli e args) \<or> drawMilli e args = None)"
proof -
  have w: "sized_limit t gas \<le> RC_CEILING" by (simp add: sized_limit_def)
  show ?thesis
  proof (cases "if draws_hbd e then drawMilli e args else None")
    case None
    then show ?thesis using assms w by (auto simp: fit_limit_def Let_def split: if_splits)
  next
    case (Some d)
    then have d: "draws_hbd e" "drawMilli e args = Some d" by (auto split: if_splits)
    have "0 \<le> d" using d(2) by (auto simp: drawMilli_def Let_def split: option.splits if_splits)
    then show ?thesis using assms w d by (auto simp: fit_limit_def Let_def PROBE_MARGIN_MILLI_def split: if_splits)
  qed
qed

text \<open>C3. With a meter that reads a, the limit a call is sent at is never above a, nor
  above the larger of the table's figure and the ceiling; and when an HBD draw
  was sized from its dry run, the limit, the draw and the margin together fit in
  a, because admission reserves the limit from the balance the draw comes out of.\<close>

theorem sizeRc_within_meter:
  assumes "run_state (availableRc env account) s = (Some a, s1)"
    and "run_state (sizeRc env account e args intents t) s = (Limit lim, s2)"
  shows "lim \<le> a \<and> lim \<le> max t RC_CEILING \<and>
    (drawMilli e args = Some d \<and> lim \<noteq> t \<longrightarrow> lim + d + PROBE_MARGIN_MILLI \<le> a)"
proof -
  obtain c s3 where c: "run_state (allowanceCall env e args) s1 = (c, s3)" by fastforce
  have size: "fst (run_state (sizeRc env account e args intents t) s) = (case simulate env account e args intents (probe_limit e args t (Some a)) c of
       Inl _ \<Rightarrow> if opt_holds (\<lambda>a. a < t) (Some a) then Refusal (rcRefusal env t (the (Some a)) (ws_maxRc s3)) else Limit t
     | Inr (SimRefused msg hit) \<Rightarrow> Refusal (explain_refusal e msg hit)
     | Inr (SimOk gas) \<Rightarrow> fit_limit env e args t gas (Some a) (ws_maxRc s3))"
    unfolding sizeRc_def by (simp only: run_state_bind run_state_get run_state_return assms(1) c prod.case fst_conv)
  note lim = size [unfolded assms(2) fst_conv]
  have draws: "drawMilli e args = Some d \<Longrightarrow> draws_hbd e" by (auto simp: drawMilli_def draws_hbd_def split: option.splits)
  show ?thesis
  proof (cases "simulate env account e args intents (probe_limit e args t (Some a)) c")
    case (Inl x)
    then show ?thesis using lim by (auto split: if_splits)
  next
    case (Inr out)
    then obtain gas where "out = SimOk gas" using lim by (cases out) auto
    then have "fit_limit env e args t gas (Some a) (ws_maxRc s3) = Limit lim" using lim Inr by simp
    from fit_limit_meter [OF this] show ?thesis using draws by auto
  qed
qed

section \<open>Claim all\<close>

lemma claim_calls_prefix:
  "run_state (claim_calls env account e t ids calls) s = ((out, fr), s') \<Longrightarrow>
   ws_asked s' = ws_asked s \<and> (\<exists>n. map call_pair out = map call_pair calls @ map (\<lambda>i. (e, show_int i)) (take n ids))"
proof (induction ids arbitrary: calls s)
  case Nil
  then show ?case by simp
next
  case (Cons i ids)
  obtain z s1 where z: "run_state (sizeRc env account e (show_int i) [] t) s = (z, s1)" by fastforce
  note quiet1 = silentD [OF silent_sizeRc z]
  show ?case
  proof (cases z)
    case (Refusal r)
    then show ?thesis using Cons.prems z quiet1 by (auto intro: exI [of _ 0])
  next
    case (Limit lim)
    then have "run_state (claim_calls env account e t ids (calls @ [plain_call e (show_int i) lim])) s1 = ((out, fr), s')"
      using Cons.prems z by simp
    from Cons.IH [OF this] quiet1 obtain n where "ws_asked s' = ws_asked s"
      "map call_pair out = map call_pair (calls @ [plain_call e (show_int i) lim]) @ map (\<lambda>i. (e, show_int i)) (take n ids)" by auto
    then show ?thesis by (auto simp: plain_call_def intro: exI [of _ "Suc n"])
  qed
qed

lemma asked_bind: "asked_by (State_Monad.bind m f) s = (case run_state m s of (x, t) \<Rightarrow>
    drop (length (ws_asked s)) (ws_asked (snd (run_state (f x) t))))"
  by (simp add: asked_by_def case_prod_beta)

lemma send_chunks_asked:
  "\<forall>c \<in> set chunks. length c \<le> HiveCustomJsonPerBlock \<Longrightarrow> en_user env = Some user \<Longrightarrow>
   \<exists>qs n. ws_asked (snd (run_state (send_chunks env key total_ids chunks res sent) s)) = ws_asked s @ qs
     \<and> concat (map sent_calls qs) = map call_pair (concat (take n chunks))
     \<and> list_all (\<lambda>q. custom_jsons q \<le> HiveCustomJsonPerBlock \<and> signed_under user key q) qs"
proof (induction chunks arbitrary: res sent s)
  case Nil
  then show ?case by (auto intro: exI [of _ "[]"])
next
  case (Cons chunk chunks)
  show ?case
  proof (cases "mapR (\<lambda>c. vscOp env c (nullish (cl_contract c) (en_contract env)) key) chunk")
    case (Inl x)
    then show ?thesis by (auto simp: broadcastCalls_def intro!: exI [of _ "[]"] exI [of _ 0])
  next
    case (Inr ops)
    let ?q = "SignAndBroadcast ops key"
    let ?r = "tx_of_reply (en_reply env (length (ws_asked s)) ?q) ''submitted''"
    let ?s = "s\<lparr>ws_rc := None, ws_asked := ws_asked s @ [?q]\<rparr>"
    note ops = ops_of_calls [OF Inr] ops_signed [OF Inr Cons.prems(2)]
    have q: "sent_calls ?q = map call_pair chunk" "custom_jsons ?q \<le> HiveCustomJsonPerBlock" "signed_under user key ?q"
      using ops Cons.prems(1) by auto
    have run: "run_state (broadcastCalls env chunk (en_contract env) key []) s = (Inr ?r, ?s)"
      by (simp add: broadcastCalls_def Inr run_broadcast)
    show ?thesis
    proof (cases "tr_ok ?r")
      case True
      from Cons.IH [of ?r "sent + length chunk" ?s] Cons.prems obtain qs n where IH:
        "ws_asked (snd (run_state (send_chunks env key total_ids chunks ?r (sent + length chunk)) ?s)) = ws_asked ?s @ qs"
        "concat (map sent_calls qs) = map call_pair (concat (take n chunks))"
        "list_all (\<lambda>q. custom_jsons q \<le> HiveCustomJsonPerBlock \<and> signed_under user key q) qs" by auto
      then show ?thesis using q run True
        by (intro exI [of _ "?q # qs"] exI [of _ "Suc n"]) simp
    next
      case False
      then show ?thesis using q run by (intro exI [of _ "[?q]"] exI [of _ "Suc 0"]) simp
    qed
  qed
qed

lemma claimAll_asked:
  assumes "en_user env = Some user"
  shows "let qs = asked_by (claimAllOf env account e ids) s in
    prefix (concat (map sent_calls qs)) (map (\<lambda>i. (e, show_int i)) (take MaxClaimAllBatch ids))
    \<and> list_all (\<lambda>q. custom_jsons q \<le> HiveCustomJsonPerBlock \<and> signed_under user (key_for e) q) qs"
proof -
  obtain calls fr s1 where cr: "run_state (claim_calls env account e (table_limit env e) (take MaxClaimAllBatch ids) []) s = ((calls, fr), s1)"
    by (metis prod.collapse)
  from claim_calls_prefix [OF cr] obtain n where n: "ws_asked s1 = ws_asked s"
    "map call_pair calls = map (\<lambda>i. (e, show_int i)) (take n (take MaxClaimAllBatch ids))" by auto
  show ?thesis
  proof (cases "calls = []")
    case True
    then show ?thesis by (simp add: claimAllOf_def asked_bind cr n(1))
  next
    case False
    let ?send = "send_chunks env (key_for e) (length ids) (batches HiveCustomJsonPerBlock calls) (refused ''nothing to claim'') 0"
    have "\<forall>c \<in> set (batches HiveCustomJsonPerBlock calls). length c \<le> HiveCustomJsonPerBlock"
      using batches_length [of HiveCustomJsonPerBlock _ calls] by (simp add: HiveCustomJsonPerBlock_def)
    from send_chunks_asked [OF this assms, of "key_for e" "length ids" "refused ''nothing to claim''" 0 s1] obtain qs m where
      qs: "ws_asked (snd (run_state ?send s1)) = ws_asked s @ qs"
        "concat (map sent_calls qs) = map call_pair (concat (take m (batches HiveCustomJsonPerBlock calls)))"
        "list_all (\<lambda>q. custom_jsons q \<le> HiveCustomJsonPerBlock \<and> signed_under user (key_for e) q) qs" using n(1) by auto
    have asked: "asked_by (claimAllOf env account e ids) s = qs"
      using False qs(1) by (simp add: claimAllOf_def asked_bind cr case_prod_beta)
    have "prefix (concat (take m (batches HiveCustomJsonPerBlock calls))) calls"
      by (metis append_take_drop_id concat_append concat_batches prefixI)
    then have "prefix (concat (map sent_calls qs)) (map call_pair calls)" unfolding qs(2) by (rule map_mono_prefix)
    moreover have "prefix (map call_pair calls) (map (\<lambda>i. (e, show_int i)) (take MaxClaimAllBatch ids))"
      unfolding n(2) by (intro map_mono_prefix take_is_prefix)
    ultimately have "prefix (concat (map sent_calls qs)) (map (\<lambda>i. (e, show_int i)) (take MaxClaimAllBatch ids))"
      by (rule prefix_order.trans)
    then show ?thesis unfolding asked Let_def using qs(3) by (rule conjI)
  qed
qed

text \<open>Claiming several positions signs transactions of at most five calls each,
  under the entrypoint's key, and the calls of all of them together are the claims
  of a prefix of the first twelve ids, in order: no id is skipped over, none is
  claimed twice, and none is claimed that was not asked for.\<close>

theorem claimAll_prefix:
  assumes "en_user env = Some user"
  shows "let qs = asked_by (claimAllOf env account e ids) s in
    prefix (concat (map sent_calls qs)) (map (\<lambda>i. (e, show_int i)) (take MaxClaimAllBatch ids))
    \<and> list_all (\<lambda>q. custom_jsons q \<le> HiveCustomJsonPerBlock \<and> signed_under user (key_for e) q) qs"
  by (rule claimAll_asked [OF assms])

section \<open>An allowance signed on its own\<close>

text \<open>The node refuses every dry run that ends in this call with this message.\<close>

definition dry_run_says :: "wallet_env \<Rightarrow> string \<Rightarrow> string \<Rightarrow> string \<Rightarrow> bool" where
  "dry_run_says env e args m = (\<forall>acct calls. calls \<noteq> [] \<and> sc_action (last calls) = e \<and> sc_payload (last calls) = args \<longrightarrow>
     (\<exists>ok bad. en_simulate env acct calls = Inr (Some (ok @ [bad])) \<and> list_all sr_success ok
        \<and> \<not> sr_success bad \<and> sr_err bad = Some m))"

lemma simulate_says:
  assumes "dry_run_says env e args m"
  shows "simulate env account e args intents probe precall = Inr (SimRefused m (gas_limit_hit m))"
proof -
  let ?pre = "case precall of None \<Rightarrow> [] | Some p \<Rightarrow> [\<lparr>sc_contract = nullish (cl_contract p) [], sc_action = cl_action p,
      sc_payload = cl_payload p, sc_rcLimit = probe, sc_intents = []\<rparr>]"
  let ?me = "\<lparr>sc_contract = en_contract env, sc_action = e, sc_payload = args, sc_rcLimit = probe, sc_intents = intents\<rparr>"
  obtain ok bad where r: "en_simulate env (qualifyAuth account) (?pre @ [?me]) = Inr (Some (ok @ [bad]))"
    "list_all sr_success ok" "\<not> sr_success bad" "sr_err bad = Some m"
    using assms [unfolded dry_run_says_def, rule_format, of "?pre @ [?me]" "qualifyAuth account"] by auto
  have "hd (ok @ [bad]) = bad \<or> sr_success (hd (ok @ [bad]))" using r(2) by (cases ok) auto
  then show ?thesis using r by (auto simp: simulate_def Let_def)
qed

text \<open>C30. When the dry run answers that accrual is behind and no slice is ready to
  be sent, a call that debits LASSECASH still makes the wallet sign a transaction:
  one that holds nothing but the token allowance.  The page then reports that the
  chain was advanced one step.\<close>

theorem allowance_sent_alone:
  assumes user: "en_user env = Some user" and intents: "draw_intents e args = Inr intents"
    and al: "run_state (allowanceCall env e args) s = (Some c, s1)"
    and none: "so_preCalls opts = []" and says: "dry_run_says env e args m"
    and behind: "asks_advance (tr_msg (explain_refusal e m (gas_limit_hit m)))"
    and signed: "\<And>n q. wr_success (en_reply env n q)"
  shows "\<exists>q r. asked_by (submit env account e args opts) s = [q] \<and> sent_calls q = [(''increaseAllowance'', cl_payload c)]
    \<and> fst (run_state (submit env account e args opts) s) = Inr r \<and> \<not> tr_ok r
    \<and> tr_msg r = ''the chain is catching up on matured mints'' @ em_dash @ ''this transaction advanced it 1 step; press again''"
proof -
  obtain al' zs z ys s2 s3 s4 s1' where st: "run_state (allowanceCall env e args) s = (al', s1')"
    "run_state (sizeRc env account e args intents (nullish (so_rcLimit opts) (table_limit env e))) s2 = (z, s3)"
    "prefix (map fst zs) (so_preCalls opts)"
    "run_state (submit env account e args opts) s
      = run_state (submit_sized env account e args intents (case al' of None \<Rightarrow> [] | Some c \<Rightarrow> [c]) zs z ys) s4"
    "ws_asked s4 = ws_asked s" using submit_stages [OF intents] .
  have al': "al' = Some c" and zs: "zs = []" using al st(1,3) none by simp_all
  obtain b t where b: "run_state (availableRc env account) s2 = (b, t)" by fastforce
  obtain p u where p: "run_state (allowanceCall env e args) t = (p, u)" by fastforce
  have "fst (run_state (sizeRc env account e args intents (nullish (so_rcLimit opts) (table_limit env e))) s2)
      = Refusal (explain_refusal e m (gas_limit_hit m))"
    by (simp add: sizeRc_def b p simulate_says [OF says])
  then have z: "z = Refusal (explain_refusal e m (gas_limit_hit m))" using st(2) by simp
  obtain op where op: "vscOp env c (nullish (cl_contract c) (en_contract env)) (key_for e) = Inr op"
    using user by (simp add: vscOp_def)
  let ?q = "SignAndBroadcast [op] (key_for e)"
  have call: "cl_action c = ''increaseAllowance''" using allowanceCall_action [OF al] by simp
  have sub: "run_state (submit_sized env account e args intents [c] [] z ys) s4 =
      run_state (State_Monad.bind (broadcastCalls env [c] (en_contract env) (key_for e) [])
        (\<lambda>res. State_Monad.return (rmap (caught_up 1) res))) s4"
    using behind by (simp add: submit_sized_def z)
  have run: "run_state (submit env account e args opts) s = (Inr (caught_up 1
      (tx_of_reply (en_reply env (length (ws_asked s4)) ?q) ''submitted'')), s4\<lparr>ws_rc := None, ws_asked := ws_asked s4 @ [?q]\<rparr>)"
    unfolding st(4) al' zs option.case sub by (simp add: broadcastCalls_def op run_broadcast)
  have "asked_by (submit env account e args opts) s = [?q]" by (simp add: asked_by_def run st(5))
  moreover have "sent_calls ?q = [(''increaseAllowance'', cl_payload c)]"
    using vscOp_call [OF op] call by (simp add: map_filter_simps)
  ultimately show ?thesis using signed by (simp add: run caught_up_def tx_of_reply_def show_nat_small digit_char_eval)
qed

section \<open>A wallet to try them on\<close>

text \<open>The node refuses a mint because accrual is behind and takes anything else.\<close>

definition behind_msg :: string where
  "behind_msg = ''accrual is behind; call advance then mint again''"

definition sample_env :: wallet_env where
  "sample_env = \<lparr>en_contract = ''vsc1Core'', en_netId = ''vsc-mainnet'', en_rcLimit = 1500, en_siteUrl = ''https://lassecash.com'',
     en_user = Some ''alice'', en_loggedIn = True, en_now = 0,
     en_reply = (\<lambda>_ _. \<lparr>wr_success = True, wr_result = Some ''tx'', wr_error = None\<rparr>),
     en_simulate = (\<lambda>_ calls. Inr (Some (map (\<lambda>c. if sc_action c = ''mint''
        then \<lparr>sr_success = False, sr_err = Some behind_msg, sr_gas = 0\<rparr>
        else \<lparr>sr_success = True, sr_err = None, sr_gas = 200000\<rparr>) (if calls = [] then [] else
          filter (\<lambda>c. sc_action c \<noteq> ''mint'') (butlast calls) @ [last calls])))),
     en_accountRc = (\<lambda>_. Inr (Some (Some 20000, Some 20000))), en_cfgToken = Inr (Some ''vsc1Token''),
     en_confirm = None, en_locale = show_int\<rparr>"

lemma sample_says: "dry_run_says sample_env ''mint'' args behind_msg"
  by (auto simp: dry_run_says_def sample_env_def list_all_iff)

lemma sample_refused: "dry_run_refused sample_env ''mint'' args"
  by (auto simp: dry_run_refused_def sample_env_def)


lemma refused_never_broadcast_witness:
  "(''mint'', ''500000000|30'') \<notin> set (concat (map sent_calls
     (asked_by (submit sample_env ''alice'' ''mint'' ''500000000|30'' no_options) fresh_wallet)))"
  by (rule refused_never_broadcast [OF sample_refused]) (simp_all add: no_options_def)

lemma claimAll_prefix_witness:
  "let qs = asked_by (claimAllOf sample_env ''alice'' ''claim_pool'' [1, 2, 3, 4, 5, 6]) fresh_wallet in
    prefix (concat (map sent_calls qs)) (map (\<lambda>i. (''claim_pool'', show_int i)) (take MaxClaimAllBatch [1, 2, 3, 4, 5, 6]))
    \<and> list_all (\<lambda>q. custom_jsons q \<le> HiveCustomJsonPerBlock \<and> signed_under ''alice'' (key_for ''claim_pool'') q) qs"
  by (rule claimAll_prefix) (simp add: sample_env_def)

lemma sample_rc: "run_state (availableRc sample_env ''alice'') fresh_wallet = (Some 20000,
    fresh_wallet\<lparr>ws_maxRc := Some 20000, ws_rc := Some \<lparr>rr_account = ''alice'', rr_amount = Some 20000, rr_at = 0\<rparr>\<rparr>)"
  by (simp add: availableRc_def readRc_def sample_env_def fresh_wallet_def)

lemma sample_size: "fst (run_state (sizeRc sample_env ''alice'' ''claim_pool'' ''1'' [] 4000) fresh_wallet) = Limit 4000"
proof -
  have "allowanceCall sample_env ''claim_pool'' ''1'' = State_Monad.return None"
    by (simp add: allowanceCall_def TOKEN_DEBIT_OPS_def)
  moreover have "simulate sample_env ''alice'' ''claim_pool'' ''1'' [] 100000 None = Inr (SimOk 200000)"
    by (simp add: simulate_def sample_env_def)
  moreover have "probe_limit ''claim_pool'' ''1'' 4000 (Some 20000) = 100000"
    by (simp add: probe_limit_def draws_hbd_def HBD_DRAW_OPS_def)
  moreover have "fit_limit sample_env ''claim_pool'' ''1'' 4000 200000 (Some 20000) mx = Limit 4000" for mx
    by (simp add: fit_limit_def draws_hbd_def HBD_DRAW_OPS_def sized_limit_def ceil_div_def GAS_PER_RC_def RC_HEADROOM_def RC_CEILING_def)
  ultimately show ?thesis by (simp add: sizeRc_def sample_rc)
qed

lemma sizeRc_within_meter_witness: "\<exists>lim. fst (run_state (sizeRc sample_env ''alice'' ''claim_pool'' ''1'' [] 4000) fresh_wallet) = Limit lim \<and> lim \<le> 20000"
proof -
  obtain s2 where "run_state (sizeRc sample_env ''alice'' ''claim_pool'' ''1'' [] 4000) fresh_wallet = (Limit 4000, s2)"
    using sample_size by (metis prod.collapse)
  from sizeRc_within_meter [OF sample_rc this] sample_size show ?thesis by blast
qed

lemma sample_fields: "en_contract sample_env = ''vsc1Core''" "en_cfgToken sample_env = Inr (Some ''vsc1Token'')"
  "en_user sample_env = Some ''alice''" "wr_success (en_reply sample_env n q)"
  by (simp_all add: sample_env_def)

lemma sample_amount: "js_trim (arg_at 0 ''500000000|30'' ''0'') = ''500000000''" "all_digits ''500000000''"
  by code_simp+

lemma sample_allowance: "\<exists>t. run_state (allowanceCall sample_env ''mint'' ''500000000|30'') fresh_wallet = (Some
    \<lparr>cl_action = ''increaseAllowance'', cl_payload = allowance_for ''vsc1Core'' ''500000000'', cl_rcLimit = ALLOWANCE_RC,
     cl_intents = [], cl_contract = Some ''vsc1Token''\<rparr>, t)"
proof -
  have debit: "map_of TOKEN_DEBIT_OPS ''mint'' = Some 0" by (simp add: TOKEN_DEBIT_OPS_def)
  obtain t where "run_state (tokenContract sample_env) fresh_wallet = (Some ''vsc1Token'', t)"
    by (simp add: tokenContract_def fresh_wallet_def sample_fields Let_def)
  then show ?thesis
    by (simp add: allowanceCall_def debit sample_amount sample_fields(1) Let_def)
qed

lemma allowance_sent_alone_witness:
  "\<exists>q r. asked_by (submit sample_env ''alice'' ''mint'' ''500000000|30'' no_options) fresh_wallet = [q]
    \<and> sent_calls q = [(''increaseAllowance'', allowance_for ''vsc1Core'' ''500000000'')]
    \<and> fst (run_state (submit sample_env ''alice'' ''mint'' ''500000000|30'' no_options) fresh_wallet) = Inr r \<and> \<not> tr_ok r"
proof -
  obtain t where al: "run_state (allowanceCall sample_env ''mint'' ''500000000|30'') fresh_wallet = (Some
    \<lparr>cl_action = ''increaseAllowance'', cl_payload = allowance_for ''vsc1Core'' ''500000000'', cl_rcLimit = ALLOWANCE_RC,
     cl_intents = [], cl_contract = Some ''vsc1Token''\<rparr>, t)" using sample_allowance by blast
  have intents: "draw_intents ''mint'' ''500000000|30'' = Inr []" by (simp add: draw_intents_def HBD_DRAW_OPS_def)
  have behind: "asks_advance (tr_msg (explain_refusal ''mint'' behind_msg (gas_limit_hit behind_msg)))" by code_simp
  have none: "so_preCalls no_options = []" by (simp add: no_options_def)
  from allowance_sent_alone [OF sample_fields(3) intents al none sample_says behind sample_fields(4), of "''alice''"]
  obtain q r where "asked_by (submit sample_env ''alice'' ''mint'' ''500000000|30'' no_options) fresh_wallet = [q]"
    "sent_calls q = [(''increaseAllowance'', allowance_for ''vsc1Core'' ''500000000'')]"
    "fst (run_state (submit sample_env ''alice'' ''mint'' ''500000000|30'' no_options) fresh_wallet) = Inr r" "\<not> tr_ok r"
    unfolding contract_call.select_convs by blast
  then show ?thesis by blast
qed

end
