(* ===== verification/MagiNode.thy ===== *)
theory MagiNode
  imports Discovery Engine
begin

text \<open>
  What the backend (magi-backend.ts) asks of a MAGI node, Hive and the site's
  index, with the three primitives every read is built on: 'query', 'state' and
  the paged walks.  The network is an argument: one field per GraphQL query, Hive
  call or index request the file sends, from the query's variables to its reply.
  A read sees one reply per distinct request.
\<close>

section \<open>Replies\<close>

record 'a gql_body =
  gb_data :: "'a option"
  gb_errors :: "string list"

text \<open>The failover fetch of a query: a network error, or the parsed body.\<close>

type_synonym 'a reply = "'a gql_body result"

definition query :: "'a reply \<Rightarrow> 'a result" where
  "query r = rbind r (\<lambda>body.
     if gb_errors body \<noteq> [] then throw (''MAGI GraphQL: '' @ js_join ''; '' (gb_errors body))
     else case gb_data body of None \<Rightarrow> throw ''MAGI returned no data'' | Some d \<Rightarrow> Inr d)"

definition served :: "'a \<Rightarrow> 'a reply" where
  "served d = Inr \<lparr>gb_data = Some d, gb_errors = []\<rparr>"

lemma query_served [simp]: "query (served d) = Inr d"
  by (simp add: query_def served_def)

record raw_op =
  ro_type :: string
  ro_action :: "string option"
  ro_payload :: "string option"
  ro_contract :: "string option"
  ro_from :: "string option"
  ro_to :: "string option"
  ro_amount :: "string option"
  ro_asset :: "string option"

record chain_tx =
  cx_id :: string
  cx_height :: int
  cx_ts :: string
  cx_status :: string
  cx_auths :: "string list"
  cx_posting :: "string list"
  cx_outputs :: "string list"
  cx_ops :: "raw_op list"

text \<open>The columns a discovery query selects.\<close>

definition discover_cols :: "chain_tx \<Rightarrow> discover_tx" where
  "discover_cols tx = \<lparr>dt_ts = Some (cx_ts tx), dt_status = Some (cx_status tx), dt_auths = cx_auths tx,
     dt_posting_auths = cx_posting tx,
     dt_ops = map (\<lambda>c. \<lparr>dop_type = ro_type c, dop_action = ro_action c, dop_payload = ro_payload c\<rparr>) (cx_ops tx)\<rparr>"

text \<open>'(required_auths ?? [])[0] ?? (required_posting_auths ?? [])[0]'.\<close>

definition first_auth :: "chain_tx \<Rightarrow> string option" where
  "first_auth tx = (case cx_auths tx of a # _ \<Rightarrow> Some a | [] \<Rightarrow>
     (case cx_posting tx of a # _ \<Rightarrow> Some a | [] \<Rightarrow> None))"

record index_body =
  ib_complete :: bool
  ib_txs :: "discover_tx list option"

record hive_comment =
  hc_author :: string
  hc_permlink :: string
  hc_body :: "string option"
  hc_created :: string
  hc_parent_author :: string
  hc_parent_permlink :: string

record rc_row =
  rw_max :: "int option"
  rw_mana :: "int option"
  rw_update :: "int option"

record hive_post =
  hq_author :: string
  hq_title :: "string option"
  hq_body :: "string option"
  hq_json_metadata :: string
  hq_category :: string
  hq_parent_permlink :: string
  hq_created :: string

section \<open>The network\<close>

record network =
  nt_contract :: string
  nt_indexed :: bool
  nt_index :: "string list \<Rightarrow> index_body option result"
  nt_state :: "string list \<Rightarrow> (string \<rightharpoonup> string) option reply"
  nt_hex :: "string \<Rightarrow> string list \<Rightarrow> (string \<rightharpoonup> string) reply"
  nt_height :: "int reply"
  nt_rc :: "string \<Rightarrow> (int \<times> int) option reply"
  nt_balance :: "string \<Rightarrow> (int \<times> int) option reply"
  nt_simulate :: "string \<Rightarrow> string \<Rightarrow> string \<Rightarrow> string \<Rightarrow> int \<Rightarrow> (bool \<times> string option) list option reply"
  nt_tx :: "string \<Rightarrow> (string \<times> string list) list option reply"
  nt_dag :: "string \<Rightarrow> string reply"
  nt_txs :: "nat \<Rightarrow> nat \<Rightarrow> chain_tx list option reply"
  nt_txsOf :: "string \<Rightarrow> nat \<Rightarrow> chain_tx list option reply"
  nt_signed :: "string \<Rightarrow> nat \<Rightarrow> chain_tx list option reply"
  nt_output :: "string \<Rightarrow> (string \<times> contract_output) list option reply"
  nt_outputs :: "nat \<Rightarrow> nat \<Rightarrow> (int \<times> contract_output) list option reply"
  nt_ranked :: "string \<Rightarrow> nat \<Rightarrow> hive_tagged_post list option result"
  nt_postsOf :: "string \<Rightarrow> nat \<Rightarrow> hive_tagged_post list option result"
  nt_replies :: "string \<Rightarrow> string \<Rightarrow> hive_comment list option result"
  nt_hiveAccount :: "string \<Rightarrow> (string option \<times> string option) option result"
  nt_hiveRc :: "string \<Rightarrow> rc_row option result"
  nt_content :: "string \<Rightarrow> string \<Rightarrow> hive_post option result"
  nt_engine :: engine
  nt_now :: int

section \<open>Contract state\<close>

type_synonym rows = "string \<rightharpoonup> string"

definition MAX_KEYS :: nat where "MAX_KEYS = 100"

definition state_batch :: "network \<Rightarrow> string list \<Rightarrow> rows result" where
  "state_batch nt b = rmap (\<lambda>r. nullish r Map.empty) (query (nt_state nt b))"

definition state :: "network \<Rightarrow> string list \<Rightarrow> rows result" where
  "state nt keys = (if keys = [] then Inr Map.empty
     else rmap (foldl (++) Map.empty) (mapR (state_batch nt) (batches MAX_KEYS keys)))"

definition height :: "network \<Rightarrow> int result" where
  "height nt = query (nt_height nt)"

text \<open>A key that is not there and one that holds the empty string are the same
  to every '||' of the file.\<close>

definition text_at :: "rows \<Rightarrow> string \<Rightarrow> string option" where
  "text_at st k = (case st k of Some v \<Rightarrow> if v = [] then None else Some v | None \<Rightarrow> None)"

text \<open>The node refuses a request outside 1..100 keys and answers the others from
  its rows.\<close>

definition serves_rows :: "network \<Rightarrow> rows \<Rightarrow> bool" where
  "serves_rows nt db = (\<forall>ks. nt_state nt ks =
     (if 1 \<le> length ks \<and> length ks \<le> 100 then served (Some (db |` set ks)) else throw ''keys must be 1..100''))"

text \<open>Whatever the number of keys, a read is refused by no batch and answers each
  key asked for exactly as the chain holds it.\<close>

lemma foldl_map_add: "foldl (++) m ms = m ++ foldl (++) Map.empty ms"
proof (induction ms arbitrary: m)
  case (Cons x ms)
  show ?case using Cons.IH [of "m ++ x"] Cons.IH [of x] by (simp add: map_add_assoc)
qed simp

lemma foldl_restrict: "foldl (++) Map.empty (map (\<lambda>b. db |` set b) bs) = db |` set (concat bs)"
proof (induction bs)
  case (Cons b bs)
  show ?case unfolding list.map foldl_Cons foldl_map_add [of "Map.empty ++ db |` set b"] Cons.IH
    by (rule ext) (auto simp: map_add_def restrict_map_def split: option.splits)
qed (simp add: restrict_map_def)

lemma state_batches:
  assumes "serves_rows nt db" "\<forall>b \<in> set bs. b \<noteq> [] \<and> length b \<le> 100"
  shows "mapR (state_batch nt) bs = Inr (map (\<lambda>b. db |` set b) bs)"
proof (rule mapR_total)
  fix b assume "b \<in> set bs"
  then have "b \<noteq> []" "length b \<le> 100" using assms(2) by auto
  then have "nt_state nt b = served (Some (db |` set b))"
    using assms(1) by (simp add: serves_rows_def Suc_le_eq)
  then show "state_batch nt b = Inr (db |` set b)" by (simp add: state_batch_def)
qed

lemma state_serves: "serves_rows nt db \<Longrightarrow> state nt keys = Inr (db |` set keys)"
proof -
  assume s: "serves_rows nt db"
  have "\<forall>b \<in> set (batches MAX_KEYS keys). b \<noteq> [] \<and> length b \<le> 100"
    using batches_length [of 100] by (auto simp: MAX_KEYS_def)
  from state_batches [OF s this] show ?thesis
    by (simp only: state_def foldl_restrict concat_batches rmap_simps) simp
qed

lemma state_serves_at: "serves_rows nt db \<Longrightarrow> k \<in> set keys \<Longrightarrow> rmap (\<lambda>st. st k) (state nt keys) = Inr (db k)"
  by (simp add: state_serves)

text \<open>A node with the rows of one contract and nothing else.\<close>

definition rows_node :: "rows \<Rightarrow> network" where
  "rows_node db = \<lparr>nt_contract = ''vsc1'', nt_indexed = False, nt_index = (\<lambda>_. Inr None),
     nt_state = (\<lambda>ks. if 1 \<le> length ks \<and> length ks \<le> 100 then served (Some (db |` set ks)) else throw ''keys must be 1..100''),
     nt_hex = (\<lambda>_ _. served Map.empty), nt_height = served 1000, nt_rc = (\<lambda>_. served None),
     nt_balance = (\<lambda>_. served None), nt_simulate = (\<lambda>_ _ _ _ _. served None), nt_tx = (\<lambda>_. served None),
     nt_dag = (\<lambda>_. throw ''no such object''), nt_txs = (\<lambda>_ _. served None), nt_txsOf = (\<lambda>_ _. served None),
     nt_signed = (\<lambda>_ _. served None), nt_output = (\<lambda>_. served None), nt_outputs = (\<lambda>_ _. served None),
     nt_ranked = (\<lambda>_ _. Inr None), nt_postsOf = (\<lambda>_ _. Inr None), nt_replies = (\<lambda>_ _. Inr None),
     nt_hiveAccount = (\<lambda>_. Inr None), nt_hiveRc = (\<lambda>_. Inr None), nt_content = (\<lambda>_ _. Inr None),
     nt_engine = None, nt_now = 0\<rparr>"

lemma rows_node_serves: "serves_rows (rows_node db) db"
  by (simp add: serves_rows_def rows_node_def)

text \<open>A read of any number of keys is cut into requests the node accepts (one
  to a hundred keys) and puts their answers back together: every key asked for
  reads exactly what the contract holds under it.\<close>

theorem state_reads_chain:
  assumes "serves_rows nt db"
  shows "\<exists>st. state nt keys = Inr st \<and> list_all (\<lambda>k. st k = db k) keys"
  using state_serves [OF assms, of keys] by (auto simp: list_all_iff)

lemma state_reads_chain_witness:
  "\<exists>st. state (rows_node [''amm_lc'' \<mapsto> ''5'']) [''amm_lc'', ''amm_hbd''] = Inr st
     \<and> list_all (\<lambda>k. st k = [''amm_lc'' \<mapsto> ''5''] k) [''amm_lc'', ''amm_hbd'']"
  by (rule state_reads_chain [OF rows_node_serves])

section \<open>Paged walks\<close>

text \<open>One page after another until a short one ('page.length < PAGE').\<close>

fun walk_pages :: "nat \<Rightarrow> nat \<Rightarrow> (nat \<Rightarrow> 'a list result) \<Rightarrow> nat \<Rightarrow> 'a list result" where
  "walk_pages 0 pg fetch off = Inr []"
| "walk_pages (Suc n) pg fetch off = rbind (fetch off) (\<lambda>page.
     if length page < pg then Inr page else rmap ((@) page) (walk_pages n pg fetch (off + pg)))"

text \<open>The number of turns of 'for (let offset = 0; offset < limit; offset += PAGE)'.\<close>

definition turns :: "nat \<Rightarrow> nat \<Rightarrow> nat" where
  "turns pg limit = (limit + pg - 1) div pg"

text \<open>Pages four at a time: every page of a batch is fetched, rows are kept up to
  and including the first page that ends the walk.\<close>

fun gather :: "('a list \<Rightarrow> bool) \<Rightarrow> 'a list list \<Rightarrow> 'a list \<times> bool" where
  "gather stop [] = ([], False)"
| "gather stop (p # ps) = (if stop p then (p, True) else (case gather stop ps of (rows, b) \<Rightarrow> (p @ rows, b)))"

fun walk_batches :: "('a list \<Rightarrow> bool) \<Rightarrow> (nat \<Rightarrow> 'a list result) \<Rightarrow> nat list list \<Rightarrow> 'a list result" where
  "walk_batches stop fetch [] = Inr []"
| "walk_batches stop fetch (b # bs) = rbind (mapR fetch b) (\<lambda>pages. case gather stop pages of (rows, done) \<Rightarrow>
     if done then Inr rows else rmap ((@) rows) (walk_batches stop fetch bs))"

definition page_at :: "nat \<Rightarrow> 'a list \<Rightarrow> nat \<Rightarrow> 'a list" where
  "page_at pg h off = take pg (drop off h)"

lemma walk_pages_serves:
  assumes "0 < pg" "\<And>off. fetch off = Inr (page_at pg h off)"
  shows "walk_pages n pg fetch off = Inr (take (n * pg) (drop off h))"
proof (induction n arbitrary: off)
  case (Suc n)
  show ?case
  proof (cases "length (page_at pg h off) < pg")
    case True
    then have "length h - off < pg" by (simp add: page_at_def)
    then show ?thesis using True assms(2) [of off] by (simp add: page_at_def)
  next
    case False
    then have "pg \<le> length h - off" by (simp add: page_at_def)
    then show ?thesis using False
      using assms(2) [of off] Suc.IH [of "off + pg"] by (simp add: page_at_def take_add add.commute)
  qed
qed simp

lemma gather_snd: "snd (gather stop ps) = list_ex stop ps"
  by (induction ps) (auto split: prod.splits)

lemma gather_append:
  "fst (gather stop (ps @ qs)) = (if list_ex stop ps then fst (gather stop ps) else concat ps @ fst (gather stop qs))"
  by (induction ps) (auto split: prod.splits)

lemma gather_all: "\<not> list_ex stop ps \<Longrightarrow> fst (gather stop ps) = concat ps"
  using gather_append [of stop ps "[]"] by simp

text \<open>Reading four pages at a time keeps exactly the rows that reading them one
  by one would keep.\<close>

lemma walk_batches_flat:
  assumes "\<And>k. fetch k = Inr (page k)"
  shows "walk_batches stop fetch bs = Inr (fst (gather stop (map page (concat bs))))"
proof (induction bs)
  case (Cons b bs)
  have m: "mapR fetch b = Inr (map page b)" by (rule mapR_total) (simp add: assms)
  obtain rows fin where g: "gather stop (map page b) = (rows, fin)" by fastforce
  have "fin = list_ex stop (map page b)" "fst (gather stop (map page b)) = rows"
    using g gather_snd [of stop "map page b"] by simp_all
  then show ?case using gather_append [of stop "map page b" "map page (concat bs)"] gather_all [of stop "map page b"]
    by (simp add: m g Cons.IH)
qed simp

text \<open>A walk that stops at the first short page, over the pages of one list.\<close>

lemma gather_short:
  assumes "0 < pg"
  shows "fst (gather (\<lambda>p. length p < pg) (map (\<lambda>k. page_at pg h (k * pg)) [m..<m + n])) = take (n * pg) (drop (m * pg) h)"
proof (induction n arbitrary: m)
  case (Suc n)
  have u: "[m..<m + Suc n] = m # [Suc m..<Suc m + n]" by (simp add: upt_rec)
  show ?case
  proof (cases "length (page_at pg h (m * pg)) < pg")
    case True
    then have "length h - m * pg < pg" by (simp add: page_at_def)
    then show ?thesis unfolding u using True by (simp add: page_at_def)
  next
    case False
    have "fst (gather (\<lambda>p. length p < pg) (map (\<lambda>k. page_at pg h (k * pg)) (m # [Suc m..<Suc m + n])))
        = page_at pg h (m * pg) @ take (n * pg) (drop (Suc m * pg) h)"
      using False Suc.IH [of "Suc m"] by (simp add: case_prod_beta del: upt_Suc)
    also have "\<dots> = take (pg + n * pg) (drop (m * pg) h)"
      by (simp add: page_at_def take_add add.commute)
    finally show ?thesis unfolding u by simp
  qed
qed simp

lemma walk_batches_short:
  assumes "0 < pg" "\<And>k. fetch k = Inr (page_at pg h (k * pg))"
  shows "walk_batches (\<lambda>p. length p < pg) fetch (batches b [0..<n]) = Inr (take (n * pg) h)"
  using walk_batches_flat [where stop = "\<lambda>p. length p < pg" and bs = "batches b [0..<n]", OF assms(2)] gather_short [OF assms(1), of h 0 n]
  by simp

lemma turns_enough: "0 < pg \<Longrightarrow> limit \<le> turns pg limit * pg"
proof -
  assume pg: "0 < pg"
  have "limit + pg - 1 = turns pg limit * pg + (limit + pg - 1) mod pg" by (simp add: turns_def)
  moreover have "(limit + pg - 1) mod pg < pg" using pg by simp
  ultimately show ?thesis by linarith
qed

end
