(* ===== verification/ChainReads.thy ===== *)
theory ChainReads
  imports MagiNode AccountHistory
begin

text \<open>
  The backend's reads of balances, verdicts, meters, governance, the chain
  overview and one account (magi-backend.ts).  JavaScript numbers read from state
  are integers or NaN: an 'int option', None being NaN, with which every
  comparison is false and every sum NaN again.
\<close>

section \<open>Numbers that may be NaN\<close>

definition num2 :: "(int \<Rightarrow> int \<Rightarrow> int) \<Rightarrow> int option \<Rightarrow> int option \<Rightarrow> int option" where
  "num2 f a b = (case (a, b) of (Some x, Some y) \<Rightarrow> Some (f x y) | _ \<Rightarrow> None)"

definition num_gt :: "int option \<Rightarrow> int option \<Rightarrow> bool" where
  "num_gt a b = (case (a, b) of (Some x, Some y) \<Rightarrow> y < x | _ \<Rightarrow> False)"

text \<open>'Math.floor(a / b)'.\<close>

definition floor_div :: "int option \<Rightarrow> int option \<Rightarrow> int option" where
  "floor_div a b = (if b = Some 0 then None else num2 (div) a b)"

text \<open>'num(x) || d'.\<close>

definition num_or :: "int option \<Rightarrow> int \<Rightarrow> int" where
  "num_or a d = (case a of Some v \<Rightarrow> if v = 0 then d else v | None \<Rightarrow> d)"

text \<open>'new Date(t).toISOString()' throws for NaN and past the end of time.\<close>

definition iso_of :: "int option \<Rightarrow> string result" where
  "iso_of t = (case t of None \<Rightarrow> throw ''Invalid time value''
     | Some ms \<Rightarrow> if \<bar>ms\<bar> \<le> 8640000000000000 then Inr (toISOString ms) else throw ''Invalid time value'')"

lemma num2_Some: "num2 f a b = Some z \<longleftrightarrow> (\<exists>x y. a = Some x \<and> b = Some y \<and> z = f x y)"
  by (auto simp: num2_def split: option.splits)

section \<open>Balances\<close>

definition full_name :: "string \<Rightarrow> string" where
  "full_name a = (if CHR '':'' \<in> set a then a else ''hive:'' @ a)"

text \<open>The 'balance' of the token's answer; it answers a string of base units.\<close>

definition balance_field :: "string \<Rightarrow> string" where
  "balance_field ret = (case json_parse ret of Inl _ \<Rightarrow> ''0''
     | Inr j \<Rightarrow> (case jfield ''balance'' j of None \<Rightarrow> ''0'' | Some JNull \<Rightarrow> ''0''
         | Some (JStr s) \<Rightarrow> s | Some v \<Rightarrow> stringify v))"

definition tokenBalance :: "network \<Rightarrow> string \<Rightarrow> string \<Rightarrow> string result" where
  "tokenBalance nt tokenId account = (let acct = full_name account in
     rmap (\<lambda>r. case r of Some ((True, Some ret) # _) \<Rightarrow> if ret = [] then ''0'' else balance_field ret | _ \<Rightarrow> ''0'')
       (query (nt_simulate nt acct tokenId ''balanceOf'' (stringify (JObj [(''account'', JStr acct)])) 10000)))"

definition liquidBalance :: "network \<Rightarrow> string \<Rightarrow> string result" where
  "liquidBalance nt account = (let acct = full_name account in
     rbind (state nt [''cfg_token'', ''bal_'' @ acct]) (\<lambda>st.
     rbind (big_int (or_zero (st (''bal_'' @ acct)))) (\<lambda>legacy.
       case text_at st ''cfg_token'' of None \<Rightarrow> Inr (show_int legacy)
       | Some tokenId \<Rightarrow> rbind (tokenBalance nt tokenId acct) (\<lambda>b.
           rmap (\<lambda>t. show_int (t + legacy)) (big_int b)))))"

section \<open>The verdict on a transaction\<close>

definition some_text :: "json option \<Rightarrow> string option" where
  "some_text v = (case v of Some (JStr s) \<Rightarrow> if s = [] then None else Some s | _ \<Rightarrow> None)"

text \<open>'errMsg' or 'err' of the first result in the output's DAG.\<close>

definition dag_error :: "string \<Rightarrow> string option" where
  "dag_error dag = (case json_parse dag of Inl _ \<Rightarrow> None
     | Inr j \<Rightarrow> (case jfield ''results'' j of
         Some (JArr (r # _)) \<Rightarrow> (case some_text (jfield ''errMsg'' r) of
             Some e \<Rightarrow> Some e | None \<Rightarrow> some_text (jfield ''err'' r))
       | _ \<Rightarrow> None))"

definition verdict_only :: "verdict \<Rightarrow> tx_status" where
  "verdict_only v = \<lparr>ts_status = v, ts_error = None\<rparr>"

definition txStatus :: "network \<Rightarrow> string \<Rightarrow> tx_status result" where
  "txStatus nt txId = rmap (\<lambda>r. case r of
       Some ((status, outputs) # _) \<Rightarrow>
         if status = ''CONFIRMED'' then verdict_only CONFIRMED
         else if status \<noteq> ''FAILED'' then verdict_only PENDING
         else (case outputs of
             [] \<Rightarrow> verdict_only FAILED
           | cid # _ \<Rightarrow> if cid = [] then verdict_only FAILED else
               (case query (nt_dag nt cid) of
                  Inl _ \<Rightarrow> verdict_only FAILED
                | Inr dag \<Rightarrow> \<lparr>ts_status = FAILED, ts_error = dag_error dag\<rparr>))
     | _ \<Rightarrow> verdict_only UNKNOWN) (query (nt_tx nt txId))"

section \<open>The RC meter\<close>

definition resourceCredits :: "network \<Rightarrow> string \<Rightarrow> resource_credits option result" where
  "resourceCredits nt account = rmap (\<lambda>r. case r of
       None \<Rightarrow> None
     | Some (amount, mx) \<Rightarrow> if mx = 0 then None else Some \<lparr>rc_amount = amount, rc_max = mx\<rparr>)
     (query (nt_rc nt (qualified_name account)))"

section \<open>Governance\<close>

text \<open>'(x ?? "").split("|").filter(Boolean)'.\<close>

definition board_of :: "rows \<Rightarrow> string list" where
  "board_of st = filter (\<lambda>a. a \<noteq> []) (split_on (CHR ''|'') (nullish (st ''gov_board'') []))"

definition pref_key :: "string \<Rightarrow> string \<Rightarrow> string" where
  "pref_key p a = ''gov_'' @ p @ ''_'' @ a"

definition governance_keys :: "string list \<Rightarrow> string list \<Rightarrow> string list" where
  "governance_keys board params = concat (map (\<lambda>a. (''shr_'' @ a) # map (\<lambda>p. pref_key p a) params) board)"

definition member_of :: "rows \<Rightarrow> string list \<Rightarrow> string \<Rightarrow> governance_member" where
  "member_of st params a = \<lparr>gm_account = a, gm_shares = nullish (text_at st (''shr_'' @ a)) ''0'',
     gm_preferences = map (\<lambda>p. (p, text_at st (pref_key p a))) params\<rparr>"

definition governance :: "network \<Rightarrow> string list \<Rightarrow> governance_member list result" where
  "governance nt params = rbind (state nt [''gov_board'']) (\<lambda>b. let board = board_of b in
     rmap (\<lambda>st. map (member_of st params) board) (state nt (governance_keys board params)))"

definition preference_row :: "string \<Rightarrow> governance_member \<Rightarrow> governance_row" where
  "preference_row p m = \<lparr>gr_account = gm_account m, gr_shares = gm_shares m,
     gr_preference = (case map_of (gm_preferences m) p of Some v \<Rightarrow> v | None \<Rightarrow> None)\<rparr>"

definition governed_value :: "engine \<Rightarrow> governance_member list \<Rightarrow> string \<Rightarrow> (string \<times> string) result" where
  "governed_value e members p = rbind (effectiveValue e p (map (preference_row p) members)) (\<lambda>r.
     if \<not> ev_ok r then throw (p @ '' is not a governable parameter'')
     else rmap (\<lambda>u. (p, show_int u)) (toUnits (ev_value r)))"

definition governed :: "network \<Rightarrow> string list \<Rightarrow> (string \<times> string) list result" where
  "governed nt params = rbind (governance nt params) (\<lambda>members. mapR (governed_value (nt_engine nt) members) params)"

section \<open>The chain overview\<close>

definition chain_keys :: "string list" where
  "chain_keys = [''cfg_genesis'', ''cfg_settled'', ''sup_migrated'', ''sup_emitted'', ''cfg_migtotal'', ''cfg_migburn'',
     ''bal_hive:null'', ''shares_total'', ''pool_lshare'', ''pool_viral'', ''pool_deep'', ''rsh_viral'', ''rsh_deep'',
     ''pool_liq'', ''amm_lc'', ''amm_hbd'', ''amm_shares'', ''amm_weight'', ''gov_board'', ''cfg_token'']"

text \<open>A LASSECASH balance wherever it lives: the token's row plus the legacy one, or
  the legacy row alone before the token ledger.\<close>

definition ledger_balance :: "network \<Rightarrow> rows \<Rightarrow> string \<Rightarrow> string option result" where
  "ledger_balance nt st acct = (case text_at st ''cfg_token'' of
     None \<Rightarrow> Inr (st (''bal_'' @ acct))
   | Some tokenId \<Rightarrow> rbind (tokenBalance nt tokenId acct) (\<lambda>b. rbind (big_int b) (\<lambda>t.
       rmap (\<lambda>l. Some (show_int (t + l))) (big_int (or_zero (st (''bal_'' @ acct)))))))"

definition consensus_names :: "network \<Rightarrow> rows \<Rightarrow> string list result" where
  "consensus_names nt st = (let board = board_of st in
     rbind (state nt (map (\<lambda>a. ''shr_'' @ a) board)) (\<lambda>shr.
       rmap (map fst) (consensusGroup (nt_engine nt) (map (\<lambda>a. (a, nullish (shr (''shr_'' @ a)) ''0'')) board))))"

definition snapshot_total :: "rows \<Rightarrow> string result" where
  "snapshot_total st = rbind (big_int (or_zero (st ''cfg_migtotal''))) (\<lambda>a.
     rbind (big_int (or_zero (st ''cfg_migburn''))) (\<lambda>b. units (Some (show_int (a + b)))))"

definition units_of :: "rows \<Rightarrow> string list \<Rightarrow> string list result" where
  "units_of st ks = mapR (\<lambda>k. units (st k)) ks"

definition chain_view :: "rows \<Rightarrow> int \<Rightarrow> int \<Rightarrow> string option \<Rightarrow> string list \<Rightarrow> chain_info result" where
  "chain_view st now h burned members = rbind (snapshot_total st) (\<lambda>total. rbind (units burned) (\<lambda>burnt.
     rbind (iso_of (Some now)) (\<lambda>stamp.
     rmap (\<lambda>us. \<lparr>ci_height = h, ci_timestamp = stamp, ci_epoch = 0, ci_genesis_height = num (st ''cfg_genesis''),
       ci_token_contract = nullish (st ''cfg_token'') [], ci_settled_height = num (st ''cfg_settled''),
       ci_migrated_supply = us ! 0, ci_snapshot_total = total, ci_snapshot_burned = us ! 1, ci_total_emitted = us ! 2,
       ci_total_burned = burnt, ci_total_shares = us ! 3, ci_pool_lshare = us ! 4, ci_pool_viral = us ! 5,
       ci_pool_deep = us ! 6, ci_rsh_viral = us ! 7, ci_rsh_deep = us ! 8, ci_pool_liquidity = us ! 9,
       ci_amm_lc = us ! 10, ci_amm_hbd = us ! 11, ci_amm_shares = us ! 12, ci_amm_weight = us ! 13,
       ci_consensus_group = members\<rparr>)
     (units_of st [''sup_migrated'', ''cfg_migburn'', ''sup_emitted'', ''shares_total'', ''pool_lshare'', ''pool_viral'',
        ''pool_deep'', ''rsh_viral'', ''rsh_deep'', ''pool_liq'', ''amm_lc'', ''amm_hbd'', ''amm_shares'', ''amm_weight'']))))"

definition chain :: "network \<Rightarrow> chain_info result" where
  "chain nt = rbind (state nt chain_keys) (\<lambda>st. rbind (height nt) (\<lambda>h.
     rbind (ledger_balance nt st ''hive:null'') (\<lambda>burned. rbind (consensus_names nt st) (\<lambda>members.
       chain_view st (nt_now nt) h burned members))))"

section \<open>One account: its mints\<close>

definition row_key :: "string \<Rightarrow> string \<Rightarrow> int \<Rightarrow> string" where
  "row_key kind acct i = kind @ ''_'' @ acct @ ''_'' @ show_int i"

definition ids_to :: "int option \<Rightarrow> int list" where
  "ids_to seq = map int [1..<Suc (nat (nullish seq 0))]"

definition mint_rows :: "rows \<Rightarrow> string \<Rightarrow> int option \<Rightarrow> (int \<times> string list) list" where
  "mint_rows recs acct seq = List.map_filter (\<lambda>i. case text_at recs (row_key ''mint'' acct i) of
     None \<Rightarrow> None
   | Some raw \<Rightarrow> let f = split_on (CHR ''|'') raw in if length f < 6 then None else Some (i, f)) (ids_to seq)"

record mint_clock =
  mk_height :: int
  mk_genesis :: "int option"
  mk_hpd :: "int option"
  mk_accDay :: "int option"

definition field :: "string list \<Rightarrow> nat \<Rightarrow> string option" where
  "field f i = (if i < length f then Some (f ! i) else None)"

definition maturity_of :: "mint_clock \<Rightarrow> string list \<Rightarrow> int option" where
  "maturity_of k f = num2 (+) (num (field f 2)) (num2 (*) (num (field f 3)) (mk_hpd k))"

definition day_at :: "mint_clock \<Rightarrow> int option \<Rightarrow> int option" where
  "day_at k h = floor_div (num2 (-) h (mk_genesis k)) (mk_hpd k)"

definition checkpoint_key :: "int option \<Rightarrow> string" where
  "checkpoint_key d = ''accAt_'' @ show_num d"

text \<open>The day checkpoints the mints need.\<close>

definition checkpoints :: "mint_clock \<Rightarrow> (int \<times> string list) list \<Rightarrow> string list" where
  "checkpoints k ms = dedupe (map (\<lambda>(i, f). checkpoint_key (day_at k (maturity_of k f)))
     (filter (\<lambda>(i, f). num_gt (mk_accDay k) (day_at k (maturity_of k f))) ms))"

text \<open>The accumulator reading a mint stops earning at.\<close>

definition acc_end :: "mint_clock \<Rightarrow> rows \<Rightarrow> string \<Rightarrow> bool \<Rightarrow> int option \<Rightarrow> string" where
  "acc_end k accAt accPer mature matDay =
     (if mature \<and> num_gt (mk_accDay k) matDay then nullish (text_at accAt (checkpoint_key matDay)) ''0'' else accPer)"

definition is_one :: "string option \<Rightarrow> bool" where
  "is_one v = (v = Some ''1'')"

definition view_mint :: "network \<Rightarrow> mint_clock \<Rightarrow> rows \<Rightarrow> string \<Rightarrow> int \<times> string list \<Rightarrow> mint_view result" where
  "view_mint nt k accAt accPer m = (case m of (i, f) \<Rightarrow>
     (case maturity_of k f of
        None \<Rightarrow> throw ''Invalid time value''
      | Some maturity \<Rightarrow>
          let h = mk_height k; start = nullish (num (field f 2)) 0; days = nullish (num (field f 3)) 0;
              matDay = day_at k (Some maturity); mature = maturity \<le> h;
              claimable = (mature \<and> num_gt (day_at k (Some h)) matDay);
              ended = is_one (field f 5); ga = is_one (field f 4);
              accStart = nullish (field f 6) ''0'' in
          rbind (entitlement (nt_engine nt) (nullish (field f 1) ''0'') accStart (acc_end k accAt accPer mature matDay)) (\<lambda>accrued.
          rbind (units (field f 0)) (\<lambda>pr. rbind (units (field f 1)) (\<lambda>sh. rbind (toUnits accrued) (\<lambda>au.
          rbind (previewMintClose (nt_engine nt) \<lparr>ml_principal = pr, ml_shares = sh, ml_start_height = start,
                   ml_days = days, ml_good_accounting = ga\<rparr> h (show_int au)) (\<lambda>view.
          rmap (\<lambda>time. \<lparr>mv_id = i, mv_principal = pr, mv_shares = sh, mv_start_height = start, mv_days = days,
              mv_maturity_height = maturity, mv_maturity_time = time, mv_mature = mature, mv_claimable = claimable,
              mv_good_accounting = ga, mv_can_arm_good_accounting = (mp_canArmGoodAccounting view \<and> \<not> ended),
              mv_ended = ended, mv_pending_yield = (if ended then ''0.00000000'' else accrued),
              mv_if_claimed_now = mp_toOwner view, mv_slashed_if_claimed_now = mp_toRewardPool view,
              mv_bleed_remaining_pct = mp_bleedRemaining view\<rparr>)
            (iso_of (Some (nt_now nt + (maturity - h) * 3000))))))))))"

section \<open>One account: its tranches and meters\<close>

definition zero_at :: "rows \<Rightarrow> string \<Rightarrow> string" where
  "zero_at st k = nullish (text_at st k) ''0''"

definition tranche_input :: "rows \<Rightarrow> int \<Rightarrow> string list \<Rightarrow> tranche_args" where
  "tranche_input base h f = \<lparr>ta_shares = nullish (field f 0) ''0'', ta_startHeight = num (field f 1),
     ta_weight = nullish (field f 2) ''0'', ta_accStart = nullish (field f 4) ''0'', ta_height = h,
     ta_totalShares = zero_at base ''amm_shares'', ta_lcReserve = zero_at base ''amm_lc'',
     ta_hbdReserve = zero_at base ''amm_hbd'', ta_poolLiq = zero_at base ''pool_liq'',
     ta_accSeen = zero_at base ''amm_accseen'', ta_accHeld = zero_at base ''amm_accheld'',
     ta_acc = zero_at base ''amm_acc'', ta_totalWeight = zero_at base ''amm_weight''\<rparr>"

definition tranche_rows :: "rows \<Rightarrow> string \<Rightarrow> int option \<Rightarrow> (int \<times> string list) list" where
  "tranche_rows recs acct lseq = List.map_filter (\<lambda>i. case text_at recs (row_key ''lp'' acct i) of
     None \<Rightarrow> None
   | Some raw \<Rightarrow> let f = split_on (CHR ''|'') raw in if length f < 4 then None else Some (i, f)) (rev (ids_to lseq))"

definition view_tranche :: "network \<Rightarrow> rows \<Rightarrow> int \<Rightarrow> int \<times> string list \<Rightarrow> tranche_view result" where
  "view_tranche nt base h t = (case t of (i, f) \<Rightarrow>
     rbind (trancheView (nt_engine nt) (tranche_input base h f)) (\<lambda>tv.
     rbind (units (field f 0)) (\<lambda>sh. rmap (\<lambda>w.
       \<lparr>tv_id = i, tv_shares = sh, tv_start_height = num (field f 1), tv_age_days = rt_age_days tv,
         tv_loyalty_multiplier = rt_loyalty tv, tv_weight = w, tv_closed = is_one (field f 3),
         tv_value_lc = rt_value_lc tv, tv_value_hbd = rt_value_hbd tv, tv_pending_reward = rt_pending_reward tv,
         tv_last_touch = num (case field f 5 of Some v \<Rightarrow> Some v | None \<Rightarrow> field f 1)\<rparr>)
       (units (field f 2)))))"

definition meter_key :: "string \<Rightarrow> nat \<Rightarrow> string" where
  "meter_key acct w = ''vp_'' @ acct @ ''_'' @ show_nat w"

definition votePowerOf :: "engine \<Rightarrow> rows \<Rightarrow> string \<Rightarrow> int \<Rightarrow> nat \<Rightarrow> string result" where
  "votePowerOf e base acct h w = (case text_at base (meter_key acct w) of
     None \<Rightarrow> rbind (constants e) (\<lambda>c. units (Some (ec_multScale c)))
   | Some raw \<Rightarrow> let f = split_on (CHR ''|'') raw in
       votePower e (nullish (field f 0) ''0'') (num (Some (nullish (field f 1) ''0''))) h w)"

definition ledger_hbd_hive :: "network \<Rightarrow> string \<Rightarrow> int \<times> int" where
  "ledger_hbd_hive nt acct = (case query (nt_balance nt acct) of
     Inr (Some (hbd, hive)) \<Rightarrow> (hbd * 100000, hive * 100000) | _ \<Rightarrow> (0, 0))"

definition account_keys :: "string \<Rightarrow> string list" where
  "account_keys acct = [''bal_'' @ acct, ''shr_'' @ acct, ''pend_'' @ acct, ''mseq_'' @ acct, ''cfg_token'',
     ''set_'' @ acct @ ''_days'', ''acc_per'', ''acc_day'', ''cfg_genesis'', ''gov_board'',
     meter_key acct 0, meter_key acct 1, ''lpseq_'' @ acct, ''amm_lc'', ''amm_hbd'', ''amm_shares'',
     ''pool_liq'', ''amm_accseen'', ''amm_accheld'', ''amm_acc'', ''amm_weight'']"

definition position_keys :: "rows \<Rightarrow> string \<Rightarrow> string list" where
  "position_keys base acct = map (row_key ''mint'' acct) (ids_to (num (base (''mseq_'' @ acct))))
     @ map (row_key ''lp'' acct) (ids_to (num (base (''lpseq_'' @ acct))))"

definition account_clock :: "rows \<Rightarrow> int \<Rightarrow> engine_constants \<Rightarrow> mint_clock" where
  "account_clock base h c = \<lparr>mk_height = h, mk_genesis = num (base ''cfg_genesis''),
     mk_hpd = number_of (ec_heightsPerDay c), mk_accDay = num (base ''acc_day'')\<rparr>"

definition view_mints :: "network \<Rightarrow> rows \<Rightarrow> rows \<Rightarrow> string \<Rightarrow> int \<Rightarrow> mint_view list result" where
  "view_mints nt base recs acct h = rbind (constants (nt_engine nt)) (\<lambda>c.
     let k = account_clock base h c; ms = mint_rows recs acct (num (base (''mseq_'' @ acct))) in
     rbind (state nt (checkpoints k ms)) (\<lambda>accAt.
       mapR (view_mint nt k accAt (zero_at base ''acc_per'')) ms))"

definition pending_part :: "rows \<Rightarrow> string \<Rightarrow> string \<Rightarrow> nat \<Rightarrow> string option" where
  "pending_part base acct dflt i = field (split_on (CHR ''|'') (nullish (base (''pend_'' @ acct)) dflt)) i"

definition account :: "network \<Rightarrow> string \<Rightarrow> account_view result" where
  "account nt name = (let acct = full_name name; e = nt_engine nt in
     rbind (state nt (account_keys acct)) (\<lambda>base. rbind (height nt) (\<lambda>h.
     rbind (ledger_balance nt base acct) (\<lambda>liquid.
     rbind (state nt (position_keys base acct)) (\<lambda>recs.
     rbind (view_mints nt base recs acct h) (\<lambda>mints.
     rbind (mapR (view_tranche nt base h) (tranche_rows recs acct (num (base (''lpseq_'' @ acct))))) (\<lambda>tranches.
     rbind (units liquid) (\<lambda>bal. rbind (units (base (''shr_'' @ acct))) (\<lambda>sh.
     rbind (units (pending_part base acct ''0'' 0)) (\<lambda>pend.
     rbind (constants e) (\<lambda>c. rbind (votePowerOf e base acct h 0) (\<lambda>viral. rmap (\<lambda>deep.
       \<lparr>av_account = acct, av_balance = bal, av_shares = sh, av_pending = pend, av_pending_curation = 0,
         av_pending_epoch = num (pending_part base acct ''0|0'' 1),
         av_mint_duration_days = num_or (num (base (''set_'' @ acct @ ''_days''))) (ec_migrationMintDays c),
         av_hbd = fst (ledger_hbd_hive nt acct), av_hive = snd (ledger_hbd_hive nt acct),
         av_vote_power = (viral, deep), av_mints = mints, av_tranches = tranches,
         av_is_consensus_member = List.member (board_of base) acct\<rparr>)
       (votePowerOf e base acct h 1)))))))))))))"

section \<open>One account's calls\<close>

text \<open>The results of the wanted transactions' operations, from the outputs of
  this contract; a failed read keeps what came before it.\<close>

fun own_outputs :: "network \<Rightarrow> string list \<Rightarrow> contract_output list" where
  "own_outputs nt [] = []"
| "own_outputs nt (i # is) = (case query (nt_output nt i) of
     Inl _ \<Rightarrow> []
   | Inr os \<Rightarrow> map snd (filter (\<lambda>x. fst x = nt_contract nt) (nullish os [])) @ own_outputs nt is)"

definition wanted_op :: "string list \<Rightarrow> raw_op \<Rightarrow> bool" where
  "wanted_op actions c = (ro_type c = ''call'' \<and> nullish (ro_action c) [] \<in> set actions)"

text \<open>The operations of a transaction that count as calls, each with its index
  among all operations and its index among the calls.\<close>

fun numbered :: "(raw_op \<Rightarrow> bool) \<Rightarrow> nat \<Rightarrow> nat \<Rightarrow> raw_op list \<Rightarrow> (nat \<times> nat \<times> raw_op) list" where
  "numbered is_call k j [] = []"
| "numbered is_call k j (c # cs) = (if is_call c then (k, j, c) # numbered is_call (Suc k) (Suc j) cs
     else numbered is_call (Suc k) j cs)"

definition is_call :: "raw_op \<Rightarrow> bool" where
  "is_call c = (ro_type c = ''call'')"

definition calls_of :: "chain_tx \<Rightarrow> (nat \<times> nat \<times> raw_op) list" where
  "calls_of tx = numbered is_call 0 0 (cx_ops tx)"

definition call_row :: "result_map \<Rightarrow> chain_tx \<Rightarrow> nat \<times> nat \<times> raw_op \<Rightarrow> account_call" where
  "call_row m tx c = (case c of (k, j, x) \<Rightarrow> let r = resultFor m (cx_id tx) k j in
     \<lparr>ac_txId = cx_id tx, ac_height = cx_height tx, ac_time = cx_ts tx, ac_action = nullish (ro_action x) [],
       ac_payload = nullish (ro_payload x) [], ac_ok = (case r of Some v \<Rightarrow> or_ok v | None \<Rightarrow> False),
       ac_ret = (case r of Some v \<Rightarrow> or_ret v | None \<Rightarrow> [])\<rparr>)"

definition tx_account_calls :: "network \<Rightarrow> string list \<Rightarrow> chain_tx \<Rightarrow> account_call list" where
  "tx_account_calls nt actions tx = (let m = resultsByOp (own_outputs nt (cx_outputs tx)) (\<lambda>_. None) in
     map (call_row m tx) (filter (\<lambda>(k, j, c). wanted_op actions c) (calls_of tx)))"

definition accountCalls :: "network \<Rightarrow> string \<Rightarrow> string list \<Rightarrow> account_call list result" where
  "accountCalls nt acct0 actions = (let acct = full_name acct0 in
     rmap (\<lambda>rows. sort_key ac_height (concat (map (tx_account_calls nt actions)
         (filter (\<lambda>tx. cx_status tx = ''CONFIRMED'' \<and> list_ex (wanted_op actions) (cx_ops tx)) rows))))
       (walk_pages 20 100 (\<lambda>off. rmap (\<lambda>r. nullish r []) (query (nt_txsOf nt acct off))) 0))"

section \<open>Properties\<close>

lemma text_at_restrict [simp]: "k \<in> ks \<Longrightarrow> text_at (db |` ks) k = text_at db k"
  by (simp add: text_at_def)

text \<open>Governance reads every member's row as the chain holds it, however many
  members and parameters the board needs, and a preference that was never cast, or
  reads as the empty string, is no preference, never zero.\<close>

theorem governance_exact:
  assumes "serves_rows nt db"
  shows "governance nt params = Inr (map (\<lambda>a. \<lparr>gm_account = a, gm_shares = nullish (text_at db (''shr_'' @ a)) ''0'',
     gm_preferences = map (\<lambda>p. (p, text_at db (''gov_'' @ p @ ''_'' @ a))) params\<rparr>) (board_of db))"
proof -
  have board: "board_of (db |` set [''gov_board'']) = board_of db" by (simp add: board_of_def)
  have "member_of (db |` set (governance_keys (board_of db) params)) params a = member_of db params a"
    if a: "a \<in> set (board_of db)" for a
  proof -
    have "''shr_'' @ a \<in> set (governance_keys (board_of db) params)"
      "\<forall>p \<in> set params. pref_key p a \<in> set (governance_keys (board_of db) params)"
      using a by (auto simp: governance_keys_def)
    then show ?thesis by (simp add: member_of_def del: append.simps)
  qed
  then show ?thesis
    by (simp add: governance_def state_serves [OF assms] board [simplified] Let_def member_of_def pref_key_def)
qed

lemma governance_exact_witness:
  "governance (rows_node [''gov_board'' \<mapsto> ''hive:a|hive:b'', ''shr_hive:a'' \<mapsto> ''7'', ''gov_p_hive:b'' \<mapsto> ''3'']) [''p''] =
   Inr [\<lparr>gm_account = ''hive:a'', gm_shares = ''7'', gm_preferences = [(''p'', None)]\<rparr>,
        \<lparr>gm_account = ''hive:b'', gm_shares = ''0'', gm_preferences = [(''p'', Some ''3'')]\<rparr>]"
  by (subst governance_exact [OF rows_node_serves]) (simp add: board_of_def text_at_def)

text \<open>The verdict shown is the chain's: a transaction is reported confirmed
  exactly when the node says so and failed exactly when the node says so, an error
  text accompanies only a failure, and a refusal's missing or unreadable error log
  never makes the question itself fail.\<close>

theorem txStatus_verdict:
  assumes "query (nt_tx nt t) = Inr (Some ((s, outs) # rest))"
  shows "\<exists>v. txStatus nt t = Inr v \<and> (ts_status v = CONFIRMED) = (s = ''CONFIRMED'')
    \<and> (ts_status v = FAILED) = (s = ''FAILED'') \<and> ts_status v \<noteq> UNKNOWN \<and> (ts_error v = None \<or> s = ''FAILED'')"
  by (auto simp: txStatus_def assms verdict_only_def split: list.splits sum.splits)

lemma txStatus_verdict_witness:
  "\<exists>v. txStatus ((rows_node Map.empty)\<lparr>nt_tx := (\<lambda>_. served (Some [(''FAILED'', [''bafy''])]))\<rparr>) ''t'' = Inr v
    \<and> (ts_status v = CONFIRMED) = (''FAILED'' = ''CONFIRMED'')
    \<and> (ts_status v = FAILED) = (''FAILED'' = ''FAILED'') \<and> ts_status v \<noteq> UNKNOWN \<and> (ts_error v = None \<or> ''FAILED'' = ''FAILED'')"
  by (rule txStatus_verdict [where outs = "[''bafy'']" and rest = "[]"]) simp

lemma units_or_zero: "rbind (big_int (or_zero raw)) (\<lambda>v. units (Some (show_int v))) = units raw"
proof -
  have "or_zero (Some (show_int v)) = show_int v" for v
    by (simp add: or_zero_def show_int_def)
  then show ?thesis by (cases "big_int (or_zero raw)") (simp_all add: units_def)
qed

text \<open>The balance a page reads on its own and the balance in the account view
  are the same sum: the token's balance plus the legacy row, or the legacy row
  alone.\<close>

theorem liquid_is_account_balance:
  assumes s: "serves_rows nt db" and a: "account nt name = Inr v"
  shows "\<exists>b. liquidBalance nt name = Inr b \<and> units (Some b) = Inr (av_balance v)"
proof -
  let ?acct = "full_name name" and ?ks = "set (account_keys (full_name name))"
  have keys: "''cfg_token'' \<in> ?ks" "''bal_'' @ ?acct \<in> ?ks" by (simp_all add: account_keys_def)
  obtain liquid where l: "ledger_balance nt (db |` ?ks) ?acct = Inr liquid" "units liquid = Inr (av_balance v)"
    using a by (auto simp: account_def state_serves [OF s] Let_def rbind_Inr_iff rmap_Inr_iff)
  show ?thesis
  proof (cases "text_at db ''cfg_token''")
    case None
    then have "liquid = db (''bal_'' @ ?acct)" using l(1) keys by (simp add: ledger_balance_def)
    then obtain x where x: "big_int (or_zero (db (''bal_'' @ ?acct))) = Inr x"
      using l(2) by (auto simp: units_def rmap_Inr_iff)
    then have "liquidBalance nt name = Inr (show_int x)" using None by (simp add: liquidBalance_def Let_def state_serves [OF s])
    moreover have "units (Some (show_int x)) = Inr (av_balance v)"
      using units_or_zero [of "db (''bal_'' @ ?acct)"] l(2) x \<open>liquid = _\<close> by simp
    ultimately show ?thesis by blast
  next
    case (Some tok)
    have full: "full_name (full_name name) = full_name name" by (auto simp: full_name_def)
    obtain b t x where "tokenBalance nt tok ?acct = Inr b" "big_int b = Inr t"
      "big_int (or_zero (db (''bal_'' @ ?acct))) = Inr x" "liquid = Some (show_int (t + x))"
      using l(1) Some keys by (auto simp: ledger_balance_def rbind_Inr_iff rmap_Inr_iff)
    then have "liquidBalance nt name = Inr (show_int (t + x))"
      using Some by (simp add: liquidBalance_def Let_def state_serves [OF s] full)
    then show ?thesis using l(2) \<open>liquid = _\<close> by blast
  qed
qed

lemma view_mint_fields:
  assumes "view_mint nt k accAt accPer (i, f) = Inr v"
  obtains m where "maturity_of k f = Some m" "mv_maturity_height v = m" "mv_start_height v = nullish (num (field f 2)) 0"
    "mv_days v = nullish (num (field f 3)) 0" "mv_ended v = is_one (field f 5)"
    "mv_claimable v = (m \<le> mk_height k \<and> num_gt (day_at k (Some (mk_height k))) (day_at k (Some m)))"
    "mv_ended v \<longrightarrow> mv_pending_yield v = ''0.00000000'' \<and> \<not> mv_can_arm_good_accounting v"
  using assms by (auto simp: view_mint_def Let_def rbind_Inr_iff rmap_Inr_iff split: option.splits)

lemma day_closed:
  fixes d g h m :: int
  assumes "0 < d"
  shows "(m \<le> h \<and> (m - g) div d < (h - g) div d) = (g + ((m - g) div d + 1) * d \<le> h)"
proof
  assume "m \<le> h \<and> (m - g) div d < (h - g) div d"
  then have "((m - g) div d + 1) * d \<le> (h - g) div d * d" using assms by (intro mult_right_mono) auto
  also have "\<dots> \<le> h - g" using assms by (simp add: div_mult_le_int)
  finally show "g + ((m - g) div d + 1) * d \<le> h" by simp
next
  assume a: "g + ((m - g) div d + 1) * d \<le> h"
  have "(m - g) div d + 1 \<le> (h - g) div d" using a assms by (intro le_div_intI) simp_all
  moreover have "m - g < ((m - g) div d + 1) * d"
  proof -
    have "(m - g) mod d < d" using assms by simp
    moreover have "m - g = (m - g) div d * d + (m - g) mod d" by simp
    ultimately have "m - g < (m - g) div d * d + d" by linarith
    then show ?thesis by (simp add: distrib_right)
  qed
  ultimately show "m \<le> h \<and> (m - g) div d < (h - g) div d" using a by simp
qed

text \<open>A mint is shown as claimable exactly when the height has passed the end
  of the day it matures in, days being counted from genesis; it matures after its
  days, and an ended mint shows no pending yield and offers no good accounting.\<close>

theorem mint_claimable_at_day_end:
  assumes "view_mint nt k accAt accPer (i, f) = Inr v"
    and "mk_hpd k = Some d" "0 < d" "mk_genesis k = Some g"
  shows "mv_maturity_height v = mv_start_height v + mv_days v * d
    \<and> mv_claimable v = (g + ((mv_maturity_height v - g) div d + 1) * d \<le> mk_height k)
    \<and> (\<not> mv_ended v \<or> mv_pending_yield v = ''0.00000000'' \<and> \<not> mv_can_arm_good_accounting v)"
proof -
  obtain m where m: "maturity_of k f = Some m" "mv_maturity_height v = m" "mv_start_height v = nullish (num (field f 2)) 0"
    "mv_days v = nullish (num (field f 3)) 0"
    "mv_claimable v = (m \<le> mk_height k \<and> num_gt (day_at k (Some (mk_height k))) (day_at k (Some m)))"
    "mv_ended v \<longrightarrow> mv_pending_yield v = ''0.00000000'' \<and> \<not> mv_can_arm_good_accounting v"
    using view_mint_fields [OF assms(1)] by metis
  have "m = mv_start_height v + mv_days v * d" using m(1,3,4) assms(2) by (auto simp: maturity_of_def num2_Some)
  moreover have "num_gt (day_at k (Some (mk_height k))) (day_at k (Some m)) = ((m - g) div d < (mk_height k - g) div d)"
    using assms(2-4) by (simp add: num_gt_def day_at_def floor_div_def num2_def)
  ultimately show ?thesis using m(2,5,6) day_closed [OF assms(3), of m "mk_height k" g] by simp
qed

section \<open>An account to try them on\<close>

definition example_node :: network where
  "example_node = (rows_node [''bal_hive:al'' \<mapsto> ''15'', ''mseq_hive:al'' \<mapsto> ''1'', ''cfg_genesis'' \<mapsto> ''0'', ''acc_day'' \<mapsto> ''3'',
     ''vp_hive:al_0'' \<mapsto> ''5|90'', ''vp_hive:al_1'' \<mapsto> ''6|91'',
     ''mint_hive:al_1'' \<mapsto> ''5|7|100|1|1|0|0''])
     \<lparr>nt_engine := Some still_bridge, nt_height := served 400\<rparr>"

lemma example_account: "is_ok (account example_node ''al'')"
  by code_simp

lemma example_serves: "serves_rows example_node
   [''bal_hive:al'' \<mapsto> ''15'', ''mseq_hive:al'' \<mapsto> ''1'', ''cfg_genesis'' \<mapsto> ''0'', ''acc_day'' \<mapsto> ''3'',
     ''vp_hive:al_0'' \<mapsto> ''5|90'', ''vp_hive:al_1'' \<mapsto> ''6|91'',
     ''mint_hive:al_1'' \<mapsto> ''5|7|100|1|1|0|0'']"
  by (simp add: serves_rows_def example_node_def rows_node_def)

lemma liquid_is_account_balance_witness:
  "\<exists>v b. account example_node ''al'' = Inr v \<and> liquidBalance example_node ''al'' = Inr b \<and> units (Some b) = Inr (av_balance v)"
proof -
  obtain v where v: "account example_node ''al'' = Inr v" using example_account by (auto simp: is_ok_iff)
  from liquid_is_account_balance [OF example_serves v] v show ?thesis by blast
qed

definition example_clock :: mint_clock where
  "example_clock = \<lparr>mk_height = 240, mk_genesis = Some 0, mk_hpd = Some 120, mk_accDay = Some 1\<rparr>"

lemma mint_claimable_at_day_end_witness:
  "\<exists>v. view_mint example_node example_clock Map.empty ''0'' (1, split_on (CHR ''|'') ''5|7|100|1|1|0|0'') = Inr v
    \<and> mv_claimable v = (0 + ((mv_maturity_height v - 0) div 120 + 1) * 120 \<le> mk_height example_clock)"
proof -
  have "is_ok (view_mint example_node example_clock Map.empty ''0'' (1, split_on (CHR ''|'') ''5|7|100|1|1|0|0''))"
    by code_simp
  then obtain v where v: "view_mint example_node example_clock Map.empty ''0'' (1, split_on (CHR ''|'') ''5|7|100|1|1|0|0'') = Inr v"
    by (auto simp only: is_ok_iff)
  from mint_claimable_at_day_end [OF v, of 120 0] v show ?thesis by (simp only: example_clock_def) auto
qed

end
