(* ===== verification/History.thy ===== *)
theory History
  imports ChainReads TxIndexer Pools
begin

text \<open>
  The backend's histories (magi-backend.ts): the transaction page for the index,
  the pool ledger and the payout ledger with their one-minute memo, the pool
  operations, an account's rows and the activity table.
\<close>

section \<open>Sorting with a comparator\<close>

text \<open>'sort((a, b) => ...)' is stable: an element moves in front of another only
  when the comparator says it belongs there.\<close>

fun put_sorted :: "('a \<Rightarrow> 'a \<Rightarrow> bool) \<Rightarrow> 'a \<Rightarrow> 'a list \<Rightarrow> 'a list" where
  "put_sorted before x [] = [x]"
| "put_sorted before x (y # ys) = (if before y x then y # put_sorted before x ys else x # y # ys)"

definition js_sort :: "('a \<Rightarrow> 'a \<Rightarrow> bool) \<Rightarrow> 'a list \<Rightarrow> 'a list" where
  "js_sort before xs = foldr (put_sorted before) xs []"

lemma set_put_sorted [simp]: "set (put_sorted b x ys) = insert x (set ys)"
  by (induction ys) auto

lemma set_js_sort [simp]: "set (js_sort b xs) = set xs"
  by (induction xs) (simp_all add: js_sort_def)

lemma distinct_put_sorted [simp]: "distinct (put_sorted b x ys) = (x \<notin> set ys \<and> distinct ys)"
  by (induction ys) auto

lemma distinct_js_sort [simp]: "distinct (js_sort b xs) = distinct xs"
  by (induction xs) (simp_all add: js_sort_def, metis js_sort_def set_js_sort)

lemma put_sorted_sorted:
  assumes "\<And>x y. \<not> before x y \<Longrightarrow> le y x" "\<And>x y. before x y \<Longrightarrow> le x y" "transp le"
  shows "sorted_wrt le ys \<Longrightarrow> sorted_wrt le (put_sorted before x ys)"
proof (induction ys)
  case (Cons y ys)
  then show ?case using assms(1) [of y x] assms(2) [of y x] by (auto intro: transpD [OF assms(3)])
qed simp

lemma js_sort_sorted:
  assumes "\<And>x y. \<not> before x y \<Longrightarrow> le y x" "\<And>x y. before x y \<Longrightarrow> le x y" "transp le"
  shows "sorted_wrt le (js_sort before xs)"
  by (induction xs) (simp_all add: js_sort_def put_sorted_sorted [OF assms])

section \<open>Pages\<close>

definition tx_page :: "network \<Rightarrow> nat \<Rightarrow> nat \<Rightarrow> chain_tx list result" where
  "tx_page nt off n = rmap (\<lambda>r. nullish r []) (query (nt_txs nt off n))"

definition as_indexed :: "chain_tx \<Rightarrow> indexed_tx" where
  "as_indexed tx = \<lparr>ix_id = cx_id tx, ix_anchr_height = cx_height tx, ix_anchr_ts = cx_ts tx, ix_status = cx_status tx,
     ix_required_auths = cx_auths tx, ix_required_posting_auths = cx_posting tx,
     ix_ops = map (\<lambda>c. \<lparr>io_type = ro_type c, io_data = Some (ro_action c, ro_payload c)\<rparr>) (cx_ops tx)\<rparr>"

definition fetchTxPage :: "network \<Rightarrow> nat \<Rightarrow> nat \<Rightarrow> indexed_tx list result" where
  "fetchTxPage nt off n = rmap (map as_indexed) (tx_page nt off n)"

text \<open>The whole history from the site's index, when it vouches for it.\<close>

definition fromIndex :: "network \<Rightarrow> string list \<Rightarrow> discover_tx list option" where
  "fromIndex nt actions = (if \<not> nt_indexed nt then None
     else (case nt_index nt actions of
         Inr (Some body) \<Rightarrow> if ib_complete body then ib_txs body else None
       | _ \<Rightarrow> None))"

section \<open>Ledgers of calls and what they settled\<close>

definition PAGE :: nat where "PAGE = 100"
definition BATCH :: nat where "BATCH = 4"
definition POOL_WALK_LIMIT :: nat where "POOL_WALK_LIMIT = 2000"

definition POOL_CALLS :: "string list" where
  "POOL_CALLS = [''add_liquidity'', ''remove_liquidity'', ''swap_lassecash_hbd'', ''swap_hbd_lassecash'', ''swap_lc_hbd'', ''swap_hbd_lc'']"

definition ledger_txs :: "network \<Rightarrow> nat \<Rightarrow> chain_tx list result" where
  "ledger_txs nt limit = walk_batches (\<lambda>p. length p < PAGE) (\<lambda>k. tx_page nt (k * PAGE) PAGE)
     (batches BATCH [0..<turns PAGE limit])"

text \<open>Outputs land a beat after their transactions, so the walk goes on until a
  page reaches below the oldest transaction read.\<close>

definition outputs_done :: "int \<Rightarrow> (int \<times> contract_output) list \<Rightarrow> bool" where
  "outputs_done oldest p = (length p < PAGE \<or> list_ex (\<lambda>x. fst x < oldest) p)"

definition ledger_outputs :: "network \<Rightarrow> nat \<Rightarrow> int \<Rightarrow> (int \<times> contract_output) list result" where
  "ledger_outputs nt limit oldest = walk_batches (outputs_done oldest)
     (\<lambda>k. rmap (\<lambda>r. nullish r []) (query (nt_outputs nt (k * PAGE) PAGE)))
     (batches BATCH [0..<turns PAGE limit + 2])"

definition call_counts :: "chain_tx list \<Rightarrow> string \<Rightarrow> nat option" where
  "call_counts txs = map_of (rev (map (\<lambda>tx. (cx_id tx, length (filter is_call (cx_ops tx)))) txs))"

definition wanted_call :: "string list \<Rightarrow> raw_op \<Rightarrow> bool" where
  "wanted_call wanted c = (ro_action c \<noteq> None \<and> ro_action c \<noteq> Some [] \<and> the (ro_action c) \<in> set wanted)"

definition ledger_row :: "(string \<Rightarrow> nat \<Rightarrow> nat \<Rightarrow> op_result option) \<Rightarrow> chain_tx \<Rightarrow> nat \<times> nat \<times> raw_op \<Rightarrow> pool_ledger_entry" where
  "ledger_row res tx c = (case c of (k, j, x) \<Rightarrow> let r = res (cx_id tx) k j in
     \<lparr>po_time = cx_ts tx, po_height = cx_height tx, po_action = nullish (ro_action x) [],
       po_payload = nullish (ro_payload x) [], po_signer = nullish (first_auth tx) [], pl_txId = cx_id tx,
       pl_ok = (case r of Some v \<Rightarrow> or_ok v | None \<Rightarrow> False), pl_ret = (case r of Some v \<Rightarrow> or_ret v | None \<Rightarrow> [])\<rparr>)"

definition ledger_rows :: "(string \<Rightarrow> nat \<Rightarrow> nat \<Rightarrow> op_result option) \<Rightarrow> string list \<Rightarrow> chain_tx \<Rightarrow> pool_ledger_entry list" where
  "ledger_rows res wanted tx = (if cx_status tx \<noteq> ''CONFIRMED'' then []
     else map (ledger_row res tx) (filter (\<lambda>(k, j, x). wanted_call wanted x) (calls_of tx)))"

definition callLedgerWalk :: "network \<Rightarrow> string list \<Rightarrow> nat \<Rightarrow> pool_ledger_entry list result" where
  "callLedgerWalk nt wanted limit = rbind (ledger_txs nt limit) (\<lambda>txs.
     if txs = [] then Inr []
     else rmap (\<lambda>outs. let byOp = resultsByOp (map snd outs) (call_counts txs) in
         rev (concat (map (ledger_rows (resultFor byOp) wanted) txs)))
       (ledger_outputs nt limit (Min (set (map cx_height txs)))))"

text \<open>The memo: an answer less than a minute old is given again, a failed walk is
  not remembered.\<close>

type_synonym ledger_memo = "(string \<times> int \<times> pool_ledger_entry list) list"

definition memo_key :: "string list \<Rightarrow> nat \<Rightarrow> string" where
  "memo_key wanted limit = js_join '','' (js_sort str_less (dedupe wanted)) @ ''|'' @ show_nat limit"

definition callLedger :: "network \<Rightarrow> string list \<Rightarrow> nat \<Rightarrow> ledger_memo \<Rightarrow> pool_ledger_entry list result \<times> ledger_memo" where
  "callLedger nt wanted limit memo = (let key = memo_key wanted limit; fresh = callLedgerWalk nt wanted limit in
     case map_of memo key of
       Some (at, rows) \<Rightarrow> if nt_now nt - at < 60000 then (Inr rows, memo)
         else (case fresh of Inr rs \<Rightarrow> (fresh, AList.update key (nt_now nt, rs) memo) | Inl e \<Rightarrow> (fresh, AList.delete key memo))
     | None \<Rightarrow> (case fresh of Inr rs \<Rightarrow> (fresh, AList.update key (nt_now nt, rs) memo) | Inl e \<Rightarrow> (fresh, memo)))"

definition poolLedger :: "network \<Rightarrow> nat \<Rightarrow> ledger_memo \<Rightarrow> pool_ledger_entry list result \<times> ledger_memo" where
  "poolLedger nt limit memo = callLedger nt POOL_CALLS limit memo"

text \<open>'/paid author\s+(\d+)/'.\<close>

fun paid_author :: "string \<Rightarrow> string option" where
  "paid_author [] = None"
| "paid_author (c # s) = (let t = drop 11 (c # s); r = dropWhile is_space t; d = takeWhile is_digit r in
     if starts_with ''paid author'' (c # s) \<and> takeWhile is_space t \<noteq> [] \<and> d \<noteq> [] then Some d else paid_author s)"

record payout_entry =
  py_units :: string
  py_height :: int
  py_txId :: string

definition note_payout :: "pool_ledger_entry \<Rightarrow> (string \<times> payout_entry) list \<Rightarrow> (string \<times> payout_entry) list" where
  "note_payout e out = (if \<not> pl_ok e then out
     else let f = split_on (CHR ''|'') (po_payload e); author = nth_field 0 f; permlink = nth_field 1 f in
       case paid_author (pl_ret e) of
         None \<Rightarrow> out
       | Some u \<Rightarrow> if author = [] \<or> permlink = [] then out
           else AList.update (author @ ''|'' @ permlink) \<lparr>py_units = u, py_height = po_height e, py_txId = pl_txId e\<rparr> out)"

definition payoutLedger :: "network \<Rightarrow> nat \<Rightarrow> ledger_memo \<Rightarrow> (string \<times> payout_entry) list result \<times> ledger_memo" where
  "payoutLedger nt limit memo = (case callLedger nt [''payout''] limit memo of
     (rows, memo') \<Rightarrow> (rmap (\<lambda>es. fold note_payout es []) rows, memo'))"

section \<open>Pool operations\<close>

definition pool_rows :: "chain_tx \<Rightarrow> pool_op list" where
  "pool_rows tx = (if cx_status tx \<noteq> ''CONFIRMED'' then []
     else map (\<lambda>c. \<lparr>po_time = cx_ts tx, po_height = cx_height tx, po_action = nullish (ro_action c) [],
         po_payload = nullish (ro_payload c) [], po_signer = nullish (first_auth tx) []\<rparr>)
       (filter (\<lambda>c. is_call c \<and> wanted_call POOL_CALLS c) (cx_ops tx)))"

definition poolOps :: "network \<Rightarrow> nat \<Rightarrow> pool_op list result" where
  "poolOps nt limit = rmap (\<lambda>txs. rev (concat (map pool_rows txs)))
     (walk_pages (turns PAGE limit) PAGE (\<lambda>off. tx_page nt off PAGE) 0)"

section \<open>An account's rows\<close>

definition PAYS :: "string list" where
  "PAYS = [''claim_mint'', ''claim_pool'', ''claim_curation'', ''claim_migration'', ''remove_liquidity'',
     ''swap_lassecash_hbd'', ''swap_hbd_lassecash'', ''swap_lc_hbd'', ''swap_hbd_lc'', ''payout'', ''sweep_mint'',
     ''sweep_tranche'', ''execute'']"

definition status_of :: "chain_tx \<Rightarrow> op_status" where
  "status_of tx = (if cx_status tx = ''CONFIRMED'' then OpConfirmed else if cx_status tx = ''FAILED'' then OpFailed else OpPending)"

text \<open>What the router answered: the last of its outputs with a result that holds
  something, up to the first output that cannot be read.\<close>

definition router_rets :: "(string \<times> contract_output) list \<Rightarrow> string option \<Rightarrow> string option" where
  "router_rets os acc = fold (\<lambda>(c, x) a. if c \<noteq> NATIVE_ROUTER_ID then a
     else (case co_results x of r # _ \<Rightarrow> if or_ok r \<and> or_ret r \<noteq> [] then Some (or_ret r) else a | [] \<Rightarrow> a)) os acc"

fun router_ret :: "network \<Rightarrow> string list \<Rightarrow> string option \<Rightarrow> string option" where
  "router_ret nt [] acc = acc"
| "router_ret nt (i # is) acc = (case query (nt_output nt i) of
     Inl _ \<Rightarrow> acc
   | Inr os \<Rightarrow> router_ret nt is (router_rets (nullish os []) acc))"

definition pays_out :: "chain_tx \<Rightarrow> bool" where
  "pays_out tx = (cx_status tx = ''CONFIRMED'' \<and> list_ex (\<lambda>c. is_call c \<and> nullish (ro_action c) [] \<in> set PAYS) (cx_ops tx))"

text \<open>A call without an action is no call here.\<close>

definition named_call :: "raw_op \<Rightarrow> bool" where
  "named_call c = (is_call c \<and> ro_action c \<noteq> None \<and> ro_action c \<noteq> Some [])"

definition non_empty :: "string option \<Rightarrow> string option" where
  "non_empty v = (case v of Some s \<Rightarrow> if s = [] then None else Some s | None \<Rightarrow> None)"

definition own_row :: "network \<Rightarrow> chain_tx \<Rightarrow> nat \<times> nat \<times> raw_op \<Rightarrow> account_op" where
  "own_row nt tx c = (case c of (k, j, x) \<Rightarrow>
     let r = (if pays_out tx then resultFor (resultsByOp (own_outputs nt (cx_outputs tx)) (\<lambda>_. None)) (cx_id tx) k j else None);
         router = (if pays_out tx then router_ret nt (cx_outputs tx) None else None) in
     \<lparr>ao_id = cx_id tx, ao_time = cx_ts tx, ao_action = nullish (ro_action x) [], ao_payload = nullish (ro_payload x) [],
       ao_status = status_of tx,
       ao_ret = (if ro_action x = Some ''execute'' \<and> router \<noteq> None then router
         else case r of Some v \<Rightarrow> if or_ok v then non_empty (Some (or_ret v)) else None | None \<Rightarrow> None),
       ao_contract = non_empty (ro_contract x)\<rparr>)"

definition own_rows :: "network \<Rightarrow> chain_tx \<Rightarrow> account_op list" where
  "own_rows nt tx = map (own_row nt tx) (numbered named_call 0 0 (cx_ops tx))"

text \<open>A transfer to the account that the list does not already know.\<close>

definition note_incoming :: "string \<Rightarrow> chain_tx \<times> raw_op \<Rightarrow> account_op list \<Rightarrow> account_op list" where
  "note_incoming me e out = (case e of (tx, c) \<Rightarrow> let payload = nullish (ro_payload c) [] in
     if \<not> starts_with (me @ ''|'') payload \<or> list_ex (\<lambda>o'. ao_id o' = cx_id tx) out then out
     else out @ [\<lparr>ao_id = cx_id tx, ao_time = cx_ts tx, ao_action = ''+transfer'',
       ao_payload = payload @ ''|'' @ nullish (first_auth tx) [], ao_status = OpConfirmed, ao_ret = None, ao_contract = None\<rparr>])"

definition incoming_calls :: "chain_tx list \<Rightarrow> (chain_tx \<times> raw_op) list" where
  "incoming_calls txs = concat (map (\<lambda>tx. if cx_status tx \<noteq> ''CONFIRMED'' then []
     else map (\<lambda>c. (tx, c)) (filter (\<lambda>c. is_call c \<and> ro_action c = Some ''transfer'') (cx_ops tx))) txs)"

definition ledger_moves :: "string \<Rightarrow> chain_tx \<Rightarrow> account_op list" where
  "ledger_moves me tx = map (\<lambda>c. \<lparr>ao_id = cx_id tx, ao_time = cx_ts tx,
       ao_action = (if ro_to c = Some me then ''+ledger'' else ''ledger''),
       ao_payload = nullish (ro_from c) [] @ ''|'' @ nullish (ro_to c) [] @ ''|'' @ nullish (ro_amount c) [] @ ''|'' @ nullish (ro_asset c) [],
       ao_status = status_of tx, ao_ret = None, ao_contract = None\<rparr>)
     (filter (\<lambda>c. ro_type c = ''transfer'') (cx_ops tx))"

definition op_key :: "account_op \<Rightarrow> string" where
  "op_key r = ao_id r @ '':'' @ ao_action r @ '':'' @ ao_payload r"

fun first_by :: "('a \<Rightarrow> 'k) \<Rightarrow> 'k set \<Rightarrow> 'a list \<Rightarrow> 'a list" where
  "first_by key seen [] = []"
| "first_by key seen (x # xs) = (if key x \<in> seen then first_by key seen xs else x # first_by key (insert (key x) seen) xs)"

definition newest_first :: "account_op list \<Rightarrow> account_op list" where
  "newest_first = js_sort (\<lambda>a b. str_less (ao_time b) (ao_time a))"

definition accountOps :: "network \<Rightarrow> string \<Rightarrow> nat \<Rightarrow> account_op list result" where
  "accountOps nt acct limit = (let me = qualified_name acct in
     rmap (\<lambda>r. let txs = nullish r []; own = concat (map (own_rows nt) txs);
           incoming = (case tx_page nt 0 100 of Inl _ \<Rightarrow> own | Inr ps \<Rightarrow> fold (note_incoming me) (incoming_calls ps) own);
           out = incoming @ concat (map (ledger_moves me) txs)
         in take limit (newest_first (first_by op_key {} out)))
       (query (nt_signed nt me (min 100 limit))))"

section \<open>Activity\<close>

record activity_row =
  ay_actions :: "(string \<times> nat) list"
  ay_calls :: nat
  ay_lastSeen :: string

record account_activity = activity_row +
  aa_account :: string

text \<open>The confirmed calls of a transaction: who, what and when.\<close>

definition tx_acts :: "discover_tx \<Rightarrow> (string \<times> string \<times> string) list" where
  "tx_acts tx = (if dt_status tx \<noteq> Some ''CONFIRMED'' \<or> signer_of tx = [] then []
     else List.map_filter (\<lambda>c. case dop_action c of None \<Rightarrow> None
       | Some a \<Rightarrow> if dop_type c \<noteq> ''call'' \<or> a = [] then None else Some (signer_of tx, a, nullish (dt_ts tx) [])) (dt_ops tx))"

definition note_act :: "string \<times> string \<times> string \<Rightarrow> (string \<times> activity_row) list \<Rightarrow> (string \<times> activity_row) list" where
  "note_act e rows = (case e of (signer, action, ts) \<Rightarrow>
     let row = nullish (map_of rows signer) \<lparr>ay_actions = [], ay_calls = 0, ay_lastSeen = ts\<rparr> in
     AList.update signer \<lparr>ay_actions = AList.update action (nullish (map_of (ay_actions row) action) 0 + 1) (ay_actions row),
       ay_calls = ay_calls row + 1, ay_lastSeen = (if str_less (ay_lastSeen row) ts then ts else ay_lastSeen row)\<rparr> rows)"

definition all_acts :: "discover_tx list \<Rightarrow> (string \<times> string \<times> string) list" where
  "all_acts txs = concat (map tx_acts txs)"

definition activity_table :: "discover_tx list \<Rightarrow> account_activity list" where
  "activity_table txs = js_sort (\<lambda>a b. ay_calls b < ay_calls a)
     (map (\<lambda>(who, r). \<lparr>ay_actions = ay_actions r, ay_calls = ay_calls r, ay_lastSeen = ay_lastSeen r, aa_account = who\<rparr>)
       (fold note_act (all_acts txs) []))"

definition activity :: "network \<Rightarrow> nat \<Rightarrow> account_activity list result" where
  "activity nt limit = (case fromIndex nt [] of
     Some txs \<Rightarrow> Inr (activity_table (take limit txs))
   | None \<Rightarrow> rmap (\<lambda>txs. activity_table (map discover_cols txs))
       (walk_pages (turns 50 limit) 50 (\<lambda>off. tx_page nt off 50) 0))"

section \<open>The ledger is the history\<close>

text \<open>What the contract's outputs say, anywhere in them, of operation k of a
  transaction.\<close>

definition own_result :: "contract_output list \<Rightarrow> string \<Rightarrow> nat \<Rightarrow> op_result option" where
  "own_result os tx k = map_of (rev (map (\<lambda>(i, r). (op_of_input i, r)) (named_results os))) (tx, k)"

lemma named_results_append [simp]: "named_results (a @ b) = named_results a @ named_results b"
  by (simp add: named_results_def)

lemma named_results_in: "(i, r) \<in> set (named_results os) \<Longrightarrow> \<exists>out \<in> set os. i \<in> set (co_inputs out)"
  by (force simp: named_results_def dest: set_zip_leftD)

lemma own_result_prefix:
  assumes "\<And>out i. out \<in> set b \<Longrightarrow> i \<in> set (co_inputs out) \<Longrightarrow> fst (op_of_input i) \<noteq> tx"
  shows "own_result (a @ b) tx k = own_result a tx k"
proof -
  have "map_of (rev (map (\<lambda>(i, r). (op_of_input i, r)) (named_results b))) (tx, k) = None"
  proof -
    have "\<forall>(i, r) \<in> set (named_results b). fst (op_of_input i) \<noteq> tx" using assms named_results_in by blast
    then have "op_of_input i \<noteq> (tx, k)" if "(i, r) \<in> set (named_results b)" for i r using that by fastforce
    then have "(tx, k) \<notin> fst ` set (rev (map (\<lambda>(i, r). (op_of_input i, r)) (named_results b)))" by force
    then show ?thesis by (simp only: map_of_eq_None_iff not_False_eq_True)
  qed
  then show ?thesis by (simp add: own_result_def map_add_def)
qed

lemma outputs_cut:
  assumes sorted: "sorted_wrt (\<lambda>a b. fst b \<le> fst a) os"
  shows "length os \<le> n * PAGE + m * PAGE \<Longrightarrow> \<exists>rest. drop (m * PAGE) os =
    fst (gather (outputs_done oldest) (map (\<lambda>k. page_at PAGE os (k * PAGE)) [m..<m + n])) @ rest
    \<and> (\<forall>x \<in> set rest. fst x < oldest)"
proof (induction n arbitrary: m)
  case (Suc n)
  let ?d = "drop (m * PAGE) os" and ?p = "page_at PAGE os (m * PAGE)"
  have u: "[m..<m + Suc n] = m # [Suc m..<Suc m + n]" by (simp add: upt_rec)
  have split: "?d = ?p @ drop PAGE ?d" unfolding page_at_def by (rule append_take_drop_id [symmetric])
  show ?case
  proof (cases "outputs_done oldest ?p")
    case True
    have "fst x < oldest" if x: "x \<in> set (drop PAGE ?d)" for x
    proof -
      have "PAGE \<le> length ?p" using x by (cases "PAGE \<le> length ?d") (auto simp: page_at_def)
      then obtain y where y: "y \<in> set ?p" "fst y < oldest" using True by (auto simp: outputs_done_def list_ex_iff)
      have "sorted_wrt (\<lambda>a b. fst b \<le> fst a) (?p @ drop PAGE ?d)" unfolding split [symmetric] by (rule sorted_wrt_drop [OF sorted])
      then show ?thesis using y x by (fastforce simp: sorted_wrt_append)
    qed
    then show ?thesis unfolding u using True split by auto
  next
    case False
    have "length os \<le> n * PAGE + Suc m * PAGE" using Suc.prems by simp
    then obtain rest where r: "drop (Suc m * PAGE) os =
        fst (gather (outputs_done oldest) (map (\<lambda>k. page_at PAGE os (k * PAGE)) [Suc m..<Suc m + n])) @ rest"
      "\<forall>x \<in> set rest. fst x < oldest" using Suc.IH by blast
    have "drop PAGE ?d = drop (Suc m * PAGE) os" by (simp add: add.commute)
    then show ?thesis unfolding u using False split r
      by (intro exI [of _ rest]) (simp add: case_prod_beta del: upt_Suc)
  qed
qed simp

text \<open>Outputs older than a transaction hold none of its results.\<close>

lemma results_before_cut:
  assumes os: "os = kept @ rest" and low: "\<forall>x \<in> set rest. fst x < old" and high: "old \<le> cx_height tx"
    and named: "list_all names_ops (map snd os)"
    and after: "\<And>b out i tx. (b, out) \<in> set os \<Longrightarrow> i \<in> set (co_inputs out) \<Longrightarrow> tx \<in> set h \<Longrightarrow>
       fst (op_of_input i) = cx_id tx \<Longrightarrow> cx_height tx \<le> b"
    and tx: "tx \<in> set h"
  shows "resultFor (resultsByOp (map snd kept) cc) (cx_id tx) k j = own_result (map snd os) (cx_id tx) k"
proof -
  have "fst (op_of_input i) \<noteq> cx_id tx" if "out \<in> set (map snd rest)" "i \<in> set (co_inputs out)" for out i
  proof
    assume a: "fst (op_of_input i) = cx_id tx"
    obtain b where b: "(b, out) \<in> set rest" using \<open>out \<in> _\<close> by auto
    then have "cx_height tx \<le> b" using after [of b out i tx] that(2) tx a by (simp add: os)
    moreover have "b < old" using low b by fastforce
    ultimately show False using high by simp
  qed
  then have "own_result (map snd os) (cx_id tx) k = own_result (map snd kept) (cx_id tx) k"
    unfolding os map_append by (rule own_result_prefix)
  moreover have "list_all names_ops (map snd kept)" using named by (simp add: os)
  ultimately show ?thesis by (simp add: resultFor_named own_result_def)
qed

text \<open>C18. The pool's ledger is the contract's whole history: when the node pages
  through a history within the walk's limit and through outputs that name their
  operations, newest first and never below the transaction they settle, the ledger
  holds exactly the wanted calls of the confirmed transactions, oldest first, each
  with the result the outputs record for that very operation, although the output
  walk stops early and both walks fetch four pages at a time.\<close>

theorem ledger_is_history:
  assumes txs: "\<And>off. nt_txs nt off PAGE = served (Some (page_at PAGE h off))"
    and outs: "\<And>off. nt_outputs nt off PAGE = served (Some (page_at PAGE os off))"
    and room: "length h \<le> limit" "length os \<le> limit + 2 * PAGE"
    and newest: "sorted_wrt (\<lambda>a b. fst b \<le> fst a) os" and named: "list_all names_ops (map snd os)"
    and after: "\<And>b out i tx. (b, out) \<in> set os \<Longrightarrow> i \<in> set (co_inputs out) \<Longrightarrow> tx \<in> set h \<Longrightarrow>
       fst (op_of_input i) = cx_id tx \<Longrightarrow> cx_height tx \<le> b"
  shows "callLedgerWalk nt wanted limit =
    Inr (rev (concat (map (ledger_rows (\<lambda>t k j. own_result (map snd os) t k) wanted) h)))"
proof -
  have page: "0 < PAGE" by (simp add: PAGE_def)
  have p: "tx_page nt (k * PAGE) PAGE = Inr (page_at PAGE h (k * PAGE))" for k by (simp add: tx_page_def txs)
  have all: "ledger_txs nt limit = Inr h"
    using walk_batches_short [OF page p] room(1) turns_enough [OF page, of limit] by (simp add: ledger_txs_def)
  show ?thesis
  proof (cases "h = []")
    case False
    let ?old = "Min (set (map cx_height h))"
    have q: "rmap (\<lambda>r. nullish r []) (query (nt_outputs nt (k * PAGE) PAGE)) = Inr (page_at PAGE os (k * PAGE))" for k
      by (simp add: outs)
    have "length os \<le> (turns PAGE limit + 2) * PAGE + 0 * PAGE" using room(2) turns_enough [OF page, of limit] by simp
    from outputs_cut [OF newest this, of ?old] obtain rest where
      cut: "os = fst (gather (outputs_done ?old) (map (\<lambda>k. page_at PAGE os (k * PAGE)) [0..<turns PAGE limit + 2])) @ rest"
      and low: "\<forall>x \<in> set rest. fst x < ?old" by auto
    define kept where "kept = fst (gather (outputs_done ?old) (map (\<lambda>k. page_at PAGE os (k * PAGE)) [0..<turns PAGE limit + 2]))"
    have os: "os = kept @ rest" using cut kept_def by simp
    have walk: "ledger_outputs nt limit ?old = Inr kept"
      unfolding ledger_outputs_def kept_def by (subst walk_batches_flat [OF q]) simp
    have "resultFor (resultsByOp (map snd kept) cc) (cx_id tx) k j = own_result (map snd os) (cx_id tx) k" if "tx \<in> set h" for tx k j cc
      by (rule results_before_cut [OF os low _ named after that]) (use that in auto)
    then have "map (ledger_rows (resultFor (resultsByOp (map snd kept) cc)) wanted) h
        = map (ledger_rows (\<lambda>t k j. own_result (map snd os) t k) wanted) h" for cc
      by (auto simp: ledger_rows_def ledger_row_def)
    then show ?thesis using False by (simp only: callLedgerWalk_def all rbind_simps walk rmap_simps Let_def if_False)
  qed (simp add: callLedgerWalk_def all)
qed

definition history_node :: "chain_tx list \<Rightarrow> (int \<times> contract_output) list \<Rightarrow> network" where
  "history_node h os = (rows_node Map.empty)\<lparr>nt_txs := (\<lambda>off n. served (Some (page_at n h off))),
     nt_outputs := (\<lambda>off n. served (Some (page_at n os off)))\<rparr>"

definition example_swap :: chain_tx where
  "example_swap = \<lparr>cx_id = ''ab'', cx_height = 7, cx_ts = ''2026-09-02T00:00:00'', cx_status = ''CONFIRMED'',
     cx_auths = [''hive:al''], cx_posting = [], cx_outputs = [''o1''],
     cx_ops = [\<lparr>ro_type = ''call'', ro_action = Some ''increaseAllowance'', ro_payload = None, ro_contract = None, ro_from = None,
         ro_to = None, ro_amount = None, ro_asset = None\<rparr>,
       \<lparr>ro_type = ''call'', ro_action = Some ''swap_lassecash_hbd'', ro_payload = Some ''5|0'', ro_contract = None, ro_from = None,
         ro_to = None, ro_amount = None, ro_asset = None\<rparr>]\<rparr>"

definition example_output :: contract_output where
  "example_output = \<lparr>co_inputs = [''ab-1''], co_results = [\<lparr>or_ok = True, or_ret = ''swapped for 3 HBD''\<rparr>]\<rparr>"

lemma ledger_is_history_witness:
  "callLedgerWalk (history_node [example_swap] [(9, example_output)]) POOL_CALLS 2000 =
    Inr [\<lparr>po_time = ''2026-09-02T00:00:00'', po_height = 7, po_action = ''swap_lassecash_hbd'', po_payload = ''5|0'',
      po_signer = ''hive:al'', pl_txId = ''ab'', pl_ok = True, pl_ret = ''swapped for 3 HBD''\<rparr>]"
proof -
  let ?h = "[example_swap]" and ?os = "[(9 :: int, example_output)]"
  have op: "op_of_input ''ab-1'' = (''ab'', 1)"
    by (simp add: op_of_input_def op_suffix_def line_end_def js_eval)
  have named: "list_all names_ops (map snd ?os)" by (simp add: names_ops_def example_output_def)
  have own: "own_result (map snd ?os) ''ab'' 1 = Some \<lparr>or_ok = True, or_ret = ''swapped for 3 HBD''\<rparr>"
    by (simp add: own_result_def named_results_def example_output_def op)
  have "callLedgerWalk (history_node ?h ?os) POOL_CALLS 2000 =
      Inr (rev (concat (map (ledger_rows (\<lambda>t k j. own_result (map snd ?os) t k) POOL_CALLS) ?h)))"
    by (rule ledger_is_history [where os = ?os]) (use named in \<open>auto simp: history_node_def example_swap_def PAGE_def\<close>)
  also have "\<dots> = Inr [ledger_row (\<lambda>t k j. own_result (map snd ?os) t k) example_swap (1, 1, cx_ops example_swap ! 1)]"
    by (simp add: ledger_rows_def calls_of_def is_call_def example_swap_def wanted_call_def POOL_CALLS_def)
  also have "\<dots> = Inr [\<lparr>po_time = ''2026-09-02T00:00:00'', po_height = 7, po_action = ''swap_lassecash_hbd'', po_payload = ''5|0'',
      po_signer = ''hive:al'', pl_txId = ''ab'', pl_ok = True, pl_ret = ''swapped for 3 HBD''\<rparr>]"
    using own by (simp add: ledger_row_def example_swap_def first_auth_def)
  finally show ?thesis .
qed

section \<open>The activity table counts the calls\<close>

abbreviation acts_by :: "string \<Rightarrow> (string \<times> string \<times> string) list \<Rightarrow> (string \<times> string \<times> string) list" where
  "acts_by s as \<equiv> filter (\<lambda>e. fst e = s) as"

definition row_counts :: "(string \<times> string \<times> string) list \<Rightarrow> string \<Rightarrow> activity_row \<Rightarrow> bool" where
  "row_counts as s r = (ay_calls r = length (acts_by s as) \<and> ay_calls r > 0 \<and>
     (\<forall>x. nullish (map_of (ay_actions r) x) 0 = length (filter (\<lambda>e. fst (snd e) = x) (acts_by s as))))"

lemma note_acts_count:
  "(case map_of (fold note_act as []) s of None \<Rightarrow> acts_by s as = [] | Some r \<Rightarrow> row_counts as s r)"
proof (induction as rule: rev_induct)
  case (snoc e as)
  obtain signer action ts where e: "e = (signer, action, ts)" by (cases e)
  let ?rows = "fold note_act as []"
  have rows: "fold note_act (as @ [e]) [] = note_act e ?rows" by simp
  show ?case
  proof (cases "s = signer")
    case True
    let ?old = "nullish (map_of ?rows signer) \<lparr>ay_actions = [], ay_calls = 0, ay_lastSeen = ts\<rparr>"
    have old: "ay_calls ?old = length (acts_by s as)"
      "nullish (map_of (ay_actions ?old) x) 0 = length (filter (\<lambda>e. fst (snd e) = x) (acts_by s as))" for x
      using snoc True by (cases "map_of ?rows signer"; simp add: row_counts_def)+
    have "map_of (note_act e ?rows) s = Some \<lparr>ay_actions = AList.update action (nullish (map_of (ay_actions ?old) action) 0 + 1) (ay_actions ?old),
        ay_calls = ay_calls ?old + 1, ay_lastSeen = (if str_less (ay_lastSeen ?old) ts then ts else ay_lastSeen ?old)\<rparr>"
      using True by (simp add: e note_act_def Let_def)
    then show ?thesis unfolding rows using old True by (simp add: row_counts_def e)
  next
    case False
    then have "map_of (note_act e ?rows) s = map_of ?rows s" by (simp add: e note_act_def Let_def)
    moreover have "acts_by s (as @ [e]) = acts_by s as" using False by (simp add: e)
    ultimately show ?thesis unfolding rows using snoc by (simp only: row_counts_def)
  qed
qed simp

lemma note_acts_distinct: "distinct (map fst (fold note_act as []))"
  by (induction as rule: rev_induct) (auto simp: note_act_def Let_def distinct_update split: prod.splits)

text \<open>The activity table credits every account with exactly its confirmed calls:
  one row per account that signed any, its total the number of its calls and each
  action's figure the number of calls of that action, busiest first.\<close>

theorem activity_counts_calls:
  "distinct (map aa_account (activity_table txs))
   \<and> set (map aa_account (activity_table txs)) = fst ` set (all_acts txs)
   \<and> list_all (\<lambda>r. row_counts (all_acts txs) (aa_account r) (activity_row.truncate r)) (activity_table txs)
   \<and> sorted_wrt (\<lambda>a b. ay_calls b \<le> ay_calls a) (activity_table txs)"
proof -
  let ?rows = "fold note_act (all_acts txs) []"
  let ?f = "\<lambda>(who, r). \<lparr>ay_actions = ay_actions r, ay_calls = ay_calls r, ay_lastSeen = ay_lastSeen r, aa_account = who\<rparr>"
  have set: "set (activity_table txs) = set (map ?f ?rows)" by (simp add: activity_table_def)
  have key: "aa_account (?f x) = fst x" for x by (simp add: case_prod_beta)
  have "map (aa_account \<circ> ?f) ?rows = map fst ?rows" by (simp add: case_prod_beta)
  then have "distinct (map (aa_account \<circ> ?f) ?rows)" by (simp only: note_acts_distinct)
  then have d: "distinct (map ?f ?rows)" "inj_on aa_account (set (map ?f ?rows))"
    using distinct_map [of aa_account "map ?f ?rows"] by simp_all
  then have "distinct (map aa_account (activity_table txs))" by (simp add: distinct_map activity_table_def)
  moreover have names: "aa_account ` set (activity_table txs) = fst ` set ?rows" by (auto simp: set key image_image)
  have "s \<in> fst ` set ?rows \<longleftrightarrow> s \<in> fst ` set (all_acts txs)" for s
  proof -
    have "map_of ?rows s = None \<longleftrightarrow> s \<notin> fst ` set ?rows" by (rule map_of_eq_None_iff)
    moreover have "acts_by s (all_acts txs) = [] \<longleftrightarrow> s \<notin> fst ` set (all_acts txs)" by (force simp: filter_empty_conv)
    ultimately show ?thesis using note_acts_count [where as = "all_acts txs" and s = s] by (auto simp: row_counts_def split: option.splits)
  qed
  then have "set (map aa_account (activity_table txs)) = fst ` set (all_acts txs)" using names by auto
  moreover have "row_counts (all_acts txs) (aa_account r) (activity_row.truncate r)" if "r \<in> set (activity_table txs)" for r
  proof -
    have "r \<in> ?f ` set ?rows" using that unfolding set by simp
    then obtain x where x: "x \<in> set ?rows" "r = ?f x" by (rule imageE)
    obtain s q where sq: "x = (s, q)" by (cases x)
    have q: "(s, q) \<in> set ?rows" "r = ?f (s, q)" using x sq by simp_all
    then have "map_of ?rows s = Some q" using note_acts_distinct by simp
    then have "row_counts (all_acts txs) s q" using note_acts_count [where as = "all_acts txs" and s = s] by simp
    moreover have "activity_row.truncate r = q" "aa_account r = s" by (simp_all add: q(2) activity_row.truncate_def)
    ultimately show ?thesis by simp
  qed
  moreover have "sorted_wrt (\<lambda>a b. ay_calls b \<le> ay_calls a) (activity_table txs)"
    unfolding activity_table_def by (rule js_sort_sorted) (auto intro: transpI)
  ultimately show ?thesis by (simp add: list_all_iff)
qed

end
