(* ===== verification/Feed.thy ===== *)
theory Feed
  imports History "HOL-Library.Sublist"
begin

text \<open>
  The backend's content reads (magi-backend.ts): discovery, the feed and its
  metadata twin, Hive's tagged posts, a post's article, comments and voters, and
  the balances kept outside the contract.  The caches of the backend are a record
  every read that uses them takes and returns.
\<close>

section \<open>Discovery\<close>

definition MAX_PAGES :: nat where "MAX_PAGES = 20"

definition discover :: "network \<Rightarrow> nat \<Rightarrow> discover_action \<Rightarrow> discovered list result" where
  "discover nt limit action = (case fromIndex nt (if action = DPost then [''post'', ''vote''] else [action_name action]) of
     Some txs \<Rightarrow> Inr (discoveredCalls txs limit action (\<lambda>_. True))
   | None \<Rightarrow> rmap (\<lambda>txs. discoveredCalls txs limit action (\<lambda>_. True))
       (walk_batches (\<lambda>p. length p < 100) (\<lambda>k. rmap (map discover_cols) (tx_page nt (k * 100) 100)) (batches 4 [0..<MAX_PAGES])))"

section \<open>Articles\<close>

record feed_caches =
  fc_taggedAt :: int
  fc_tagged :: "hive_tagged_post list option"
  fc_board :: "(string \<times> hive_tagged_post list) list"
  fc_content :: "(string \<times> content option) list"

definition fresh_caches :: feed_caches where
  "fresh_caches = \<lparr>fc_taggedAt = 0, fc_tagged = None, fc_board = [], fc_content = []\<rparr>"

definition obj_of :: "json \<Rightarrow> (string \<times> json) list option" where
  "obj_of j = (case j of JObj kvs \<Rightarrow> Some kvs | _ \<Rightarrow> None)"

definition or_text :: "string \<Rightarrow> string \<Rightarrow> string" where
  "or_text a b = (if a = [] then b else a)"

definition article_of :: "hive_post \<Rightarrow> content" where
  "article_of p = (let meta = (case json_parse (or_text (hq_json_metadata p) ''{}'') of Inl _ \<Rightarrow> None | Inr j \<Rightarrow> Some j);
       field_at = (\<lambda>k. Option.bind meta (jfield k))
     in \<lparr>ct_title = nullish (hq_title p) [], ct_body = nullish (hq_body p) [],
         ct_summary = nullish (Option.bind (field_at ''description'') jstr) [],
         ct_tags = Some (take 21 (nullish (Option.bind (field_at ''tags'') jarr) [])),
         ct_category = non_empty (Some (or_text (hq_category p) (hq_parent_permlink p))),
         ct_created = (if hq_created p = [] then None else Some (isoUtc (hq_created p))),
         ct_metadata = Option.bind meta obj_of\<rparr>)"

definition content_read :: "network \<Rightarrow> string \<Rightarrow> string \<Rightarrow> content option result" where
  "content_read nt author permlink = rmap (\<lambda>r. case r of None \<Rightarrow> None
     | Some p \<Rightarrow> if hq_author p = [] then None else Some (article_of p)) (nt_content nt (strip_prefix ''hive:'' author) permlink)"

text \<open>One fetch per article and page; a failed fetch is kept as no article.\<close>

definition contentCached :: "network \<Rightarrow> string \<Rightarrow> string \<Rightarrow> feed_caches \<Rightarrow> content option \<times> feed_caches" where
  "contentCached nt author permlink cs = (let key = author @ ''/'' @ permlink in
     case map_of (fc_content cs) key of
       Some c \<Rightarrow> (c, cs)
     | None \<Rightarrow> let c = or_default None (content_read nt author permlink) in
         (c, cs\<lparr>fc_content := (key, c) # fc_content cs\<rparr>))"

fun hydrate :: "('a \<Rightarrow> string \<times> string) \<Rightarrow> (content \<Rightarrow> 'a \<Rightarrow> 'a) \<Rightarrow> network \<Rightarrow> 'a list \<Rightarrow> feed_caches \<Rightarrow> 'a list \<times> feed_caches" where
  "hydrate key put nt [] cs = ([], cs)"
| "hydrate key put nt (v # vs) cs = (case contentCached nt (fst (key v)) (snd (key v)) cs of
     (c, cs1) \<Rightarrow> (case hydrate key put nt vs cs1 of
       (vs', cs2) \<Rightarrow> ((case c of None \<Rightarrow> v | Some x \<Rightarrow> put x v) # vs', cs2)))"

definition view_name :: "post_view \<Rightarrow> string \<times> string" where
  "view_name v = (pv_author v, pv_permlink v)"

definition present_view :: "content \<Rightarrow> post_view \<Rightarrow> post_view" where
  "present_view c v = v\<lparr>pv_title := or_text (ct_title c) (pv_permlink v), pv_summary := ct_summary c,
     pv_body_excerpt := take 2000 (ct_body c), pv_tags := ct_tags c\<rparr>"

definition meta_name :: "post_meta \<Rightarrow> string \<times> string" where
  "meta_name v = (pm_author v, pm_permlink v)"

definition present_meta :: "content \<Rightarrow> post_meta \<Rightarrow> post_meta" where
  "present_meta c v = v\<lparr>pm_title := or_text (ct_title c) (pm_permlink v), pm_summary := ct_summary c,
     pm_body_excerpt := take 2000 (ct_body c), pm_tags := ct_tags c\<rparr>"

section \<open>Post records\<close>

definition post_row_key :: "string \<times> string \<Rightarrow> string" where
  "post_row_key p = ''post_'' @ fst p @ ''_'' @ snd p"

definition found_name :: "discovered \<Rightarrow> string \<times> string" where
  "found_name d = (dc_author d, dc_permlink d)"

definition post_fields :: "rows \<Rightarrow> string \<times> string \<Rightarrow> string list option" where
  "post_fields st p = (case text_at st (post_row_key p) of None \<Rightarrow> None
     | Some raw \<Rightarrow> let f = split_on (CHR ''|'') raw in if length f < 6 then None else Some f)"

definition has_parent :: "string list \<Rightarrow> bool" where
  "has_parent f = (non_empty (field f 9) \<noteq> None)"

definition window_of :: "string list \<Rightarrow> window" where
  "window_of f = (if is_one (field f 0) then Deep else Viral)"

definition meta_row :: "int \<Rightarrow> int \<Rightarrow> string \<times> string \<Rightarrow> string list \<Rightarrow> post_meta result" where
  "meta_row now h p f = (let created = num_or (num (field f 1)) 0 in
     rmap (\<lambda>time. \<lparr>pm_author = fst p, pm_permlink = snd p, pm_window = window_of f, pm_created_height = created,
       pm_created_time = time, pm_title = [], pm_summary = [], pm_body_excerpt = [], pm_tags = None, pm_registered = True\<rparr>)
     (iso_of (Some (now - (h - created) * 3000))))"

definition article_row :: "rows \<Rightarrow> string \<times> string \<Rightarrow> ((string \<times> string) \<times> string list) option" where
  "article_row st p = (case post_fields st p of None \<Rightarrow> None
     | Some f \<Rightarrow> if has_parent f then None else Some (p, f))"

definition postMeta :: "network \<Rightarrow> string \<Rightarrow> string \<Rightarrow> post_meta option result" where
  "postMeta nt author permlink = (let p = (author, permlink) in
     rbind (state nt [post_row_key p]) (\<lambda>st. rbind (height nt) (\<lambda>h.
       case article_row st p of None \<Rightarrow> Inr None | Some (_, f) \<Rightarrow> rmap Some (meta_row (nt_now nt) h p f))))"

section \<open>Posts with their figures\<close>

definition pool_keys :: "window \<Rightarrow> string \<times> string" where
  "pool_keys w = (case w of Deep \<Rightarrow> (''pool_deep'', ''rsh_deep'') | Viral \<Rightarrow> (''pool_viral'', ''rsh_viral''))"

definition view_row :: "network \<Rightarrow> rows \<Rightarrow> int \<Rightarrow> engine_constants \<Rightarrow> (string \<times> string) \<times> string list \<Rightarrow> post_view result" where
  "view_row nt pools h c e = (case e of (p, f) \<Rightarrow> let
       w = window_of f; created = num (field f 1); hpd = number_of (ec_heightsPerDay c);
       days = (case w of Deep \<Rightarrow> ec_deepPayoutDays c | Viral \<Rightarrow> ec_viralPayoutDays c);
       payout = num2 (+) created (num2 (*) (Some days) hpd); paid = is_one (field f 3);
       paidAt = num (field f 8); year = num2 (+) paidAt (num2 (*) (Some 365) hpd)
     in rbind (iso_of (num2 (\<lambda>x d. nt_now nt - (h - x) * d) created (Some 3000))) (\<lambda>ctime.
        rbind (iso_of (num2 (\<lambda>x d. nt_now nt + (x - h) * d) payout (Some 3000))) (\<lambda>ptime.
        rbind (units (field f 11)) (\<lambda>promoted.
        rbind (if paid then Inr ''0.00000000'' else estimateRewardShare (nt_engine nt) (zero_at pools (fst (pool_keys w)))
                 (or_zero (field f 2)) (zero_at pools (snd (pool_keys w)))) (\<lambda>pending.
        rmap (\<lambda>pot. \<lparr>pv_author = fst p, pv_permlink = snd p, pv_window = w, pv_created_height = nullish created 0,
          pv_created_time = ctime, pv_payout_height = nullish payout 0, pv_payout_time = ptime,
          pv_rshares = nullish (field f 2) ''0'', pv_payout_mode = num (field f 7),
          pv_parent_author = nullish (field f 9) [], pv_parent_permlink = nullish (field f 10) [], pv_promoted = promoted,
          pv_title = snd p, pv_summary = [], pv_body_excerpt = [], pv_tags = None, pv_votes = num (field f 6),
          pv_paid_out = paid, pv_payable = (\<not> paid \<and> nullish payout 0 \<le> h), pv_pending_payout = pending,
          pv_curator_pot = pot, pv_curation_expires_at = (if num_gt paidAt (Some 0) then nullish year 0 else 0),
          pv_registered = True, pv_shown_for_context = None, pv_bot_commands = None\<rparr>) (units (field f 4)))))))"

definition record_rows :: "rows \<Rightarrow> (string \<times> string) list \<Rightarrow> ((string \<times> string) \<times> string list) list" where
  "record_rows st ps = List.map_filter (\<lambda>p. map_option (\<lambda>f. (p, f)) (post_fields st p)) ps"

definition viewsFor :: "network \<Rightarrow> (string \<times> string) list \<Rightarrow> post_view list result" where
  "viewsFor nt found = (if found = [] then Inr []
     else rbind (state nt (map post_row_key found)) (\<lambda>st. rbind (height nt) (\<lambda>h.
       rbind (state nt [''pool_viral'', ''pool_deep'', ''rsh_viral'', ''rsh_deep'']) (\<lambda>pools.
       rbind (constants (nt_engine nt)) (\<lambda>c. mapR (view_row nt pools h c) (record_rows st found))))))"

section \<open>Hive's tagged posts\<close>

definition LASSECASH_TAG :: string where "LASSECASH_TAG = ''lassecash''"
definition TAGGED_CACHE_MS :: int where "TAGGED_CACHE_MS = 60000"

text \<open>Whether a post's metadata, given as text or parsed, carries the tag.\<close>

definition has_tag :: "hive_tagged_post \<Rightarrow> bool" where
  "has_tag p = (let meta = (case hp_json_metadata p of
       Some (JStr s) \<Rightarrow> (case json_parse s of Inl _ \<Rightarrow> None | Inr j \<Rightarrow> Some j)
     | m \<Rightarrow> m)
   in (case Option.bind meta (jfield ''tags'') of
       Some (JArr ts) \<Rightarrow> List.member ts (JStr LASSECASH_TAG) | _ \<Rightarrow> False))"

text \<open>A member's recent tagged posts; a call that fails gives the last good answer.\<close>

definition member_posts :: "network \<Rightarrow> string \<Rightarrow> feed_caches \<Rightarrow> hive_tagged_post list \<times> feed_caches" where
  "member_posts nt acct cs = (case nt_postsOf nt (strip_prefix ''hive:'' acct) 10 of
     Inr (Some rows) \<Rightarrow> let tagged = filter has_tag rows in (tagged, cs\<lparr>fc_board := AList.update acct tagged (fc_board cs)\<rparr>)
   | _ \<Rightarrow> (nullish (map_of (fc_board cs) acct) [], cs))"

fun members_posts :: "network \<Rightarrow> string list \<Rightarrow> feed_caches \<Rightarrow> hive_tagged_post list \<times> feed_caches" where
  "members_posts nt [] cs = ([], cs)"
| "members_posts nt (a # as) cs = (case member_posts nt a cs of
     (ps, cs1) \<Rightarrow> (case members_posts nt as cs1 of (qs, cs2) \<Rightarrow> (ps @ qs, cs2)))"

definition boardPosts :: "network \<Rightarrow> feed_caches \<Rightarrow> hive_tagged_post list result \<times> feed_caches" where
  "boardPosts nt cs = (case state nt [''gov_board''] of
     Inl e \<Rightarrow> (Inl e, cs)
   | Inr st \<Rightarrow> (case members_posts nt (take 20 (board_of st)) cs of (ps, cs') \<Rightarrow> (Inr ps, cs')))"

definition row_name :: "hive_tagged_post \<Rightarrow> string" where
  "row_name p = hp_author p @ ''/'' @ hp_permlink p"

definition fetchTagged :: "network \<Rightarrow> feed_caches \<Rightarrow> hive_tagged_post list result \<times> feed_caches" where
  "fetchTagged nt cs = (case boardPosts nt cs of (board, cs') \<Rightarrow>
     (rbind (nt_ranked nt LASSECASH_TAG 50) (\<lambda>ranked. rmap (\<lambda>b. first_by row_name {} (nullish ranked [] @ b)) board), cs'))"

definition taggedCached :: "network \<Rightarrow> feed_caches \<Rightarrow> hive_tagged_post list \<times> feed_caches" where
  "taggedCached nt cs = (case fc_tagged cs of
     Some rows \<Rightarrow> if nt_now nt - fc_taggedAt cs < TAGGED_CACHE_MS then (rows, cs)
       else (case fetchTagged nt cs of (r, cs') \<Rightarrow>
         (or_default [] r, cs'\<lparr>fc_taggedAt := nt_now nt, fc_tagged := Some (or_default [] r)\<rparr>))
   | None \<Rightarrow> (case fetchTagged nt cs of (r, cs') \<Rightarrow>
         (or_default [] r, cs'\<lparr>fc_taggedAt := nt_now nt, fc_tagged := Some (or_default [] r)\<rparr>)))"

text \<open>The start of the window a tagged post may be shown for; 0 stands for a
  start that is not a number, which excludes nothing.\<close>

definition not_before :: "network \<Rightarrow> engine_constants \<Rightarrow> rows \<Rightarrow> int \<Rightarrow> int" where
  "not_before nt c st h = nullish (num2 max
     (num2 (\<lambda>d k. nt_now nt - d * k * 3000) (Some (ec_viralPayoutDays c)) (number_of (ec_heightsPerDay c)))
     (num2 (\<lambda>x d. nt_now nt - (h - x) * d) (num (st ''cfg_genesis'')) (Some 3000))) 0"

definition tagged_rows :: "network \<Rightarrow> (string \<times> string) list \<Rightarrow> hive_tagged_post list \<Rightarrow> post_view list result" where
  "tagged_rows nt registered rows = (let authors = dedupe (map (\<lambda>r. qualified_name (hp_author r)) rows); e = nt_engine nt in
     rbind (constants e) (\<lambda>c.
     rbind (state nt (map (\<lambda>a. ''shr_'' @ a) authors)) (\<lambda>shares.
     rbind (governed nt [ec_paramPostThresholdViral c]) (\<lambda>gov.
     rbind (state nt [''cfg_genesis'']) (\<lambda>genesis. rbind (height nt) (\<lambda>h.
       mergeTagged (\<lambda>s t. or_default False (canPost e s t)) registered rows (\<lambda>a. shares (''shr_'' @ a))
         (nullish (map_of gov (ec_paramPostThresholdViral c)) ''0'') (not_before nt c genesis h)))))))"

definition tagged :: "network \<Rightarrow> (string \<times> string) list \<Rightarrow> feed_caches \<Rightarrow> post_view list \<times> feed_caches" where
  "tagged nt registered cs = (case taggedCached nt cs of (rows, cs') \<Rightarrow>
     (if rows = [] then [] else or_default [] (tagged_rows nt registered rows), cs'))"

section \<open>The feed\<close>

definition view_meta :: "post_view \<Rightarrow> post_meta" where
  "view_meta v = \<lparr>pm_author = pv_author v, pm_permlink = pv_permlink v, pm_window = pv_window v,
     pm_created_height = pv_created_height v, pm_created_time = pv_created_time v, pm_title = pv_title v,
     pm_summary = pv_summary v, pm_body_excerpt = pv_body_excerpt v, pm_tags = pv_tags v, pm_registered = pv_registered v\<rparr>"

definition registered_metas :: "network \<Rightarrow> (string \<times> string) list \<Rightarrow> post_meta list result" where
  "registered_metas nt found = rbind (state nt (map post_row_key found)) (\<lambda>st. rbind (height nt) (\<lambda>h.
     mapR (\<lambda>(p, f). meta_row (nt_now nt) h p f) (List.map_filter (article_row st) found)))"

definition postsMeta :: "network \<Rightarrow> nat \<Rightarrow> feed_caches \<Rightarrow> post_meta list result \<times> feed_caches" where
  "postsMeta nt limit cs = (case discover nt limit DPost of
     Inl e \<Rightarrow> (Inl e, cs)
   | Inr ds \<Rightarrow> let found = map found_name ds in
       if found = [] then (case tagged nt found cs of (ts, cs') \<Rightarrow> (Inr (map view_meta ts), cs'))
       else (case registered_metas nt found of
           Inl e \<Rightarrow> (Inl e, cs)
         | Inr ms \<Rightarrow> (case hydrate meta_name present_meta nt ms cs of
             (ms', cs1) \<Rightarrow> (case tagged nt found cs1 of (ts, cs2) \<Rightarrow> (Inr (ms' @ map view_meta ts), cs2)))))"

definition posts :: "network \<Rightarrow> nat \<Rightarrow> feed_caches \<Rightarrow> post_view list result \<times> feed_caches" where
  "posts nt limit cs = (case discover nt limit DPost of
     Inl e \<Rightarrow> (Inl e, cs)
   | Inr ds \<Rightarrow> let found = map found_name ds in
       case viewsFor nt found of
         Inl e \<Rightarrow> (Inl e, snd (tagged nt found cs))
       | Inr vs \<Rightarrow> (case hydrate view_name present_view nt vs cs of
           (vs', cs1) \<Rightarrow> (case tagged nt found cs1 of
             (ts, cs2) \<Rightarrow> (Inr (filter (\<lambda>v. pv_parent_author v = []) vs' @ ts), cs2))))"

section \<open>Comments\<close>

definition MAX_FETCHES :: nat where "MAX_FETCHES = 30"

definition reply_name :: "hive_comment \<Rightarrow> string \<times> string" where
  "reply_name r = (qualified_name (hc_author r), hc_permlink r)"

text \<open>The walk over the thread: what was asked for, in order, and the replies
  found that are not registered.  'queued' and 'known' hold author/permlink keys.\<close>

definition name_key :: "string \<times> string \<Rightarrow> string" where
  "name_key p = post_key (fst p) (snd p)"

definition take_reply :: "string set \<Rightarrow> hive_comment \<Rightarrow> (string \<times> string) list \<times> string set \<times> hive_comment list
    \<Rightarrow> (string \<times> string) list \<times> string set \<times> hive_comment list" where
  "take_reply known r st = (case st of (q, s, f) \<Rightarrow> let k = name_key (reply_name r) in
     if k \<in> s then st else (q @ [reply_name r], insert k s, if k \<in> known then f else f @ [r]))"

definition take_replies :: "string set \<Rightarrow> hive_comment list \<Rightarrow>
    (string \<times> string) list \<Rightarrow> string set \<Rightarrow> hive_comment list \<Rightarrow>
    (string \<times> string) list \<times> string set \<times> hive_comment list" where
  "take_replies known rs queue queued fresh = fold (take_reply known) rs (queue, queued, fresh)"

fun thread_walk :: "nat \<Rightarrow> network \<Rightarrow> string set \<Rightarrow> (string \<times> string) list \<Rightarrow> string set \<Rightarrow>
    hive_comment list \<Rightarrow> (string \<times> string) list \<Rightarrow> (hive_comment list \<times> (string \<times> string) list) result" where
  "thread_walk 0 nt known queue queued fresh asked = Inr (fresh, asked)"
| "thread_walk (Suc n) nt known [] queued fresh asked = Inr (fresh, asked)"
| "thread_walk (Suc n) nt known (node # queue) queued fresh asked =
     rbind (nt_replies nt (strip_prefix ''hive:'' (fst node)) (snd node)) (\<lambda>rows.
       case take_replies known (nullish rows []) queue queued fresh of
         (q, s, f) \<Rightarrow> thread_walk n nt known q s f (asked @ [node]))"

definition reply_view :: "hive_comment \<Rightarrow> post_view" where
  "reply_view r = (let at = (if hc_created r = [] then [] else hc_created r @ ''Z'') in
     \<lparr>pv_author = qualified_name (hc_author r), pv_permlink = hc_permlink r, pv_window = Viral, pv_created_height = 0,
       pv_created_time = at, pv_payout_height = 0, pv_payout_time = [], pv_rshares = ''0'', pv_payout_mode = Some 0,
       pv_parent_author = qualified_name (hc_parent_author r), pv_parent_permlink = hc_parent_permlink r,
       pv_promoted = ''0.00000000'', pv_title = [], pv_summary = [], pv_body_excerpt = take 220 (nullish (hc_body r) []),
       pv_tags = Some [], pv_votes = Some 0, pv_paid_out = False, pv_payable = False, pv_pending_payout = ''0.00000000'',
       pv_curator_pot = ''0.00000000'', pv_curation_expires_at = 0, pv_registered = False, pv_shown_for_context = None,
       pv_bot_commands = None\<rparr>)"

definition reply_row :: "engine \<Rightarrow> rows \<Rightarrow> string \<Rightarrow> hive_comment \<Rightarrow> hive_reply result" where
  "reply_row e shares threshold r = rmap (\<lambda>q. \<lparr>hr_view = reply_view r, hr_qualifies = q, hr_body = Some (nullish (hc_body r) [])\<rparr>)
     (canPost e (zero_at shares (''shr_'' @ qualified_name (hc_author r))) threshold)"

definition thread_start :: "string \<times> string \<Rightarrow> post_view list \<Rightarrow> (string \<times> string) list" where
  "thread_start root registered = root # map view_name registered"

definition thread_replies :: "network \<Rightarrow> string \<times> string \<Rightarrow> post_view list \<Rightarrow> (hive_comment list \<times> (string \<times> string) list) result" where
  "thread_replies nt root registered = thread_walk MAX_FETCHES nt (set (map view_key registered))
     (thread_start root registered) (set (map name_key (thread_start root registered))) [] []"

definition hiveReplies :: "network \<Rightarrow> string \<Rightarrow> string \<Rightarrow> post_view list \<Rightarrow> hive_reply list" where
  "hiveReplies nt author permlink registered = or_default []
     (rbind (thread_replies nt (author, permlink) registered) (\<lambda>(fresh, asked).
        if fresh = [] then Inr []
        else let authors = dedupe (map (\<lambda>r. qualified_name (hc_author r)) fresh) in
          rbind (constants (nt_engine nt)) (\<lambda>c.
          rbind (state nt (map (\<lambda>a. ''shr_'' @ a) authors)) (\<lambda>shares.
          rbind (governed nt [ec_paramPostThresholdComment c]) (\<lambda>gov.
            mapR (reply_row (nt_engine nt) shares (nullish (map_of gov (ec_paramPostThresholdComment c)) ''0'')) fresh)))))"

definition comments :: "network \<Rightarrow> string \<Rightarrow> string \<Rightarrow> feed_caches \<Rightarrow> post_view list result \<times> feed_caches" where
  "comments nt author permlink cs = (case rbind (discover nt 200 DComment) (\<lambda>all.
       viewsFor nt (map found_name (commentTree author permlink all))) of
     Inl e \<Rightarrow> (Inl e, cs)
   | Inr vs \<Rightarrow> (case hydrate view_name present_view nt vs cs of (registered, cs') \<Rightarrow>
       (Inr (registered @ visibleHiveReplies registered (hiveReplies nt author permlink registered)), cs')))"

section \<open>Voters\<close>

definition vote_names :: "string \<Rightarrow> raw_op \<Rightarrow> bool" where
  "vote_names pre c = (ro_type c = ''call'' \<and> ro_action c = Some ''vote'' \<and> starts_with pre (nullish (ro_payload c) []))"

definition voters_of :: "string \<Rightarrow> chain_tx list \<Rightarrow> string list" where
  "voters_of pre txs = dedupe (concat (map (\<lambda>tx. case non_empty (first_auth tx) of None \<Rightarrow> []
     | Some v \<Rightarrow> map (\<lambda>_. v) (filter (vote_names pre) (cx_ops tx))) txs))"

definition vote_key :: "string \<Rightarrow> string \<Rightarrow> string \<Rightarrow> string" where
  "vote_key author permlink v = ''pv_'' @ author @ ''_'' @ permlink @ ''_'' @ v"

definition heavier :: "post_vote \<Rightarrow> post_vote \<Rightarrow> bool" where
  "heavier a b = (let x = or_default 0 (big_int (pvt_rshares a)); y = or_default 0 (big_int (pvt_rshares b)) in
     if x \<noteq> y then y < x else str_less (pvt_voter a) (pvt_voter b))"

text \<open>The comparator reads both weights, so one that is no number throws as soon as
  two rows are compared.\<close>

definition sort_votes :: "post_vote list \<Rightarrow> post_vote list result" where
  "sort_votes vs = (if length vs < 2 then Inr vs
     else rmap (\<lambda>_. js_sort heavier vs) (mapR (\<lambda>v. big_int (pvt_rshares v)) vs))"

definition vote_rows :: "(string \<Rightarrow> string option) \<Rightarrow> string list \<Rightarrow> post_vote list" where
  "vote_rows f ws = List.map_filter (\<lambda>w. map_option (\<lambda>raw. \<lparr>pvt_voter = w, pvt_rshares = raw\<rparr>) (f w)) ws"

definition postVotes :: "network \<Rightarrow> string \<Rightarrow> string \<Rightarrow> post_vote list result" where
  "postVotes nt author permlink = rbind (walk_pages (turns 100 3000) 100 (\<lambda>off. tx_page nt off 100) 0) (\<lambda>txs.
     let voters = voters_of (author @ ''|'' @ permlink @ ''|'') txs in
     if voters = [] then Inr []
     else rbind (state nt (map (vote_key author permlink) voters)) (\<lambda>st.
       sort_votes (vote_rows (\<lambda>v. text_at st (vote_key author permlink v)) voters)))"

section \<open>Balances outside the contract\<close>

definition mappedBalance :: "network \<Rightarrow> string \<Rightarrow> string \<Rightarrow> int option" where
  "mappedBalance nt contractId who = (let key = MAPPED_BALANCE_PREFIX @ qualified_name who in
     case query (nt_hex nt contractId [key]) of
       Inl _ \<Rightarrow> None
     | Inr m \<Rightarrow> (case text_at m key of None \<Rightarrow> Some 0
         | Some hex \<Rightarrow> (case big_int (''0x'' @ hex) of Inl _ \<Rightarrow> None | Inr v \<Rightarrow> Some v)))"

definition magiPoolReserves :: "network \<Rightarrow> string \<Rightarrow> (int \<times> int) option" where
  "magiPoolReserves nt contractId = (case query (nt_hex nt contractId [''r0'', ''r1'']) of
     Inl _ \<Rightarrow> None
   | Inr m \<Rightarrow> (case (text_at m ''r0'', text_at m ''r1'') of
       (Some r0, Some r1) \<Rightarrow> (case (big_int (''0x'' @ r0), big_int (''0x'' @ r1)) of
           (Inr a, Inr b) \<Rightarrow> if a \<le> 0 \<or> b \<le> 0 then None else Some (a, b)
         | _ \<Rightarrow> None)
     | _ \<Rightarrow> None))"

text \<open>'"1.234 HBD"' is '"1.234"'.\<close>

definition first_word :: "string option \<Rightarrow> string" where
  "first_word v = hd (split_on (CHR '' '') (nullish v ''0''))"

definition hiveBalances :: "network \<Rightarrow> string \<Rightarrow> (string \<times> string) option" where
  "hiveBalances nt who = (case nt_hiveAccount nt (strip_prefix ''hive:'' who) of
     Inr (Some (hbd, hive)) \<Rightarrow> Some (first_word hbd, first_word hive) | _ \<Rightarrow> None)"

section \<open>The two feeds agree\<close>

lemma hydrate_map:
  assumes "\<And>c v. g (put c v) = g v"
  shows "map g (fst (hydrate key put nt vs cs)) = map g vs"
  using assms by (induction vs arbitrary: cs) (simp_all add: case_prod_beta split: option.splits)

lemma mergeTagged_unregistered:
  "mergeTagged cp reg rows shares th nb = Inr vs \<Longrightarrow> list_all (\<lambda>v. \<not> pv_registered v \<and> pv_parent_author v = []) vs"
proof -
  have "merge_rows cp shares th nb known rows = Inr vs \<Longrightarrow> list_all (\<lambda>v. \<not> pv_registered v \<and> pv_parent_author v = []) vs" for known
    by (induction cp shares th nb known rows arbitrary: vs rule: merge_rows.induct)
      (auto simp: rbind_Inr_iff rmap_Inr_iff tagged_view_def Let_def split: if_splits)
  then show "mergeTagged cp reg rows shares th nb = Inr vs \<Longrightarrow> list_all (\<lambda>v. \<not> pv_registered v \<and> pv_parent_author v = []) vs"
    by (simp add: mergeTagged_def)
qed

lemma tagged_unregistered: "list_all (\<lambda>v. \<not> pv_registered v \<and> pv_parent_author v = []) (fst (tagged nt reg cs))"
proof -
  have "list_all (\<lambda>v. \<not> pv_registered v \<and> pv_parent_author v = []) (or_default [] (tagged_rows nt reg rows))" for rows
    by (cases "tagged_rows nt reg rows")
      (auto simp: tagged_rows_def Let_def rbind_Inr_iff intro: mergeTagged_unregistered)
  then show ?thesis by (simp add: tagged_def case_prod_beta)
qed

lemma view_row_fields:
  assumes "view_row nt pools h c (p, f) = Inr v"
  shows "view_name v = p" "pv_registered v" "(pv_parent_author v = []) = (\<not> has_parent f)"
  using assms by (auto simp: view_row_def Let_def rbind_Inr_iff rmap_Inr_iff view_name_def has_parent_def non_empty_def
    nullish_def split: option.splits)

lemma meta_row_fields:
  "meta_row now h p f = Inr m \<Longrightarrow> meta_name m = p \<and> pm_registered m"
  by (auto simp: meta_row_def Let_def rmap_Inr_iff meta_name_def)

lemma views_names:
  assumes "mapR (view_row nt pools h c) es = Inr vs"
  shows "map view_name (filter (\<lambda>v. pv_parent_author v = []) vs) = map fst (filter (\<lambda>e. \<not> has_parent (snd e)) es)"
    "list_all pv_registered vs"
proof -
  have "list_all2 (\<lambda>e v. view_row nt pools h c e = Inr v) es vs" using assms by (simp add: mapR_Inr_iff)
  then show "map view_name (filter (\<lambda>v. pv_parent_author v = []) vs) = map fst (filter (\<lambda>e. \<not> has_parent (snd e)) es)"
    "list_all pv_registered vs"
    by (induction rule: list_all2_induct) (auto dest: view_row_fields)
qed

lemma metas_names:
  assumes "mapR (\<lambda>(p, f). meta_row now h p f) es = Inr ms"
  shows "map meta_name ms = map fst es \<and> list_all pm_registered ms"
proof -
  have "list_all2 (\<lambda>e m. (\<lambda>(p, f). meta_row now h p f) e = Inr m) es ms" using assms by (simp add: mapR_Inr_iff)
  then show ?thesis by (induction rule: list_all2_induct) (auto dest: meta_row_fields)
qed

lemma article_rows: "List.map_filter (article_row st) ps = filter (\<lambda>e. \<not> has_parent (snd e)) (record_rows st ps)"
  by (induction ps) (auto simp: record_rows_def article_row_def map_filter_simps split: option.splits)

definition registered_names :: "network \<Rightarrow> (string \<times> string) list \<Rightarrow> (string \<times> string) list" where
  "registered_names nt found = (case state nt (map post_row_key found) of Inl _ \<Rightarrow> []
     | Inr st \<Rightarrow> map fst (List.map_filter (article_row st) found))"

lemma viewsFor_names:
  assumes "viewsFor nt found = Inr vs"
  shows "map view_name (filter (\<lambda>v. pv_parent_author v = []) vs) = registered_names nt found \<and> list_all pv_registered vs"
proof (cases "found = []")
  case True
  then show ?thesis using assms by (simp add: viewsFor_def registered_names_def state_def map_filter_simps)
next
  case False
  then obtain st pools h c where "state nt (map post_row_key found) = Inr st"
    "mapR (view_row nt pools h c) (record_rows st found) = Inr vs"
    using assms by (auto simp: viewsFor_def rbind_Inr_iff)
  then show ?thesis using views_names by (simp add: registered_names_def article_rows)
qed

lemma registered_metas_names:
  "registered_metas nt found = Inr ms \<Longrightarrow> map meta_name ms = registered_names nt found \<and> list_all pm_registered ms"
  by (auto simp: registered_metas_def registered_names_def rbind_Inr_iff dest: metas_names)

lemma filter_all [simp]: "list_all P xs \<Longrightarrow> filter P xs = xs"
  by (simp add: list_all_iff)

lemma filter_none: "list_all (\<lambda>x. \<not> P x) xs \<Longrightarrow> filter P xs = []"
  by (auto simp: list_all_iff filter_empty_conv)

lemma posts_registered:
  assumes "discover nt limit DPost = Inr ds" "posts nt limit cs = (Inr vs, cs')"
  shows "map view_name (filter pv_registered vs) = registered_names nt (map found_name ds)
    \<and> list_all (\<lambda>v. pv_parent_author v = []) vs"
proof -
  obtain v0 where v0: "viewsFor nt (map found_name ds) = Inr v0" using assms by (auto simp: posts_def Let_def split: sum.splits)
  obtain v1 cs1 where h: "hydrate view_name present_view nt v0 cs = (v1, cs1)" by fastforce
  obtain ts cs2 where t: "tagged nt (map found_name ds) cs1 = (ts, cs2)" by fastforce
  have vs: "vs = filter (\<lambda>v. pv_parent_author v = []) v1 @ ts" using assms v0 h t by (simp add: posts_def)
  have ts: "list_all (\<lambda>v. \<not> pv_registered v \<and> pv_parent_author v = []) ts" using tagged_unregistered [of nt "map found_name ds" cs1] t by simp
  have same: "map (\<lambda>v. (view_name v, pv_registered v, pv_parent_author v)) v1 = map (\<lambda>v. (view_name v, pv_registered v, pv_parent_author v)) v0"
    using hydrate_map [of "\<lambda>v. (view_name v, pv_registered v, pv_parent_author v)" present_view view_name nt v0 cs] h
    by (simp add: present_view_def view_name_def)
  have sub: "map view_name (filter (\<lambda>v. pv_parent_author v = []) xs) =
      map fst (filter (\<lambda>t. snd (snd t) = []) (map (\<lambda>v. (view_name v, pv_registered v, pv_parent_author v)) xs))" for xs
    by (induction xs) simp_all
  have names: "map view_name (filter (\<lambda>v. pv_parent_author v = []) v1) = registered_names nt (map found_name ds)"
    using viewsFor_names [OF v0] sub [of v1] sub [of v0] same by simp
  have "list_all (\<lambda>t. fst (snd t)) (map (\<lambda>v. (view_name v, pv_registered v, pv_parent_author v)) v1)"
    unfolding same using viewsFor_names [OF v0] by (simp add: list_all_iff)
  then have "list_all pv_registered v1" by (simp add: list_all_iff)
  then have "filter pv_registered vs = filter (\<lambda>v. pv_parent_author v = []) v1"
    using ts by (auto simp: vs list_all_iff filter_empty_conv intro!: filter_cong)
  then show ?thesis using names ts by (auto simp: vs list_all_iff)
qed

lemma postsMeta_registered:
  assumes "discover nt limit DPost = Inr ds" "postsMeta nt limit cs = (Inr ms, cs')"
  shows "map meta_name (filter pm_registered ms) = registered_names nt (map found_name ds)"
proof -
  let ?found = "map found_name ds"
  have none: "filter pm_registered (map view_meta (fst (tagged nt ?found c))) = []" for c
    using tagged_unregistered [of nt ?found c] by (auto simp: list_all_iff filter_empty_conv view_meta_def)
  show ?thesis
  proof (cases "?found = []")
    case True
    then have "ms = map view_meta (fst (tagged nt ?found cs))" using assms by (auto simp: postsMeta_def Let_def case_prod_beta)
    then show ?thesis using True none [of cs] by (simp add: registered_names_def state_def map_filter_simps)
  next
    case False
    then obtain m0 where m0: "registered_metas nt ?found = Inr m0"
      using assms by (auto simp: postsMeta_def Let_def split: sum.splits)
    obtain m1 cs1 where h: "hydrate meta_name present_meta nt m0 cs = (m1, cs1)" by fastforce
    have ms: "ms = m1 @ map view_meta (fst (tagged nt ?found cs1))" using assms m0 h False by (simp add: postsMeta_def case_prod_beta Let_def)
    have names: "map meta_name m1 = map meta_name m0" and reg: "map pm_registered m1 = map pm_registered m0"
      using hydrate_map [of meta_name present_meta meta_name nt m0 cs] hydrate_map [of pm_registered present_meta meta_name nt m0 cs] h
      by (simp_all add: present_meta_def meta_name_def)
    have m0_ok: "map meta_name m0 = registered_names nt ?found" "list_all pm_registered m0" using registered_metas_names [OF m0] by simp_all
    then have "list_all (\<lambda>b. b) (map pm_registered m1)" unfolding reg by (simp add: list_all_iff)
    then have "filter pm_registered m1 = m1" by (auto simp: list_all_iff)
    then show ?thesis using none [of cs1] names m0_ok(1) by (simp add: ms)
  qed
qed

text \<open>The feed never disagrees with itself: the server's list and the browser's
  list name the same registered posts in the same order, whatever the state of
  their caches, and no reply is shown as an article in either.\<close>

theorem feeds_agree:
  assumes "posts nt limit cs = (Inr vs, cs')" and "postsMeta nt limit ds = (Inr ms, ds')"
  shows "map view_name (filter pv_registered vs) = map meta_name (filter pm_registered ms)
    \<and> list_all (\<lambda>v. pv_parent_author v = []) vs"
proof -
  obtain found where d: "discover nt limit DPost = Inr found" using assms(1) by (auto simp: posts_def split: sum.splits)
  show ?thesis using posts_registered [OF d assms(1)] postsMeta_registered [OF d assms(2)] by simp
qed

section \<open>The walk over a thread\<close>

abbreviation names_of :: "hive_comment list \<Rightarrow> (string \<times> string) list" where
  "names_of rs \<equiv> map reply_name rs"

definition thread_ok :: "(string \<times> string) list \<Rightarrow> (string \<times> string) list \<Rightarrow> string set \<Rightarrow> bool" where
  "thread_ok asked queue queued = (distinct (map name_key (asked @ queue)) \<and> set (map name_key (asked @ queue)) = queued)"

lemma thread_ok_push:
  "thread_ok asked q s \<Longrightarrow> name_key x \<notin> s \<Longrightarrow> thread_ok asked (q @ [x]) (insert (name_key x) s)"
proof -
  assume a: "thread_ok asked q s" "name_key x \<notin> s"
  have "map name_key (asked @ q @ [x]) = map name_key (asked @ q) @ [name_key x]" by simp
  then show ?thesis using a unfolding thread_ok_def by (simp only: distinct_append set_append) auto
qed

lemma take_reply_ok:
  "thread_ok asked q s \<Longrightarrow> take_reply known r (q, s, f) = (q', s', f') \<Longrightarrow>
     thread_ok asked q' s' \<and> s' = insert (name_key (reply_name r)) s"
  by (auto simp: take_reply_def Let_def thread_ok_push split: if_splits)

lemma take_replies_ok:
  "take_replies known rs queue queued fresh = (q, s, f) \<Longrightarrow> thread_ok asked queue queued \<Longrightarrow>
     thread_ok asked q s \<and> s = queued \<union> name_key ` set (names_of rs)"
proof (induction rs arbitrary: queue queued fresh)
  case (Cons r rs)
  obtain q0 s0 f0 where st: "take_reply known r (queue, queued, fresh) = (q0, s0, f0)" by (metis prod_cases3)
  have "take_replies known rs q0 s0 f0 = (q, s, f)" using Cons.prems(1) by (simp add: take_replies_def st)
  from Cons.IH [OF this] take_reply_ok [OF Cons.prems(2) st] show ?case by auto
qed (simp add: take_replies_def)

text \<open>What the walk guarantees of a finished run: how many it asked, that it asked
  nobody twice, and that it stopped early only with every reply asked for.\<close>

definition answered :: "network \<Rightarrow> string \<times> string \<Rightarrow> hive_comment list \<Rightarrow> bool" where
  "answered nt node rs = (nt_replies nt (strip_prefix ''hive:'' (fst node)) (snd node) = Inr (Some rs)
     \<or> nt_replies nt (strip_prefix ''hive:'' (fst node)) (snd node) = Inr None \<and> rs = [])"

definition closed_walk :: "network \<Rightarrow> (string \<times> string) list \<Rightarrow> string set \<Rightarrow> bool" where
  "closed_walk nt asked queued = (\<forall>node rs. node \<in> set asked \<longrightarrow> answered nt node rs \<longrightarrow> name_key ` set (names_of rs) \<subseteq> queued)"

lemma thread_walk_spec:
  assumes "thread_walk n nt known queue queued fresh asked = Inr (out, all)"
    and "thread_ok asked queue queued" "closed_walk nt asked queued"
  shows "length all \<le> length asked + n \<and> distinct (map name_key all) \<and> prefix asked all
    \<and> (length all < length asked + n \<longrightarrow> closed_walk nt all (set (map name_key all)) \<and> set (map name_key (asked @ queue)) \<subseteq> set (map name_key all))"
  using assms
proof (induction n nt known queue queued fresh asked rule: thread_walk.induct)
  case (1 nt known queue queued fresh asked)
  then show ?case by (auto simp: thread_ok_def)
next
  case (2 n nt known queued fresh asked)
  then show ?case by (auto simp: thread_ok_def)
next
  case (3 n nt known node queue queued fresh asked)
  obtain rows q s f where r: "nt_replies nt (strip_prefix ''hive:'' (fst node)) (snd node) = Inr rows"
    "take_replies known (nullish rows []) queue queued fresh = (q, s, f)"
    "thread_walk n nt known q s f (asked @ [node]) = Inr (out, all)"
    using 3(2) by (cases "nt_replies nt (strip_prefix ''hive:'' (fst node)) (snd node)") (auto split: prod.splits)
  have ok: "thread_ok (asked @ [node]) queue queued" using 3(3) by (simp add: thread_ok_def)
  note t = take_replies_ok [OF r(2) ok]
  have "closed_walk nt (asked @ [node]) s" unfolding closed_walk_def
  proof (intro allI impI)
    fix m rs assume m: "m \<in> set (asked @ [node])" "answered nt m rs"
    show "name_key ` set (names_of rs) \<subseteq> s"
    proof (cases "m \<in> set asked")
      case True
      then have "name_key ` set (names_of rs) \<subseteq> queued" using 3(4) m(2) unfolding closed_walk_def by blast
      then show ?thesis using t by blast
    next
      case False
      then have "rs = nullish rows []" using m r(1) by (cases rows) (auto simp: answered_def)
      then show ?thesis using t by auto
    qed
  qed
  note ih = 3(1) [OF r(2) [symmetric] refl r(3) conjunct1 [OF t] this]
  have "set (map name_key (asked @ node # queue)) \<subseteq> set (map name_key ((asked @ [node]) @ q))"
    using t 3(3) unfolding thread_ok_def by blast
  moreover have "length all \<le> length asked + Suc n" "prefix asked all" "distinct (map name_key all)"
    using ih by (auto intro: append_prefixD)
  ultimately show ?case using ih by (simp only: length_append list.size add_Suc_right add_0_right add_Suc) blast
qed

text \<open>C31. Walking the thread always ends: Hive is asked at most thirty times and
  nobody twice, and when it stopped before that limit it had asked about the post,
  every registered comment and every reply anybody it asked about had.\<close>

theorem thread_walk_bounded:
  assumes start: "distinct (map name_key (thread_start root registered))"
    and up: "\<And>a p. \<exists>rs. nt_replies nt a p = Inr rs"
  shows "\<exists>fresh asked. thread_replies nt root registered = Inr (fresh, asked)
    \<and> length asked \<le> 30 \<and> distinct (map name_key asked)
    \<and> (length asked = 30 \<or> closed_walk nt asked (set (map name_key asked))
         \<and> set (map name_key (thread_start root registered)) \<subseteq> set (map name_key asked))"
proof -
  have total: "\<exists>x. thread_walk n nt known queue queued fresh asked = Inr x" for n known queue queued fresh asked
  proof (induction n arbitrary: queue queued fresh asked)
    case (Suc n)
    show ?case
    proof (cases queue)
      case (Cons node rest)
      obtain rs where "nt_replies nt (strip_prefix ''hive:'' (fst node)) (snd node) = Inr rs" using up by blast
      then show ?thesis using Suc by (simp add: Cons split: prod.split)
    qed simp
  qed simp
  obtain fresh asked where r: "thread_replies nt root registered = Inr (fresh, asked)"
    using total unfolding thread_replies_def by (metis surj_pair)
  have "thread_ok [] (thread_start root registered) (set (map name_key (thread_start root registered)))"
    using start by (simp add: thread_ok_def)
  from thread_walk_spec [OF r [unfolded thread_replies_def] this] show ?thesis
    using r by (force simp: closed_walk_def MAX_FETCHES_def)
qed

section \<open>Voters\<close>

lemma sort_votes_ok:
  assumes "sort_votes vs = Inr ws"
  shows "set ws = set vs \<and> (distinct vs \<longrightarrow> distinct ws)
    \<and> sorted_wrt (\<lambda>a b. or_default 0 (big_int (pvt_rshares b)) \<le> or_default 0 (big_int (pvt_rshares a))) ws"
proof (cases "length vs < 2")
  case True
  then have "ws = vs" "vs = [] \<or> (\<exists>x. vs = [x])" using assms by (auto simp: sort_votes_def length_Suc_conv less_Suc_eq numeral_2_eq_2)
  then show ?thesis by auto
next
  case False
  then have ws: "ws = js_sort heavier vs" using assms by (auto simp: sort_votes_def rmap_Inr_iff)
  have "sorted_wrt (\<lambda>a b. or_default 0 (big_int (pvt_rshares b)) \<le> or_default 0 (big_int (pvt_rshares a))) ws"
    unfolding ws by (rule js_sort_sorted) (auto simp: heavier_def Let_def intro!: transpI split: if_splits)
  then show ?thesis by (simp add: ws)
qed

lemma vote_rows_simps: "vote_rows f [] = []"
  "vote_rows f (w # ws) = (case f w of None \<Rightarrow> vote_rows f ws | Some r \<Rightarrow> \<lparr>pvt_voter = w, pvt_rshares = r\<rparr> # vote_rows f ws)"
  by (simp_all add: vote_rows_def map_filter_simps split: option.split)

lemma vote_rows_in: "\<lparr>pvt_voter = w, pvt_rshares = r\<rparr> \<in> set (vote_rows f ws) \<longleftrightarrow> w \<in> set ws \<and> f w = Some r"
  by (induction ws) (auto simp: vote_rows_simps split: option.splits)

lemma vote_rows_pairs: "set (map (\<lambda>x. (pvt_voter x, pvt_rshares x)) (vote_rows f ws)) = {(w, r). w \<in> set ws \<and> f w = Some r}"
  by (induction ws) (auto simp: vote_rows_simps split: option.splits)

lemma vote_rows_distinct: "distinct ws \<Longrightarrow> distinct (map pvt_voter (vote_rows f ws))"
proof (induction ws)
  case (Cons w ws)
  have "pvt_voter ` set (vote_rows f ws) \<subseteq> set ws" by (induction ws) (auto simp: vote_rows_simps split: option.splits)
  then show ?case using Cons by (auto simp: vote_rows_simps split: option.split)
qed (simp add: vote_rows_simps)

lemma vote_rows_cong: "(\<And>w. w \<in> set ws \<Longrightarrow> f w = g w) \<Longrightarrow> vote_rows f ws = vote_rows g ws"
  by (induction ws) (auto simp: vote_rows_simps split: option.split)

text \<open>A post's voters are those the chain still holds a vote of: nobody twice,
  everybody who voted in the history read and has a record, with the weight of that
  record, heaviest first.\<close>

theorem postVotes_are_records:
  assumes s: "serves_rows nt db" and v: "postVotes nt author permlink = Inr vs"
    and h: "walk_pages 30 100 (\<lambda>off. tx_page nt off 100) 0 = Inr txs"
  shows "distinct (map pvt_voter vs)
    \<and> set (map (\<lambda>x. (pvt_voter x, pvt_rshares x)) vs) = {(w, r). w \<in> set (voters_of (author @ ''|'' @ permlink @ ''|'') txs)
         \<and> text_at db (''pv_'' @ author @ ''_'' @ permlink @ ''_'' @ w) = Some r}
    \<and> sorted_wrt (\<lambda>a b. or_default 0 (big_int (pvt_rshares b)) \<le> or_default 0 (big_int (pvt_rshares a))) vs"
proof -
  let ?voters = "voters_of (author @ ''|'' @ permlink @ ''|'') txs"
  let ?rows = "vote_rows (\<lambda>w. text_at db (vote_key author permlink w)) ?voters"
  have t: "turns 100 3000 = 30" by (simp add: turns_def)
  show ?thesis
  proof (cases "?voters = []")
    case True
    then show ?thesis using v h by (simp add: postVotes_def t Let_def)
  next
    case False
    have "vote_rows (\<lambda>w. text_at (db |` set (map (vote_key author permlink) ?voters)) (vote_key author permlink w)) ?voters = ?rows"
      by (rule vote_rows_cong) simp
    then have "sort_votes ?rows = Inr vs"
      using v h False by (simp add: postVotes_def t Let_def state_serves [OF s])
    note sorted = sort_votes_ok [OF this]
    have "distinct (map pvt_voter ?rows)" by (rule vote_rows_distinct) (simp add: voters_of_def)
    then have "distinct (map pvt_voter vs)" using sorted by (simp add: distinct_map)
    moreover have "set (map (\<lambda>x. (pvt_voter x, pvt_rshares x)) vs) = {(w, r). w \<in> set ?voters
        \<and> text_at db (vote_key author permlink w) = Some r}"
      using vote_rows_pairs [of "\<lambda>w. text_at db (vote_key author permlink w)" ?voters] sorted by simp
    ultimately show ?thesis using sorted unfolding vote_key_def by blast
  qed
qed

section \<open>A failed article is kept\<close>

text \<open>One failed fetch blanks an article for as long as the page lives: after a
  fetch that failed, the same article is never asked for again, and reads as no
  article from every later network.\<close>

theorem failed_article_is_kept:
  assumes "content_read nt author permlink = Inl e" and "map_of (fc_content cs) (author @ ''/'' @ permlink) = None"
  shows "fst (contentCached later author permlink (snd (contentCached nt author permlink cs))) = None"
  using assms by (simp add: contentCached_def Let_def)

section \<open>A small chain to try them on\<close>

definition example_call :: "string \<Rightarrow> string \<Rightarrow> string \<Rightarrow> chain_tx" where
  "example_call who act payload = \<lparr>cx_id = ''t'', cx_height = 6, cx_ts = ''2026-09-02T00:00:00'', cx_status = ''CONFIRMED'',
     cx_auths = [], cx_posting = [who], cx_outputs = [],
     cx_ops = [\<lparr>ro_type = ''call'', ro_action = Some act, ro_payload = Some payload, ro_contract = None, ro_from = None,
       ro_to = None, ro_amount = None, ro_asset = None\<rparr>]\<rparr>"

definition example_rows :: rows where
  "example_rows = [''post_h:al_p'' \<mapsto> ''0|5|3|0|0|0|1'', ''pv_h:al_p_h:bo'' \<mapsto> ''3'']"

definition example_chain :: network where
  "example_chain = (rows_node example_rows)\<lparr>nt_engine := Some still_bridge, nt_height := served 9,
     nt_txs := (\<lambda>off n. served (Some (page_at n [example_call ''h:bo'' ''vote'' ''h:al|p|1'', example_call ''h:al'' ''post'' ''p|0|0''] off)))\<rparr>"

lemma example_chain_serves: "serves_rows example_chain example_rows"
  by (simp add: serves_rows_def example_chain_def rows_node_def)

lemma example_feeds: "is_ok (fst (posts example_chain 5 fresh_caches))" "is_ok (fst (postsMeta example_chain 5 fresh_caches))"
  "is_ok (postVotes example_chain ''h:al'' ''p'')"
  by code_simp+

lemma feeds_agree_witness:
  "\<exists>vs ms. fst (posts example_chain 5 fresh_caches) = Inr vs \<and> fst (postsMeta example_chain 5 fresh_caches) = Inr ms
    \<and> map view_name (filter pv_registered vs) = map meta_name (filter pm_registered ms)"
proof -
  obtain vs cs ms ds where "posts example_chain 5 fresh_caches = (Inr vs, cs)" "postsMeta example_chain 5 fresh_caches = (Inr ms, ds)"
    using example_feeds(1,2) unfolding is_ok_iff by (metis prod.collapse)
  from feeds_agree [OF this] this show ?thesis by simp
qed

lemma thread_walk_bounded_witness:
  "\<exists>fresh asked. thread_replies example_chain (''h:al'', ''p'') [] = Inr (fresh, asked)
    \<and> length asked \<le> 30 \<and> distinct (map name_key asked)"
proof -
  have start: "distinct (map name_key (thread_start (''h:al'', ''p'') []))" by (simp add: thread_start_def)
  have up: "\<exists>rs. nt_replies example_chain a p = Inr rs" for a p by (simp add: example_chain_def rows_node_def)
  from thread_walk_bounded [OF start up] show ?thesis by blast
qed

lemma postVotes_are_records_witness:
  "\<exists>vs. postVotes example_chain ''h:al'' ''p'' = Inr vs \<and> distinct (map pvt_voter vs)"
proof -
  obtain vs where v: "postVotes example_chain ''h:al'' ''p'' = Inr vs" using example_feeds(3) by (auto simp: is_ok_iff)
  have "walk_pages 30 100 (\<lambda>off. tx_page example_chain off 100) 0 = Inr [example_call ''h:bo'' ''vote'' ''h:al|p|1'', example_call ''h:al'' ''post'' ''p|0|0'']"
    by (subst walk_pages_serves [where h = "[example_call ''h:bo'' ''vote'' ''h:al|p|1'', example_call ''h:al'' ''post'' ''p|0|0'']"])
      (simp_all add: tx_page_def example_chain_def)
  from postVotes_are_records [OF example_chain_serves v this] v show ?thesis by blast
qed

lemma failed_article_is_kept_witness:
  "fst (contentCached example_chain ''h:al'' ''p''
     (snd (contentCached ((rows_node Map.empty)\<lparr>nt_content := (\<lambda>_ _. throw ''down'')\<rparr>) ''h:al'' ''p'' fresh_caches))) = None"
  by (rule failed_article_is_kept [where e = "JsError ''down''"]) (simp_all add: content_read_def throw_def fresh_caches_def)

end
