(* ===== verification/Publishing.thy ===== *)
theory Publishing
  imports SignerSafety History
begin

text \<open>
  The backend's writes and previews (magi-backend.ts): publishing an article or a
  reply through whatever signer is attached, editing one, and the quotes.  The
  signer is the interface of backend.ts: a record of operations over the signer's
  own state, the optional ones an option, with the wallet signer as its instance.
\<close>

section \<open>The signer interface\<close>

type_synonym ('s, 'a) act = "('s, 'a result) state"

record 's signer_api =
  sg_account :: string
  sg_submit :: "string \<Rightarrow> string \<Rightarrow> submit_options \<Rightarrow> ('s, tx_result) act"
  sg_depositHbd :: "(string \<Rightarrow> string \<Rightarrow> ('s, tx_result) act) option"
  sg_withdrawHbd :: "(string \<Rightarrow> string option \<Rightarrow> string \<Rightarrow> ('s, tx_result) act) option"
  sg_withdrawBtc :: "(int \<Rightarrow> string \<Rightarrow> ('s, tx_result) act) option"
  sg_sendNative :: "(string \<Rightarrow> string \<Rightarrow> string \<Rightarrow> string \<Rightarrow> ('s, tx_result) act) option"
  sg_sendBtc :: "(string \<Rightarrow> int \<Rightarrow> ('s, tx_result) act) option"
  sg_magiSwap :: "(magi_swap_in \<Rightarrow> ('s, tx_result) act) option"
  sg_publishToHive :: "(article_input \<Rightarrow> ('s, unit) act) option"
  sg_publishCommentToHive :: "(reply_input \<Rightarrow> ('s, unit) act) option"
  sg_editOnHive :: "(article_input \<Rightarrow> string option \<Rightarrow> (string \<times> json) list option \<Rightarrow> ('s, unit) act) option"
  sg_publishAndRegister :: "(article_input \<Rightarrow> int \<Rightarrow> int \<Rightarrow> entry_call list \<Rightarrow> ('s, tx_result) act) option"
  sg_commentAndRegister :: "(reply_input \<Rightarrow> int \<Rightarrow> entry_call list \<Rightarrow> ('s, tx_result) act) option"
  sg_claimAllOf :: "(string \<Rightarrow> int list \<Rightarrow> ('s, tx_result) act) option"

text \<open>'AiohaSigner' has every operation.\<close>

definition aioha_signer :: "wallet_env \<Rightarrow> string \<Rightarrow> wallet_state signer_api" where
  "aioha_signer env acct = \<lparr>sg_account = acct, sg_submit = submit env acct,
     sg_depositHbd = Some (depositHbd env), sg_withdrawHbd = Some (withdrawHbd env),
     sg_withdrawBtc = Some (withdrawBtc env), sg_sendNative = Some (sendNative env), sg_sendBtc = Some (sendBtc env),
     sg_magiSwap = Some (signerMagiSwap env), sg_publishToHive = Some (publishToHive env),
     sg_publishCommentToHive = Some (publishCommentToHive env), sg_editOnHive = Some (editOnHive env),
     sg_publishAndRegister = Some (publishAndRegister env acct), sg_commentAndRegister = Some (commentAndRegister env acct),
     sg_claimAllOf = Some (claimAllOf env acct)\<rparr>"

section \<open>Publishing\<close>

definition published :: "string \<Rightarrow> tx_result \<Rightarrow> publish_result" where
  "published permlink r = \<lparr>pr_ok = tr_ok r, pr_msg = tr_msg r, pr_height = tr_height r, pr_permlink = permlink, pr_txId = tr_txId r\<rparr>"

definition not_published :: "string \<Rightarrow> publish_result" where
  "not_published msg = \<lparr>pr_ok = False, pr_msg = msg, pr_height = 0, pr_permlink = [], pr_txId = None\<rparr>"

text \<open>Run the second step only when the first did not throw.\<close>

definition and_then :: "('s, 'a) act \<Rightarrow> ('a \<Rightarrow> ('s, 'b) act) \<Rightarrow> ('s, 'b) act" where
  "and_then m f = do { r \<leftarrow> m; case r of Inl e \<Rightarrow> State_Monad.return (Inl e) | Inr x \<Rightarrow> f x }"

definition done_as :: "string \<Rightarrow> ('s, tx_result) act \<Rightarrow> ('s, publish_result) act" where
  "done_as permlink m = and_then m (\<lambda>r. State_Monad.return (Inr (published permlink r)))"

record publish_input =
  pi_title :: string
  pi_body :: string
  pi_summary :: string
  pi_tags :: "string list"
  pi_window :: int
  pi_payoutMode :: int
  pi_permlink :: "string option"
  pi_sideCalls :: "entry_call list"

definition publish_permlink :: "publish_input \<Rightarrow> string" where
  "publish_permlink i = (let own = permlinkFor (nullish (pi_permlink i) []) in
     if own \<noteq> [] then own else permlinkFor (pi_title i))"

definition publish_article :: "publish_input \<Rightarrow> article_input" where
  "publish_article i = \<lparr>ai_permlink = publish_permlink i, ai_title = pi_title i, ai_body = pi_body i, ai_tags = pi_tags i,
     ai_summary = Some (pi_summary i), ai_image = firstImage (pi_body i)\<rparr>"

definition publish :: "'s signer_api option \<Rightarrow> publish_input \<Rightarrow> ('s, publish_result) act" where
  "publish signer i = (case Option.bind signer sg_publishToHive of
     None \<Rightarrow> State_Monad.return (throw ''publishing needs a wallet that can write to Hive'')
   | Some toHive \<Rightarrow>
     (let permlink = publish_permlink i; article = publish_article i in
      if permlink = [] then State_Monad.return (Inr (not_published ''title must contain letters or numbers''))
      else case sg_publishAndRegister (the signer) of
        Some both \<Rightarrow> done_as permlink (both article (pi_window i) (pi_payoutMode i) (pi_sideCalls i))
      | None \<Rightarrow> and_then (toHive article) (\<lambda>_. done_as permlink (sg_submit (the signer) ''post''
          (permlink @ ''|'' @ show_int (pi_window i) @ ''|'' @ show_int (pi_payoutMode i)) no_options))))"

record edit_input =
  ei_permlink :: string
  ei_title :: string
  ei_body :: string
  ei_summary :: string
  ei_tags :: "string list"
  ei_category :: "string option"
  ei_metadata :: "(string \<times> json) list option"

definition edit_article :: "edit_input \<Rightarrow> article_input" where
  "edit_article i = \<lparr>ai_permlink = ei_permlink i, ai_title = ei_title i, ai_body = ei_body i, ai_tags = ei_tags i,
     ai_summary = Some (ei_summary i), ai_image = firstImage (ei_body i)\<rparr>"

definition editPost :: "'s signer_api option \<Rightarrow> edit_input \<Rightarrow> ('s, publish_result) act" where
  "editPost signer i = (case Option.bind signer sg_editOnHive of
     None \<Rightarrow> State_Monad.return (throw ''editing needs a wallet that can write to Hive'')
   | Some edit \<Rightarrow>
     if ei_permlink i = [] then State_Monad.return (Inr (not_published ''no post to edit''))
     else and_then (edit (edit_article i) (non_empty (ei_category i)) (ei_metadata i))
       (\<lambda>_. State_Monad.return (Inr \<lparr>pr_ok = True, pr_msg = ''updated'', pr_height = 0, pr_permlink = ei_permlink i, pr_txId = None\<rparr>)))"

record comment_input =
  ci_permlink :: string
  ci_body :: string
  ci_parentAuthor :: string
  ci_parentPermlink :: string
  ci_payoutMode :: int
  ci_sideCalls :: "entry_call list"

definition comment_reply :: "comment_input \<Rightarrow> reply_input" where
  "comment_reply i = \<lparr>ri_permlink = ci_permlink i, ri_body = ci_body i,
     ri_parentAuthor = strip_prefix ''@'' (ci_parentAuthor i), ri_parentPermlink = ci_parentPermlink i\<rparr>"

definition publishComment :: "'s signer_api option \<Rightarrow> comment_input \<Rightarrow> ('s, publish_result) act" where
  "publishComment signer i = (case Option.bind signer sg_publishCommentToHive of
     None \<Rightarrow> State_Monad.return (throw ''commenting needs a wallet that can write to Hive'')
   | Some toHive \<Rightarrow> (case sg_commentAndRegister (the signer) of
       Some both \<Rightarrow> done_as (ci_permlink i) (both (comment_reply i) (ci_payoutMode i) (ci_sideCalls i))
     | None \<Rightarrow> and_then (toHive (comment_reply i)) (\<lambda>_.
         let parent = strip_prefix ''@'' (ci_parentAuthor i);
             qual = (if starts_with ''hive:'' parent then parent else ''hive:'' @ parent)
         in done_as (ci_permlink i) (sg_submit (the signer) ''comment''
              (ci_permlink i @ ''|'' @ qual @ ''|'' @ ci_parentPermlink i @ ''|'' @ show_int (ci_payoutMode i)) no_options))))"

section \<open>Quotes\<close>

definition quoteSwap :: "network \<Rightarrow> swap_direction \<Rightarrow> string \<Rightarrow> swap_quote result" where
  "quoteSwap nt direction amountUnits = rbind (state nt [''amm_lc'', ''amm_hbd'']) (\<lambda>st. let
       lcRes = nullish (st ''amm_lc'') ''0''; hbdRes = nullish (st ''amm_hbd'') ''0'';
       rin = (if direction = HbdLc then hbdRes else lcRes); rout = (if direction = HbdLc then lcRes else hbdRes)
     in rbind (estimateSwap (nt_engine nt) rin rout amountUnits) (\<lambda>est.
        rbind (units (Some amountUnits)) (\<lambda>ain. rbind (units (Some rin)) (\<lambda>ri. rmap (\<lambda>ro.
          \<lparr>sq_amount_in = ain, sq_amount_out = se_amountOut est, sq_rate = se_rate est,
            sq_price_impact_pct = se_priceImpactPct est, sq_reserve_in = ri, sq_reserve_out = ro, sq_ok = se_ok est,
            sq_msg = (if se_ok est then [] else ''swap not possible at this size'')\<rparr>) (units (Some rout))))))"

text \<open>'Number(c.heightsPerDay)' is a number in every engine; the parameters asked
  for are in the answer.\<close>

definition quoteMint :: "network \<Rightarrow> string \<Rightarrow> int \<Rightarrow> mint_quote result" where
  "quoteMint nt amountUnits days = rbind (constants (nt_engine nt)) (\<lambda>c.
     rbind (state nt [''cfg_genesis'']) (\<lambda>st. rbind (height nt) (\<lambda>h.
     rbind (governed nt [ec_paramVolumeStart c, ec_paramVolumeEnd c]) (\<lambda>gov.
     rbind (shareRate (nt_engine nt) (num (st ''cfg_genesis'')) h) (\<lambda>rate.
     rbind (toUnits rate) (\<lambda>rateUnits.
     rbind (mintQuote (nt_engine nt) amountUnits days (show_int rateUnits)
              (nullish (map_of gov (ec_paramVolumeStart c)) []) (nullish (map_of gov (ec_paramVolumeEnd c)) [])) (\<lambda>q.
     let maturity = num2 (+) (Some h) (num2 (*) (Some days) (number_of (ec_heightsPerDay c))) in
     rbind (units (Some amountUnits)) (\<lambda>pr.
     rmap (\<lambda>time. \<lparr>mq_principal = pr, mq_days = days, mq_shares = me_shares q, mq_share_rate = rate,
       mq_duration_multiplier = me_durationMultiplier q, mq_volume_multiplier = me_volumeMultiplier q,
       mq_combined_multiplier = me_combinedMultiplier q, mq_maturity_height = nullish maturity 0, mq_maturity_time = time,
       mq_ok = me_ok q, mq_msg = (if me_ok q then [] else ''mint not valid: check amount and duration (1..1095 days)'')\<rparr>)
       (iso_of (num2 (\<lambda>m d. nt_now nt + (m - h) * d) maturity (Some 3000)))))))))))"

definition pool_share_pct :: "engine \<Rightarrow> liquidity_estimate \<Rightarrow> string \<Rightarrow> string result" where
  "pool_share_pct e est totalShares = (if \<not> le_ok est then Inr ''0.00000000''
     else rbind (toUnits (le_shares est)) (\<lambda>newShares. rbind (big_int (or_zero (Some totalShares))) (\<lambda>old.
       if old + newShares > 0 then rbind (constants e) (\<lambda>c. rbind (big_int (ec_unit c)) (\<lambda>u.
            estimateRewardShare e (show_int (100 * u)) (show_int newShares) (show_int (old + newShares))))
       else Inr ''0.00000000'')))"

definition quoteLiquidity :: "network \<Rightarrow> string \<Rightarrow> liquidity_quote result" where
  "quoteLiquidity nt amountUnits = rbind (state nt [''amm_lc'', ''amm_hbd'', ''amm_shares'']) (\<lambda>st. let
       totalShares = nullish (st ''amm_shares'') ''0''
     in rbind (estimateLiquidity (nt_engine nt) amountUnits (nullish (st ''amm_lc'') ''0'') (nullish (st ''amm_hbd'') ''0'') totalShares) (\<lambda>est.
        rbind (pool_share_pct (nt_engine nt) est totalShares) (\<lambda>pct.
        rmap (\<lambda>ain. \<lparr>lq_lc_in = ain, lq_hbd_needed = le_hbdNeeded est, lq_shares = le_shares est, lq_pool_share_pct = pct,
          lq_is_first_deposit = le_isFirstDeposit est, lq_ok = le_ok est,
          lq_msg = (if le_ok est then [] else ''liquidity deposit not valid: check amount and pool reserves'')\<rparr>)
          (units (Some amountUnits)))))"

section \<open>What each write asks of the wallet\<close>

lemma run_and_then:
  "run_state (and_then m f) s = (case run_state m s of (Inl e, t) \<Rightarrow> (Inl e, t) | (Inr x, t) \<Rightarrow> run_state (f x) t)"
  by (simp add: and_then_def split: prod.split sum.split)

lemma run_done_as:
  "run_state (done_as p m) s = (case run_state m s of (r, t) \<Rightarrow> (rmap (published p) r, t))"
  by (simp add: done_as_def run_and_then rmap_def split: prod.split sum.split)

lemma asked_done_as [simp]: "asked_by (done_as p m) s = asked_by m s"
  by (simp add: asked_by_def run_done_as split: prod.split)

lemma silent_sizedSideCalls [quiet]: "silent (sizedSideCalls env acct cs)"
  unfolding sizedSideCalls_def by (intro quiet)

lemma sizedSideCalls_subseq:
  assumes "run_state (sizedSideCalls env acct cs) s = (extra, t)"
  shows "subseq (map call_pair extra) (map entry_pair cs) \<and> length extra \<le> MaxSideCalls"
proof -
  let ?n = "min MaxSideCalls (HiveCustomJsonPerBlock - 1)"
  obtain zs u where zs: "run_state (sizeAll env acct (take ?n cs)) s = (zs, u)" by (metis surj_pair)
  have "extra = affordable zs" using assms zs by (simp add: sizedSideCalls_def)
  moreover have f: "map fst zs = take ?n cs" using sizeAll_fst [OF zs] .
  moreover have "subseq (map entry_pair (take ?n cs)) (map entry_pair cs)"
    by (metis subseq_map prefix_imp_subseq take_is_prefix)
  ultimately have "subseq (map call_pair extra) (map entry_pair cs)"
    using subseq_affordable [of zs] by (metis map_map subseq_order.trans)
  moreover have "length extra \<le> MaxSideCalls"
    using length_affordable(1) [of zs] arg_cong [OF f, of length] \<open>extra = affordable zs\<close> by (simp add: min_def split: if_splits)
  ultimately show ?thesis by simp
qed

text \<open>Publishing through the wallet asks for nothing, or for one transaction of the
  Hive write, the registration and some of the side calls.\<close>

definition one_press :: "hive_op \<Rightarrow> string \<times> string \<Rightarrow> entry_call list \<Rightarrow> wallet_request list \<Rightarrow> bool" where
  "one_press h call sides qs = (qs = [] \<or> (\<exists>ops side. qs = [SignAndBroadcast (h # ops) PostingKey]
     \<and> sent_calls (SignAndBroadcast (h # ops) PostingKey) = call # side
     \<and> subseq side (map entry_pair sides) \<and> length side \<le> MaxSideCalls
     \<and> custom_jsons (SignAndBroadcast (h # ops) PostingKey) \<le> HiveCustomJsonPerBlock))"

lemma register_one_press:
  assumes h: "op_call h = None" "\<not> is_custom_json h"
  shows "one_press h (e, payload) sides (asked_by (register_with env acct e payload (Inr h) sides) s)"
proof -
  obtain z t where z: "run_state (sizeRc env acct e payload [] (table_limit env e)) s = (z, t)" by (metis surj_pair)
  show ?thesis
  proof (cases z)
    case (Refusal r)
    then show ?thesis by (simp add: register_with_def asked_silent [OF silent_sizeRc] z one_press_def)
  next
    case (Limit rc)
    obtain extra u where x: "run_state (sizedSideCalls env acct sides) t = (extra, u)" by (metis surj_pair)
    note sub = sizedSideCalls_subseq [OF x]
    show ?thesis
    proof (cases "mapR (\<lambda>c. vscOp env c (en_contract env) PostingKey) (plain_call e payload rc # extra)")
      case (Inl err)
      then show ?thesis
        by (simp add: register_with_def asked_silent [OF silent_sizeRc] asked_silent [OF silent_sizedSideCalls]
            z Limit x asked_broadcastWithCall one_press_def)
    next
      case (Inr ops)
      note o = ops_of_calls [OF Inr]
      have "asked_by (register_with env acct e payload (Inr h) sides) s = [SignAndBroadcast (h # ops) PostingKey]"
        using Inr by (simp add: register_with_def asked_silent [OF silent_sizeRc] asked_silent [OF silent_sizedSideCalls]
            z Limit x asked_broadcastWithCall)
      then show ?thesis
        using o h sub by (auto simp: one_press_def map_filter_simps plain_call_def MaxSideCalls_def HiveCustomJsonPerBlock_def)
    qed
  qed
qed

lemma comment_op [simp]: "op_call (HiveComment a b c d e f g) = None" "\<not> is_custom_json (HiveComment a b c d e f g)"
  by (simp_all add: op_call_def is_custom_json_def)

lemma no_press [simp]: "one_press h c sides []" by (simp add: one_press_def)

lemma asked_register_error:
  "asked_by (register_with env acct e payload (Inl err) sides) s = []"
  by (simp add: register_with_def asked_silent [OF silent_sizeRc] split: prod.split sized.split)

lemma publish_permlink_plain: "CHR ''|'' \<notin> set (publish_permlink i)"
proof -
  have "CHR ''|'' \<notin> set (permlinkFor t)" for t
    using permlinkFor_ok [of t] slug_chars [of True "permlinkFor t" "CHR ''|''"]
    by (auto simp: slug_ok_def alnum_lower_def is_digit_def)
  then show ?thesis by (simp add: publish_permlink_def Let_def)
qed

lemma show_int_plain [simp]: "CHR ''|'' \<notin> set (show_int j)"
proof -
  have "CHR ''|'' \<notin> set (show_nat n)" for n
    using show_nat_digits [of n] by (auto simp: list_all_iff is_digit_def)
  then show ?thesis by (simp add: show_int_def)
qed

lemma asked_publish:
  assumes "publish_permlink i \<noteq> []"
  shows "asked_by (publish (Some (aioha_signer env acct)) i) s
    = asked_by (publishAndRegister env acct (publish_article i) (pi_window i) (pi_payoutMode i) (pi_sideCalls i)) s"
  using assms by (simp add: publish_def aioha_signer_def Let_def)

text \<open>C4. Publishing through a wallet signs at most one transaction under the
  posting key, and in it the article and its registration agree: the Hive comment's
  permlink is the first field of the contract's payload, which reads back as exactly
  the permlink, the window and the payout mode, whatever was typed as a title; what
  else rides along is some of the settlements offered, at most two.\<close>

theorem publish_one_transaction:
  assumes user: "en_user env = Some user"
  shows "\<exists>meta. one_press
      (HiveComment [] ''lassecash'' user (publish_permlink i) (pi_title i) (pi_body i) meta)
      (''post'', js_join ''|'' [publish_permlink i, show_int (pi_window i), show_int (pi_payoutMode i)]) (pi_sideCalls i)
      (asked_by (publish (Some (aioha_signer env acct)) i) s)
    \<and> split_on (CHR ''|'') (js_join ''|'' [publish_permlink i, show_int (pi_window i), show_int (pi_payoutMode i)])
      = [publish_permlink i, show_int (pi_window i), show_int (pi_payoutMode i)]"
proof (intro exI conjI)
  let ?p = "publish_permlink i"
  let ?f = "[?p, show_int (pi_window i), show_int (pi_payoutMode i)]"
  show "one_press (HiveComment [] ''lassecash'' user ?p (pi_title i) (pi_body i) (NewMeta (postMetadata (article_fields env user (publish_article i)))))
      (''post'', js_join ''|'' ?f) (pi_sideCalls i) (asked_by (publish (Some (aioha_signer env acct)) i) s)"
  proof (cases "?p = []")
    case True
    then show ?thesis by (simp add: publish_def aioha_signer_def Let_def)
  next
    case False
    have "asked_by (publish (Some (aioha_signer env acct)) i) s
        = asked_by (register_with env acct ''post'' (js_join ''|'' ?f) (Inr (HiveComment [] ''lassecash'' user ?p (pi_title i) (pi_body i)
            (NewMeta (postMetadata (article_fields env user (publish_article i)))))) (pi_sideCalls i)) s"
      using user False by (simp add: asked_publish publishAndRegister_def articleOp_def publish_article_def)
    then show ?thesis by (simp only: register_one_press [OF comment_op])
  qed
  show "split_on (CHR ''|'') (js_join ''|'' ?f) = ?f"
    by (rule split_on_join) (auto simp: publish_permlink_plain)
qed

lemma asked_then_return: "asked_by (and_then m (\<lambda>x. State_Monad.return (f x))) s = asked_by m s"
  by (simp add: asked_by_def run_and_then split: prod.split sum.split)

lemma asked_writeArticle:
  "asked_by (writeArticle env i category base) s = (case en_user env of None \<Rightarrow> []
     | Some author \<Rightarrow> [WriteComment None (case category of None \<Rightarrow> ''lassecash'' | Some c \<Rightarrow> if c = [] then ''lassecash'' else c)
         (ai_permlink i) (ai_title i) (ai_body i)
         (case base of None \<Rightarrow> NewMeta (postMetadata (article_fields env author i))
          | Some b \<Rightarrow> EditedMeta (editMetadata (Some b) (article_fields env author i)))])"
  by (simp add: writeArticle_def asked_by_def ask_def Let_def split: option.split)

text \<open>An edit never touches the money: whatever the wallet is, editing a post
  asks it for Hive comments only, under the post's own permlink, and no contract
  call and no other operation is ever signed.\<close>

theorem edit_only_writes_hive:
  "list_all (\<lambda>q. sent_calls q = [] \<and> custom_jsons q = 0
     \<and> (\<exists>parent meta. q = WriteComment None parent (ei_permlink i) (ei_title i) (ei_body i) meta
         \<and> parent = (case non_empty (ei_category i) of None \<Rightarrow> ''lassecash'' | Some c \<Rightarrow> c)))
   (asked_by (editPost (Some (aioha_signer env acct)) i) s)"
proof -
  have "(case non_empty (ei_category i) of None \<Rightarrow> ''lassecash'' | Some c \<Rightarrow> if c = [] then ''lassecash'' else c)
      = (case non_empty (ei_category i) of None \<Rightarrow> ''lassecash'' | Some c \<Rightarrow> c)"
    by (simp add: non_empty_def split: option.split)
  then show ?thesis
    by (auto simp: editPost_def aioha_signer_def editOnHive_def asked_then_return asked_writeArticle edit_article_def
        split: option.splits if_splits)
qed

section \<open>Without the combined write: Hive first\<close>

text \<open>What the fallback needs of a signer: a Hive write that succeeds is written,
  and submitting a call loses no article.\<close>

locale article_writer =
  fixes articles :: "'s \<Rightarrow> string set"
    and post :: "article_input \<Rightarrow> ('s, unit) act"
    and send :: "string \<Rightarrow> string \<Rightarrow> submit_options \<Rightarrow> ('s, tx_result) act"
  assumes post_stays: "run_state (post i) s = (Inr (), t) \<Longrightarrow> ai_permlink i \<in> articles t"
    and send_keeps: "run_state (send e a opts) s = (r, t) \<Longrightarrow> articles s \<subseteq> articles t"
begin

lemma registered_has_article:
  assumes sg: "sg_publishToHive sg = Some post" "sg_publishAndRegister sg = None" "sg_submit sg = send"
    and run: "run_state (publish (Some sg) i) s = (Inr r, t)" "pr_permlink r \<noteq> []"
  shows "pr_permlink r \<in> articles t"
proof -
  let ?p = "publish_permlink i"
  have p: "?p \<noteq> []" using run by (auto simp: publish_def sg not_published_def)
  obtain w u where w: "run_state (post (publish_article i)) s = (w, u)" by (metis surj_pair)
  have "w = Inr ()" using run p w by (cases w) (simp_all add: publish_def sg run_and_then Let_def)
  then have p': "?p \<in> articles u" using post_stays w by (fastforce simp: publish_article_def)
  define args where "args = ?p @ ''|'' @ show_int (pi_window i) @ ''|'' @ show_int (pi_payoutMode i)"
  have "run_state (publish (Some sg) i) s = run_state (done_as ?p (send ''post'' args no_options)) u"
    using p w \<open>w = Inr ()\<close> by (simp add: publish_def sg run_and_then Let_def args_def)
  then obtain y where y: "run_state (send ''post'' args no_options) u = (y, t)" and r: "pr_permlink r = ?p"
    using run by (auto simp: run_done_as published_def rmap_Inr_iff dest!: sym [of "Inr r"] split: prod.splits)
  show ?thesis unfolding r using subsetD [OF send_keeps [OF y] p'] .
qed

end

text \<open>The wallet's articles: the comments it was asked to write and did.\<close>

definition hive_articles :: "wallet_env \<Rightarrow> wallet_state \<Rightarrow> string set" where
  "hive_articles env s = {p. \<exists>n < length (ws_asked s). \<exists>parent ti bo me.
     ws_asked s ! n = WriteComment None parent p ti bo me \<and> wr_success (en_reply env n (ws_asked s ! n))}"

definition grows :: "'a wallet \<Rightarrow> bool" where
  "grows m = (\<forall>s. prefix (ws_asked s) (ws_asked (snd (run_state m s))))"

lemma grows_silent: "silent m \<Longrightarrow> grows m" by (simp add: silent_def grows_def)

lemma grows_return: "grows (State_Monad.return x)" by (simp add: grows_def)

lemma grows_bind: "grows m \<Longrightarrow> (\<And>x. grows (f x)) \<Longrightarrow> grows (State_Monad.bind m f)"
  unfolding grows_def by (auto simp: case_prod_beta intro: prefix_order.trans)

lemma grows_send: "grows (send_lone env e a rc is)" "grows (broadcastCalls env cs k key ops)"
  by (simp_all add: grows_def send_lone_def forgetRc_def ask_def broadcastCalls_def run_broadcast split: sum.split)

lemma grows_submit_sized: "grows (submit_sized env acct e a is al pre z side)"
  unfolding submit_sized_def Let_def by (cases z) (simp_all add: grows_return grows_bind grows_send)

lemma grows_submit: "grows (submit env acct e a opts)"
proof (cases "draw_intents e a")
  case (Inr intents)
  then show ?thesis unfolding submit_def
    by (simp only: sum.case Let_def)
      (intro grows_bind grows_silent [OF silent_allowanceCall] grows_silent [OF silent_sizeAll] grows_silent [OF silent_sizeRc] grows_submit_sized)
qed (simp add: submit_def grows_return)

lemma articles_prefix: "prefix (ws_asked s) (ws_asked t) \<Longrightarrow> hive_articles env s \<subseteq> hive_articles env t"
proof
  fix p assume "prefix (ws_asked s) (ws_asked t)" "p \<in> hive_articles env s"
  then obtain n xs where n: "n < length (ws_asked s)" "ws_asked t = ws_asked s @ xs"
    "\<exists>parent ti bo me. ws_asked s ! n = WriteComment None parent p ti bo me" "wr_success (en_reply env n (ws_asked s ! n))"
    unfolding hive_articles_def prefix_def by auto
  then have "ws_asked t ! n = ws_asked s ! n" "n < length (ws_asked t)" by (simp_all add: nth_append)
  then show "p \<in> hive_articles env t" using n(3,4) unfolding hive_articles_def by (intro CollectI exI [of _ n]) simp
qed

interpretation wallet_writer: article_writer "hive_articles env" "publishToHive env" "submit env acct" for env acct
proof
  show "ai_permlink i \<in> hive_articles env t" if wrote: "run_state (publishToHive env i) s = (Inr (), t)" for i s t
  proof -
    obtain user where u: "en_user env = Some user"
      using wrote by (cases "en_user env") (auto simp: publishToHive_def writeArticle_def throw_def)
    obtain q where q: "q = WriteComment None ''lassecash'' (ai_permlink i) (ai_title i) (ai_body i)
        (NewMeta (postMetadata (article_fields env user i)))" by simp
    have "ws_asked t = ws_asked s @ [q]" "wr_success (en_reply env (length (ws_asked s)) q)"
      using wrote u q by (auto simp: publishToHive_def writeArticle_def ask_def written_def throw_def Let_def split: if_splits)
    then show ?thesis unfolding hive_articles_def by (auto simp: q intro!: exI [of _ "length (ws_asked s)"])
  qed
  show "hive_articles env s \<subseteq> hive_articles env t" if "run_state (submit env acct e a opts) s = (r, t)" for e a opts s r t
    using grows_submit [of env acct e a opts] that unfolding grows_def by (intro articles_prefix) (metis snd_conv)
qed

text \<open>A payout window never opens over nothing: with a wallet that cannot sign
  both at once, whenever publishing names the permlink it used, the article with
  that permlink was written to Hive by the time the contract was called.\<close>

theorem article_before_registration:
  assumes run: "run_state (publish (Some ((aioha_signer env acct)\<lparr>sg_publishAndRegister := None\<rparr>)) i) s = (Inr r, t)"
    and named: "pr_permlink r \<noteq> []"
  shows "\<exists>n < length (ws_asked t). \<exists>parent ti bo me.
    ws_asked t ! n = WriteComment None parent (pr_permlink r) ti bo me \<and> wr_success (en_reply env n (ws_asked t ! n))"
proof -
  have "pr_permlink r \<in> hive_articles env t"
    by (rule wallet_writer.registered_has_article [OF _ _ _ run named]) (simp_all add: aioha_signer_def)
  then show ?thesis by (simp add: hive_articles_def)
qed

section \<open>A post to try them on\<close>

definition example_post :: publish_input where
  "example_post = \<lparr>pi_title = ''Hi'', pi_body = ''b'', pi_summary = [], pi_tags = [''x''], pi_window = 0, pi_payoutMode = 1,
     pi_permlink = None, pi_sideCalls = []\<rparr>"

lemma example_permlink: "publish_permlink example_post = ''hi''"
  by code_simp

lemma example_numbers: "pi_window example_post = 0" "pi_payoutMode example_post = 1"
  by (simp_all add: example_post_def)

lemma publish_one_transaction_witness:
  "\<exists>meta. one_press (HiveComment [] ''lassecash'' ''alice'' ''hi'' ''Hi'' ''b'' meta)
     (''post'', js_join ''|'' [''hi'', show_int 0, show_int 1]) []
     (asked_by (publish (Some (aioha_signer sample_env ''alice'')) example_post) fresh_wallet)"
proof -
  have "en_user sample_env = Some ''alice''" by (simp add: sample_env_def)
  from publish_one_transaction [OF this, of example_post "''alice''" fresh_wallet] show ?thesis
    unfolding example_permlink by (auto simp: example_post_def)
qed

lemma calls_made: "en_user env = Some user \<Longrightarrow> \<exists>ops. mapR (\<lambda>c. vscOp env c (k c) key) cs = Inr ops"
  by (induction cs) (auto simp: vscOp_def)

lemma broadcastCalls_answers:
  assumes "en_user env = Some user"
  shows "is_ok (fst (run_state (broadcastCalls env cs k key ops) s))"
  using calls_made [OF assms, of "\<lambda>c. nullish (cl_contract c) k" key cs]
  by (auto simp: broadcastCalls_def run_broadcast is_ok_iff)

lemma submit_answers:
  assumes "en_user env = Some user" and "draw_intents e a = Inr intents"
  shows "is_ok (fst (run_state (submit env acct e a opts) s))"
proof -
  have "is_ok (fst (run_state (submit_sized env acct e a intents al pre z side) u))" for al pre z side u
    using broadcastCalls_answers [OF assms(1)]
    by (cases z) (auto simp: submit_sized_def Let_def is_ok_iff rmap_Inr_iff send_lone_def ask_def forgetRc_def case_prod_beta)
  then show ?thesis using assms(2) by (simp add: submit_def Let_def case_prod_beta)
qed

lemma article_before_registration_witness:
  "\<exists>r t. run_state (publish (Some ((aioha_signer sample_env ''alice'')\<lparr>sg_publishAndRegister := None\<rparr>)) example_post) fresh_wallet
     = (Inr r, t) \<and> (\<exists>n < length (ws_asked t). \<exists>parent ti bo me. ws_asked t ! n = WriteComment None parent (pr_permlink r) ti bo me)"
proof -
  let ?sg = "(aioha_signer sample_env ''alice'')\<lparr>sg_publishAndRegister := None\<rparr>"
  have u: "en_user sample_env = Some ''alice''" by (simp add: sample_env_def)
  obtain s1 where w: "run_state (publishToHive sample_env (publish_article example_post)) fresh_wallet = (Inr (), s1)"
    by (simp add: publishToHive_def writeArticle_def u ask_def written_def Let_def sample_env_def)
  have "draw_intents ''post'' a = Inr []" for a by (simp add: draw_intents_def HBD_DRAW_OPS_def)
  from submit_answers [OF u this] obtain x s2 where
    "run_state (submit sample_env ''alice'' ''post'' (''hi|'' @ show_int 0 @ ''|'' @ show_int 1) no_options) s1 = (Inr x, s2)"
    by (metis is_ok_iff prod.collapse)
  then have "run_state (publish (Some ?sg) example_post) fresh_wallet = (Inr (published ''hi'' x), s2)"
    using w by (simp add: publish_def aioha_signer_def example_permlink example_numbers Let_def run_and_then run_done_as)
  from this article_before_registration [OF this] show ?thesis by (auto simp: published_def)
qed

end
