(* ===== verification/PoolReplay.thy ===== *)
theory PoolReplay
  imports ChainReads "HOL-Library.AList"
begin

text \<open>
  'LasseCashClient.poolTrades' (client.ts): the pool's history played through the
  engine, call by call, into the series of trades the chart draws, and the check
  that it ends at the pool's live reserves.
\<close>

section \<open>The state of a replay\<close>

record pool_replay =
  ry_lc :: int
  ry_hbd :: int
  ry_shares :: int
  ry_tranches :: "(string \<times> int) list"
  ry_next :: "(string \<times> nat) list"
  ry_trades :: "pool_trade list"

definition empty_pool :: pool_replay where
  "empty_pool = \<lparr>ry_lc = 0, ry_hbd = 0, ry_shares = 0, ry_tranches = [], ry_next = [], ry_trades = []\<rparr>"

text \<open>One LASSECASH and one L-Share in HBD at these reserves; an engine that throws
  leaves no figure.\<close>

definition price_now :: "engine \<Rightarrow> int \<Rightarrow> int \<Rightarrow> string" where
  "price_now e lc hbd = (if lc \<le> 0 \<or> hbd \<le> 0 then ''0.00000000''
     else nullish (or_default None (rbind (toUnits ''1'') (\<lambda>one. lcToHbd e (show_int one) (show_int lc) (show_int hbd)))) ''0.00000000'')"

definition share_cost_now :: "engine \<Rightarrow> int option \<Rightarrow> int \<Rightarrow> int \<Rightarrow> int \<Rightarrow> string option" where
  "share_cost_now e genesis h lc hbd = (if lc \<le> 0 \<or> hbd \<le> 0 \<or> h = 0 then None
     else or_default None (shareRateHbd e genesis h (show_int lc) (show_int hbd)))"

definition tranche_key :: "string \<Rightarrow> string \<Rightarrow> string" where
  "tranche_key signer i = signer @ ''_'' @ i"

text \<open>The trade a step leaves behind, at the reserves after it.\<close>

definition trade_at :: "engine \<Rightarrow> int option \<Rightarrow> pool_op \<Rightarrow> trade_side \<Rightarrow> string \<Rightarrow> string \<Rightarrow> int \<Rightarrow> int \<Rightarrow> pool_trade" where
  "trade_at e genesis p side ain aout lc hbd = \<lparr>pt_time = po_time p, pt_height = po_height p,
     pt_shareHbd = share_cost_now e genesis (po_height p) lc hbd, pt_side = side, pt_amountIn = ain, pt_amountOut = aout,
     pt_lcReserve = fromUnits lc, pt_hbdReserve = fromUnits hbd, pt_price = price_now e lc hbd, pt_trader = po_signer p\<rparr>"

definition first_arg :: "pool_op \<Rightarrow> nat \<Rightarrow> string option" where
  "first_arg p i = field (split_on (CHR ''|'') (po_payload p)) i"

section \<open>One call\<close>

definition replay_deposit :: "engine \<Rightarrow> int option \<Rightarrow> pool_op \<Rightarrow> pool_replay \<Rightarrow> pool_replay result" where
  "replay_deposit e genesis p r =
     rbind (big_int (or_zero (first_arg p 0))) (\<lambda>raw. rbind (toUnits (fromUnits raw)) (\<lambda>dLc.
     rbind (estimateLiquidity e (show_int dLc) (show_int (ry_lc r)) (show_int (ry_hbd r)) (show_int (ry_shares r))) (\<lambda>q.
     rbind (if le_isFirstDeposit q then rbind (big_int (or_zero (first_arg p 1))) (\<lambda>h. toUnits (fromUnits h)) else toUnits (le_hbdNeeded q)) (\<lambda>dHbd.
     rmap (\<lambda>minted. let lc = ry_lc r + dLc; hbd = ry_hbd r + dHbd; n = nullish (map_of (ry_next r) (po_signer p)) 0 + 1 in
       \<lparr>ry_lc = lc, ry_hbd = hbd, ry_shares = ry_shares r + minted,
         ry_tranches = AList.update (tranche_key (po_signer p) (show_nat n)) minted (ry_tranches r),
         ry_next = AList.update (po_signer p) n (ry_next r),
         ry_trades = ry_trades r @ [trade_at e genesis p (if le_isFirstDeposit q then SOpen else SDeposit)
           (fromUnits dLc) (fromUnits dHbd) lc hbd]\<rparr>)
       (if le_isFirstDeposit q then Inr dLc else toUnits (le_shares q))))))"

text \<open>A tranche never seen opened is skipped.\<close>

definition replay_withdraw :: "engine \<Rightarrow> int option \<Rightarrow> pool_op \<Rightarrow> pool_replay \<Rightarrow> pool_replay result" where
  "replay_withdraw e genesis p r = (let key = tranche_key (po_signer p) (js_trim (nullish (first_arg p 0) []));
       held = nullish (map_of (ry_tranches r) key) 0
     in if held \<le> 0 then Inr r else
       rbind (estimateWithdraw e (show_int held) (show_int (ry_shares r)) (show_int (ry_lc r)) (show_int (ry_hbd r))) (\<lambda>(ok, wLc, wHbd).
       rbind (toUnits wLc) (\<lambda>outLc. rmap (\<lambda>outHbd. let lc = ry_lc r - outLc; hbd = ry_hbd r - outHbd in
         \<lparr>ry_lc = lc, ry_hbd = hbd, ry_shares = ry_shares r - held, ry_tranches = AList.delete key (ry_tranches r),
           ry_next = ry_next r, ry_trades = ry_trades r @ [trade_at e genesis p SWithdraw (fromUnits outLc) (fromUnits outHbd) lc hbd]\<rparr>)
         (toUnits wHbd))))"

definition replay_swap :: "engine \<Rightarrow> int option \<Rightarrow> pool_op \<Rightarrow> pool_replay \<Rightarrow> pool_replay result" where
  "replay_swap e genesis p r = (let selling = (canonicalAction (po_action p) = ''swap_lassecash_hbd'') in
     rbind (big_int (or_zero (first_arg p 0))) (\<lambda>amountIn.
       if amountIn \<le> 0 \<or> ry_lc r \<le> 0 \<or> ry_hbd r \<le> 0 then Inr r else
       rbind (estimateSwap e (show_int (if selling then ry_lc r else ry_hbd r)) (show_int (if selling then ry_hbd r else ry_lc r))
                (show_int amountIn)) (\<lambda>q.
         if \<not> se_ok q then Inr r else rmap (\<lambda>outUnits. let
             lc = (if selling then ry_lc r + amountIn else ry_lc r - outUnits);
             hbd = (if selling then ry_hbd r - outUnits else ry_hbd r + amountIn)
           in r\<lparr>ry_lc := lc, ry_hbd := hbd,
               ry_trades := ry_trades r @ [trade_at e genesis p (if selling then SSell else SBuy) (fromUnits amountIn) (se_amountOut q) lc hbd]\<rparr>)
           (toUnits (se_amountOut q)))))"

definition replay_op :: "engine \<Rightarrow> int option \<Rightarrow> pool_op \<Rightarrow> pool_replay \<Rightarrow> pool_replay result" where
  "replay_op e genesis p r = (if po_action p = ''add_liquidity'' then replay_deposit e genesis p r
     else if po_action p = ''remove_liquidity'' then replay_withdraw e genesis p r
     else replay_swap e genesis p r)"

fun replay_ops :: "engine \<Rightarrow> int option \<Rightarrow> pool_op list \<Rightarrow> pool_replay \<Rightarrow> pool_replay result" where
  "replay_ops e genesis [] r = Inr r"
| "replay_ops e genesis (p # ps) r = rbind (replay_op e genesis p r) (replay_ops e genesis ps)"

text \<open>Whether the replay landed on the live reserves.\<close>

definition reconciled :: "pool_replay \<Rightarrow> string \<Rightarrow> string \<Rightarrow> bool result" where
  "reconciled r liveLc liveHbd = (if ry_trades r = [] then Inr False
     else rbind (toUnits liveLc) (\<lambda>l. if ry_lc r \<noteq> l then Inr False
       else rmap (\<lambda>h. ry_hbd r = h) (toUnits liveHbd)))"

definition replay_trades :: "engine \<Rightarrow> pool_op list \<Rightarrow> chain_info \<Rightarrow> (pool_trade list \<times> bool) result" where
  "replay_trades e ops info = rbind (replay_ops e (ci_genesis_height info) ops empty_pool) (\<lambda>r.
     rmap (\<lambda>ok. (ry_trades r, ok)) (reconciled r (ci_amm_lc info) (ci_amm_hbd info)))"

section \<open>Tranches\<close>

lemma tranche_key_inject:
  "tranche_key a (show_nat m) = tranche_key b (show_nat n) \<longleftrightarrow> a = b \<and> m = n"
proof
  have t: "takeWhile (\<lambda>c. c \<noteq> CHR ''_'') (rev (tranche_key a (show_nat m))) = rev (show_nat m)" for a m
  proof -
    have "CHR ''_'' \<notin> set (show_nat m)" using show_nat_digits [of m] by (auto simp: list_all_iff is_digit_def)
    then show ?thesis unfolding tranche_key_def rev_append by (simp, subst takeWhile_append2) auto
  qed
  assume e: "tranche_key a (show_nat m) = tranche_key b (show_nat n)"
  then have "rev (show_nat m) = rev (show_nat n)" using t by metis
  then show "a = b \<and> m = n" using e by (simp add: tranche_key_def)
qed simp

text \<open>Every tranche of the replay was opened by its owner under a number already
  given out, and no two share a key.\<close>

definition tranches_ok :: "pool_replay \<Rightarrow> bool" where
  "tranches_ok r = (distinct (map fst (ry_tranches r))
     \<and> (\<forall>k \<in> set (map fst (ry_tranches r)). \<exists>who n. k = tranche_key who (show_nat n) \<and> n \<le> nullish (map_of (ry_next r) who) 0)
     \<and> ry_shares r = sum_list (map snd (ry_tranches r)))"

lemma sum_delete:
  assumes "distinct (map fst kvs)" "map_of kvs k = Some (v::int)"
  shows "sum_list (map snd (AList.delete k kvs)) = sum_list (map snd kvs) - v"
  using assms
proof (induction kvs)
  case (Cons e kvs)
  have "k \<notin> fst ` set kvs \<Longrightarrow> AList.delete k kvs = kvs" for kvs :: "('a \<times> int) list"
    by (induction kvs) auto
  then show ?case using Cons by (cases e) auto
qed simp

lemma update_fresh: "k \<notin> fst ` set kvs \<Longrightarrow> AList.update k v kvs = kvs @ [(k, v)]"
  by (induction kvs) auto

lemma deposit_tranches:
  assumes "tranches_ok r" "replay_deposit e g p r = Inr r'"
  shows "tranches_ok r'"
proof -
  let ?n = "nullish (map_of (ry_next r) (po_signer p)) 0 + 1"
  let ?k = "tranche_key (po_signer p) (show_nat ?n)"
  obtain minted where r: "ry_tranches r' = AList.update ?k minted (ry_tranches r)"
      "ry_next r' = AList.update (po_signer p) ?n (ry_next r)" "ry_shares r' = ry_shares r + minted"
    using assms(2) by (auto simp: replay_deposit_def rbind_Inr_iff rmap_Inr_iff Let_def)
  have "?k \<notin> set (map fst (ry_tranches r))"
  proof
    assume "?k \<in> set (map fst (ry_tranches r))"
    with assms(1) obtain who m where "?k = tranche_key who (show_nat m)" "m \<le> nullish (map_of (ry_next r) who) 0"
      unfolding tranches_ok_def by blast
    then show False using tranche_key_inject by fastforce
  qed
  then have u: "ry_tranches r' = ry_tranches r @ [(?k, minted)]" by (simp add: r update_fresh)
  have "\<exists>who n. k = tranche_key who (show_nat n) \<and> n \<le> nullish (map_of (ry_next r') who) 0"
    if "k \<in> set (map fst (ry_tranches r'))" for k
  proof (cases "k = ?k")
    case True
    then show ?thesis by (intro exI [of _ "po_signer p"] exI [of _ ?n]) (simp add: r update_conv')
  next
    case False
    then have "k \<in> set (map fst (ry_tranches r))" using that u by auto
    then obtain who n where "k = tranche_key who (show_nat n)" "n \<le> nullish (map_of (ry_next r) who) 0"
      using assms(1) unfolding tranches_ok_def by blast
    then show ?thesis by (intro exI [of _ who] exI [of _ n]) (auto simp: r update_conv')
  qed
  then show ?thesis using assms(1) u r \<open>?k \<notin> _\<close> by (simp add: tranches_ok_def)
qed

lemma withdraw_tranches:
  assumes "tranches_ok r" "replay_withdraw e g p r = Inr r'"
  shows "tranches_ok r'"
proof -
  let ?k = "tranche_key (po_signer p) (js_trim (nullish (first_arg p 0) []))"
  show ?thesis
  proof (cases "nullish (map_of (ry_tranches r) ?k) 0 \<le> 0")
    case False
    then obtain held where h: "map_of (ry_tranches r) ?k = Some held" by (cases "map_of (ry_tranches r) ?k") auto
    have r: "ry_tranches r' = AList.delete ?k (ry_tranches r)" "ry_next r' = ry_next r" "ry_shares r' = ry_shares r - held"
      using assms(2) False by (auto simp: replay_withdraw_def h rbind_Inr_iff rmap_Inr_iff Let_def)
    have "set (map fst (ry_tranches r')) \<subseteq> set (map fst (ry_tranches r))" by (auto simp: r delete_keys)
    moreover have "distinct (map fst (ry_tranches r'))" using assms(1) by (simp add: r tranches_ok_def distinct_delete)
    moreover have "ry_shares r' = sum_list (map snd (ry_tranches r'))"
      using assms(1) sum_delete [OF _ h] by (simp add: r tranches_ok_def)
    ultimately show ?thesis using assms(1) unfolding tranches_ok_def r(2) by blast
  qed (use assms in \<open>simp add: replay_withdraw_def Let_def\<close>)
qed

lemma swap_tranches:
  "replay_swap e g p r = Inr r' \<Longrightarrow> ry_tranches r' = ry_tranches r \<and> ry_next r' = ry_next r \<and> ry_shares r' = ry_shares r"
  by (auto simp: replay_swap_def rbind_Inr_iff rmap_Inr_iff Let_def split: if_splits)

lemma op_tranches:
  assumes "tranches_ok r" "replay_op e g p r = Inr r'"
  shows "tranches_ok r'"
proof -
  consider "replay_deposit e g p r = Inr r'" | "replay_withdraw e g p r = Inr r'" | "replay_swap e g p r = Inr r'"
    using assms(2) by (auto simp: replay_op_def split: if_splits)
  then show ?thesis
  proof cases
    case 3
    from swap_tranches [OF this] show ?thesis using assms(1) by (simp add: tranches_ok_def)
  qed (use assms(1) deposit_tranches withdraw_tranches in blast)+
qed

text \<open>The replay's pool shares are always those of the tranches it holds open:
  after any history the total is the sum over the tranches, each under its owner's
  name and a number given out once, and none under two keys.\<close>

theorem replay_shares_conserved:
  assumes "replay_ops e g ops empty_pool = Inr r"
  shows "ry_shares r = sum_list (map snd (ry_tranches r)) \<and> distinct (map fst (ry_tranches r))
    \<and> (\<forall>k \<in> set (map fst (ry_tranches r)). \<exists>who n. k = tranche_key who (show_nat n) \<and> n \<le> nullish (map_of (ry_next r) who) 0)"
proof -
  have "tranches_ok r'" if "replay_ops e g ops r0 = Inr r'" "tranches_ok r0" for r0 r'
    using that
  proof (induction ops arbitrary: r0)
    case (Cons p ps)
    then obtain r1 where r1: "replay_op e g p r0 = Inr r1" "replay_ops e g ps r1 = Inr r'" by (auto simp: rbind_Inr_iff)
    have "tranches_ok r1" using r1(1) by (rule op_tranches [OF Cons.prems(2)])
    then show ?case using Cons.IH r1(2) by blast
  qed simp
  then show ?thesis using assms by (auto simp: tranches_ok_def empty_pool_def)
qed

section \<open>Reserves\<close>

text \<open>What a trade moved, read from the figures the chart shows.\<close>

definition figure :: "string \<Rightarrow> int" where
  "figure s = or_default 0 (toUnits s)"

definition trade_lc :: "pool_trade \<Rightarrow> int" where
  "trade_lc t = (case pt_side t of SWithdraw \<Rightarrow> - figure (pt_amountIn t) | SBuy \<Rightarrow> - figure (pt_amountOut t)
     | _ \<Rightarrow> figure (pt_amountIn t))"

definition trade_hbd :: "pool_trade \<Rightarrow> int" where
  "trade_hbd t = (case pt_side t of SBuy \<Rightarrow> figure (pt_amountIn t) | SOpen \<Rightarrow> figure (pt_amountOut t)
     | SDeposit \<Rightarrow> figure (pt_amountOut t) | _ \<Rightarrow> - figure (pt_amountOut t))"

definition points_ok :: "pool_trade list \<Rightarrow> bool" where
  "points_ok ts = (\<forall>k < length ts. toUnits (pt_lcReserve (ts ! k)) = Inr (sum_list (map trade_lc (take (Suc k) ts)))
     \<and> toUnits (pt_hbdReserve (ts ! k)) = Inr (sum_list (map trade_hbd (take (Suc k) ts))))"

definition reserves_ok :: "pool_replay \<Rightarrow> bool" where
  "reserves_ok r = (points_ok (ry_trades r) \<and> ry_lc r = sum_list (map trade_lc (ry_trades r))
     \<and> ry_hbd r = sum_list (map trade_hbd (ry_trades r)))"

definition moved :: "pool_replay \<Rightarrow> pool_trade \<Rightarrow> pool_replay \<Rightarrow> bool" where
  "moved r t r' = (ry_trades r' = ry_trades r @ [t] \<and> ry_lc r' = ry_lc r + trade_lc t \<and> ry_hbd r' = ry_hbd r + trade_hbd t
     \<and> pt_lcReserve t = fromUnits (ry_lc r') \<and> pt_hbdReserve t = fromUnits (ry_hbd r'))"

lemma figure_units [simp]: "figure (fromUnits u) = u"
  by (simp add: figure_def toUnits_render or_default_def)

lemma figure_read: "toUnits s = Inr u \<Longrightarrow> figure s = u"
  by (simp add: figure_def or_default_def)

lemmas moved_defs = moved_def trade_at_def trade_lc_def trade_hbd_def

lemma deposit_moves: "replay_deposit e g p r = Inr r' \<Longrightarrow> \<exists>t. moved r t r'"
  by (auto simp: replay_deposit_def rbind_Inr_iff rmap_Inr_iff Let_def moved_defs toUnits_render)

lemma withdraw_moves: "replay_withdraw e g p r = Inr r' \<Longrightarrow> r' = r \<or> (\<exists>t. moved r t r')"
  by (auto simp: replay_withdraw_def rbind_Inr_iff rmap_Inr_iff Let_def moved_defs split: if_splits)

lemma swap_moves: "replay_swap e g p r = Inr r' \<Longrightarrow> r' = r \<or> (\<exists>t. moved r t r')"
  by (auto simp: replay_swap_def rbind_Inr_iff rmap_Inr_iff Let_def moved_defs figure_read split: if_splits)

lemma op_moves: "replay_op e g p r = Inr r' \<Longrightarrow> r' = r \<or> (\<exists>t. moved r t r')"
  using deposit_moves withdraw_moves swap_moves unfolding replay_op_def by (metis (full_types))

lemma points_snoc:
  "points_ok (ts @ [t]) \<longleftrightarrow> points_ok ts \<and> toUnits (pt_lcReserve t) = Inr (sum_list (map trade_lc (ts @ [t])))
    \<and> toUnits (pt_hbdReserve t) = Inr (sum_list (map trade_hbd (ts @ [t])))"
  by (auto simp: points_ok_def nth_append less_Suc_eq take_Suc_conv_app_nth)

lemma moved_reserves: "moved r t r' \<Longrightarrow> reserves_ok r \<Longrightarrow> reserves_ok r'"
  by (simp add: moved_def reserves_ok_def points_snoc toUnits_render)

lemma replay_reserves: "replay_ops e g ops r = Inr r' \<Longrightarrow> reserves_ok r \<Longrightarrow> reserves_ok r'"
proof (induction ops arbitrary: r)
  case (Cons p ps)
  then obtain r1 where r1: "replay_op e g p r = Inr r1" "replay_ops e g ps r1 = Inr r'" by (auto simp: rbind_Inr_iff)
  have "reserves_ok r1" using op_moves [OF r1(1)] moved_reserves Cons.prems(2) by blast
  then show ?case using Cons.IH r1(2) by blast
qed simp

text \<open>C16. A chart that says it is reconciled ends where the pool is: every point's
  reserves are the sum of what the trades up to it moved, and the sum of all of them
  is the live LASSECASH and HBD reserve, to the base unit.\<close>

theorem reconciled_ends_live:
  assumes "replay_trades e ops info = Inr (ts, True)"
  shows "ts \<noteq> [] \<and> points_ok ts
    \<and> toUnits (ci_amm_lc info) = Inr (sum_list (map trade_lc ts))
    \<and> toUnits (ci_amm_hbd info) = Inr (sum_list (map trade_hbd ts))"
proof -
  obtain r where r: "replay_ops e (ci_genesis_height info) ops empty_pool = Inr r" "ts = ry_trades r"
    "reconciled r (ci_amm_lc info) (ci_amm_hbd info) = Inr True"
    using assms by (auto simp: replay_trades_def rbind_Inr_iff rmap_Inr_iff)
  have "reserves_ok empty_pool" by (simp add: reserves_ok_def empty_pool_def points_ok_def)
  from replay_reserves [OF r(1) this] have "reserves_ok r" .
  then show ?thesis using r(2,3)
    by (auto simp: reserves_ok_def reconciled_def rbind_Inr_iff rmap_Inr_iff split: if_splits)
qed

section \<open>A pool to try it on\<close>

text \<open>An engine that takes what it is offered and pays a tenth of what comes in.\<close>

definition tenth_bridge :: bridge where
  "tenth_bridge = still_bridge\<lparr>
     b_liquidityQuote := (\<lambda>_ _ _ s. \<lparr>rl_ok = True, rl_isFirstDeposit = (s = ''0''), rl_hbdNeeded = ''2'', rl_shares = ''3''\<rparr>),
     b_swapOut := (\<lambda>_ _ _. \<lparr>rs_ok = True, rs_amountOut = ''1'', rs_rate = None, rs_priceImpactPct = None\<rparr>),
     b_withdrawQuote := (\<lambda>_ _ _ _. \<lparr>rw_ok = True, rw_lc = ''4'', rw_hbd = ''2''\<rparr>)\<rparr>"

definition example_pool_op :: "string \<Rightarrow> string \<Rightarrow> string \<Rightarrow> pool_op" where
  "example_pool_op who act payload = \<lparr>po_time = [], po_height = 5, po_action = act, po_payload = payload, po_signer = who\<rparr>"

definition example_pool_ops :: "pool_op list" where
  "example_pool_ops = [example_pool_op ''h:al'' ''add_liquidity'' ''9|8'', example_pool_op ''h:bo'' ''add_liquidity'' ''3|5'',
     example_pool_op ''h:bo'' ''swap_lc_hbd'' ''2|0'', example_pool_op ''h:bo'' ''remove_liquidity'' ''1'',
     example_pool_op ''h:bo'' ''remove_liquidity'' ''1'']"

lemma example_replay:
  "case replay_ops (Some tenth_bridge) (Some 1) example_pool_ops empty_pool of Inl _ \<Rightarrow> False
   | Inr r \<Rightarrow> length (ry_trades r) = 4 \<and> ry_lc r = 10 \<and> ry_hbd r = 7 \<and> ry_shares r = 9"
  by code_simp

lemma replay_shares_conserved_witness:
  "\<exists>r. replay_ops (Some tenth_bridge) (Some 1) example_pool_ops empty_pool = Inr r
    \<and> ry_shares r = sum_list (map snd (ry_tranches r))"
proof -
  obtain r where r: "replay_ops (Some tenth_bridge) (Some 1) example_pool_ops empty_pool = Inr r"
    using example_replay by (auto split: sum.splits)
  from replay_shares_conserved [OF this] r show ?thesis by blast
qed

definition example_info :: chain_info where
  "example_info = \<lparr>ci_height = 0, ci_timestamp = ''0'', ci_epoch = 0, ci_genesis_height = Some 1, ci_token_contract = ''0'',
     ci_settled_height = None, ci_migrated_supply = ''0'', ci_snapshot_total = ''0'', ci_snapshot_burned = ''0'',
     ci_total_emitted = ''0'', ci_total_burned = ''0'', ci_total_shares = ''0'', ci_pool_lshare = ''0'',
     ci_pool_viral = ''0'', ci_pool_deep = ''0'', ci_rsh_viral = ''0'', ci_rsh_deep = ''0'', ci_pool_liquidity =
     ''0'', ci_amm_lc = ''0.00000010'', ci_amm_hbd = ''0.00000007'', ci_amm_shares = ''0'', ci_amm_weight = ''0'',
     ci_consensus_group = []\<rparr>"

lemma example_reconciles:
  "case replay_trades (Some tenth_bridge) example_pool_ops example_info of Inl _ \<Rightarrow> False | Inr (ts, ok) \<Rightarrow> ok"
  by code_simp

lemma reconciled_ends_live_witness:
  "\<exists>ts. replay_trades (Some tenth_bridge) example_pool_ops example_info = Inr (ts, True) \<and> points_ok ts"
proof -
  obtain ts where "replay_trades (Some tenth_bridge) example_pool_ops example_info = Inr (ts, True)"
    using example_reconciles by (auto split: sum.splits)
  from this reconciled_ends_live [OF this] show ?thesis by blast
qed

end
