(* ===== verification/Client.thy ===== *)
theory Client
  imports Publishing PoolReplay Feed Complex_Main
begin

text \<open>
  'LasseCashClient' (client.ts): what the pages call.  A backend is the record of
  its answers, the optional ones an option; the signer is the interface of
  Publishing.  The client's own state is its catch-up memo and its list of payable
  posts, beside the state of the signer.
\<close>

section \<open>The two interfaces\<close>

record backend =
  bk_state :: "string list \<Rightarrow> rows result"
  bk_height :: "int result option"
  bk_chain :: "chain_info result"
  bk_account :: "string \<Rightarrow> account_view result"
  bk_poolOps :: "nat \<Rightarrow> pool_op list result"
  bk_posts :: "nat \<Rightarrow> post_view list result"
  bk_quoteSwap :: "swap_direction \<Rightarrow> string \<Rightarrow> swap_quote result"
  bk_quoteMint :: "string \<Rightarrow> int \<Rightarrow> mint_quote result"
  bk_quoteLiquidity :: "string \<Rightarrow> liquidity_quote result"
  bk_payoutLedger :: "((string \<times> payout_entry) list result) option"
  bk_liquidBalance :: "(string \<Rightarrow> string result) option"
  bk_activity :: "(nat \<Rightarrow> account_activity list result) option"
  bk_accountCalls :: "(string \<Rightarrow> string list \<Rightarrow> account_call list result) option"
  bk_accountOps :: "(string \<Rightarrow> nat \<Rightarrow> account_op list result) option"
  bk_resourceCredits :: "(string \<Rightarrow> resource_credits option result) option"
  bk_hiveBalances :: "(string \<Rightarrow> (string \<times> string) option) option"
  bk_magiPoolReserves :: "(string \<Rightarrow> (int \<times> int) option) option"
  bk_mappedBalance :: "(string \<Rightarrow> string \<Rightarrow> int option) option"

text \<open>'MagiBackend', with the memo and the caches it holds.\<close>

definition magi_backend :: "network \<Rightarrow> ledger_memo \<Rightarrow> feed_caches \<Rightarrow> backend" where
  "magi_backend nt memo cs = \<lparr>bk_state = state nt, bk_height = Some (height nt), bk_chain = chain nt, bk_account = account nt,
     bk_poolOps = poolOps nt, bk_posts = (\<lambda>n. fst (posts nt n cs)), bk_quoteSwap = quoteSwap nt, bk_quoteMint = quoteMint nt,
     bk_quoteLiquidity = quoteLiquidity nt, bk_payoutLedger = Some (fst (payoutLedger nt 500 memo)),
     bk_liquidBalance = Some (liquidBalance nt), bk_activity = Some (activity nt), bk_accountCalls = Some (accountCalls nt),
     bk_accountOps = Some (accountOps nt), bk_resourceCredits = Some (resourceCredits nt),
     bk_hiveBalances = Some (hiveBalances nt), bk_magiPoolReserves = Some (magiPoolReserves nt),
     bk_mappedBalance = Some (mappedBalance nt)\<rparr>"

record 's client_env =
  ce_backend :: backend
  ce_engine :: engine
  ce_signer :: "'s signer_api option"
  ce_now :: int

record 's client_state =
  cs_catchUp :: "(int \<times> nat \<times> entry_call list) option"
  cs_payable :: "(string \<times> string \<times> string) list"
  cs_signer :: 's

definition fresh_client :: "'s \<Rightarrow> 's client_state" where
  "fresh_client s = \<lparr>cs_catchUp = None, cs_payable = [], cs_signer = s\<rparr>"

type_synonym ('s, 'a) client = "('s client_state, 'a) act"

definition args :: "string list \<Rightarrow> string" where
  "args parts = js_join ''|'' parts"

definition POOL_HISTORY_LIMIT :: nat where "POOL_HISTORY_LIMIT = 5000"

text \<open>A step of the signer, and an answer that may have thrown.\<close>

definition by_signer :: "('s, 'a) act \<Rightarrow> ('s, 'a) client" where
  "by_signer m = do {
     s \<leftarrow> State_Monad.get;
     (case run_state m (cs_signer s) of (r, w) \<Rightarrow> do { _ \<leftarrow> State_Monad.set (s\<lparr>cs_signer := w\<rparr>); State_Monad.return r })
   }"

definition given :: "'a result \<Rightarrow> ('a \<Rightarrow> ('s, 'b) client) \<Rightarrow> ('s, 'b) client" where
  "given r f = (case r of Inl e \<Rightarrow> State_Monad.return (Inl e) | Inr x \<Rightarrow> f x)"

definition with_signer :: "'s client_env \<Rightarrow> ('s signer_api \<Rightarrow> ('s, 'a) client) \<Rightarrow> ('s, 'a) client" where
  "with_signer env f = (case ce_signer env of None \<Rightarrow> State_Monad.return (throw ''not signed in'') | Some sg \<Rightarrow> f sg)"

section \<open>Reads\<close>

definition client_account :: "'s client_env \<Rightarrow> string option" where
  "client_account env = map_option sg_account (ce_signer env)"

definition position_actions :: "string list" where
  "position_actions = [''mint'', ''claim_mint'', ''claim_migration'', ''add_liquidity'', ''remove_liquidity'', ''claim_pool'']"

definition positionCalls :: "backend \<Rightarrow> string \<Rightarrow> account_call list result" where
  "positionCalls bk acct = (case bk_accountCalls bk of None \<Rightarrow> Inr [] | Some f \<Rightarrow> f acct position_actions)"

definition client_activity :: "backend \<Rightarrow> nat \<Rightarrow> account_activity list result" where
  "client_activity bk limit = (case bk_activity bk of None \<Rightarrow> Inr [] | Some f \<Rightarrow> f limit)"

definition client_liquidBalance :: "backend \<Rightarrow> string \<Rightarrow> string result" where
  "client_liquidBalance bk acct = (case bk_liquidBalance bk of Some f \<Rightarrow> f acct
     | None \<Rightarrow> let k = ''bal_'' @ full_name acct in rmap (\<lambda>st. or_zero (st k)) (bk_state bk [k]))"

definition migrationRoot :: "backend \<Rightarrow> string option result" where
  "migrationRoot bk = rmap (\<lambda>st. text_at st ''cfg_migroot'') (bk_state bk [''cfg_migroot''])"

definition receipt_of :: "string \<Rightarrow> migration_record result" where
  "receipt_of raw = (let f = split_on (CHR ''|'') raw in
     if length f = 3 \<and> f ! 0 = ''burned'' then
       rbind (amount_of (or_zero (field f 1))) (\<lambda>l. rmap (\<lambda>k. \<lparr>mr_burned = True, mr_liquid = l, mr_staked = k\<rparr>)
         (amount_of (or_zero (field f 2))))
     else if length f = 2 then
       rbind (amount_of (or_zero (field f 0))) (\<lambda>l. rmap (\<lambda>k. \<lparr>mr_burned = False, mr_liquid = l, mr_staked = k\<rparr>)
         (amount_of (or_zero (field f 1))))
     else Inr \<lparr>mr_burned = False, mr_liquid = ''0.00000000'', mr_staked = ''0.00000000''\<rparr>)"

definition migrationRecord :: "backend \<Rightarrow> string \<Rightarrow> migration_record option result" where
  "migrationRecord bk acct = (let key = ''mig_'' @ acct in rbind (bk_state bk [key]) (\<lambda>st.
     case text_at st key of None \<Rightarrow> Inr None | Some raw \<Rightarrow> rmap Some (receipt_of raw)))"

definition openMints :: "backend \<Rightarrow> string \<Rightarrow> mint_view list result" where
  "openMints bk name = rmap (\<lambda>a. filter (\<lambda>m. \<not> mv_ended m) (av_mints a)) (bk_account bk name)"

definition mintsNeedingAttention :: "backend \<Rightarrow> string \<Rightarrow> mint_view list result" where
  "mintsNeedingAttention bk name = rmap (filter (\<lambda>m. mv_mature m \<or> mv_bleed_remaining_pct m \<noteq> ''1.00000000'')) (openMints bk name)"

definition openTranches :: "backend \<Rightarrow> string \<Rightarrow> tranche_view list result" where
  "openTranches bk name = rmap (\<lambda>a. filter (\<lambda>t. \<not> tv_closed t) (av_tranches a)) (bk_account bk name)"

text \<open>What a post paid its author: the amount, the transaction and the height.\<close>

definition postPayout :: "backend \<Rightarrow> string \<Rightarrow> string \<Rightarrow> (string \<times> string \<times> int) option result" where
  "postPayout bk author permlink = (case bk_payoutLedger bk of None \<Rightarrow> Inr None
   | Some ledger \<Rightarrow> (let key = (if starts_with ''hive:'' author then author else ''hive:'' @ author) @ ''|'' @ permlink in
       rbind ledger (\<lambda>l. case map_of l key of None \<Rightarrow> Inr None
         | Some hit \<Rightarrow> rmap (\<lambda>u. Some (fromUnits u, py_txId hit, py_height hit)) (big_int (py_units hit)))))"

definition poolTrades :: "'s client_env \<Rightarrow> nat \<Rightarrow> (pool_trade list \<times> bool) result" where
  "poolTrades env limit = rbind (bk_poolOps (ce_backend env) limit) (\<lambda>ops.
     rbind (bk_chain (ce_backend env)) (replay_trades (ce_engine env) ops))"

definition client_quoteSwap :: "backend \<Rightarrow> swap_direction \<Rightarrow> string \<Rightarrow> swap_quote result" where
  "client_quoteSwap bk d amount = rbind (toBaseUnitArg amount) (bk_quoteSwap bk d)"

definition client_quoteMint :: "backend \<Rightarrow> string \<Rightarrow> int \<Rightarrow> mint_quote result" where
  "client_quoteMint bk amount days = rbind (toBaseUnitArg amount) (\<lambda>u. bk_quoteMint bk u days)"

definition client_quoteLiquidity :: "backend \<Rightarrow> string \<Rightarrow> liquidity_quote result" where
  "client_quoteLiquidity bk amount = rbind (toBaseUnitArg amount) (bk_quoteLiquidity bk)"

section \<open>Sending a call\<close>

definition send :: "'s client_env \<Rightarrow> string \<Rightarrow> string \<Rightarrow> submit_options \<Rightarrow> ('s, tx_result) client" where
  "send env entrypoint payload opts = do {
     s \<leftarrow> State_Monad.get;
     _ \<leftarrow> State_Monad.set (s\<lparr>cs_catchUp := None\<rparr>);
     with_signer env (\<lambda>sg. by_signer (sg_submit sg entrypoint payload opts))
   }"

definition call_plain :: "'s client_env \<Rightarrow> string \<Rightarrow> string list \<Rightarrow> ('s, tx_result) client" where
  "call_plain env entrypoint parts = send env entrypoint (args parts) no_options"

section \<open>Catching up with accrual\<close>

definition CATCHUP_TTL_MS :: int where "CATCHUP_TTL_MS = 5000"

definition advance_call :: entry_call where
  "advance_call = \<lparr>ec_entrypoint = ''advance'', ec_args = []\<rparr>"

definition head_height :: "backend \<Rightarrow> int result" where
  "head_height bk = (case bk_height bk of Some (Inr h) \<Rightarrow> Inr h | _ \<Rightarrow> rmap ci_height (bk_chain bk))"

text \<open>'Math.min(max, Math.max(1, Math.ceil(entries / perWalk) + 1))' slices; none
  when a figure is not a number.\<close>

definition advance_count :: "nat \<Rightarrow> int option \<Rightarrow> int \<Rightarrow> nat" where
  "advance_count mx entries per = (case entries of None \<Rightarrow> 0
     | Some n \<Rightarrow> if per = 0 then (if n = 0 then 0 else if n > 0 then mx else min mx 1)
         else min mx (nat (max 1 (ceil_div n per + 1))))"

text \<open>The days between the accrual walk and today, 64 at most.\<close>

definition lagging_days :: "int option \<Rightarrow> int \<Rightarrow> int list" where
  "lagging_days accDay today = (case accDay of None \<Rightarrow> [] | Some a \<Rightarrow> take 64 [a..today])"

definition expiry_key :: "int \<Rightarrow> string" where
  "expiry_key d = ''explc_'' @ show_int d"

definition expiry_chunks :: "rows \<Rightarrow> int list \<Rightarrow> int option" where
  "expiry_chunks counts days = fold (\<lambda>d n. num2 (+) n (num (counts (expiry_key d)))) days (Some 0)"

definition catch_up_from :: "backend \<Rightarrow> engine_constants \<Rightarrow> nat \<Rightarrow> rows \<Rightarrow> int \<Rightarrow> entry_call list result" where
  "catch_up_from bk c mx st h = (case (num (st ''cfg_genesis''), number_of (ec_heightsPerDay c)) of
     (Some g, Some hpd) \<Rightarrow> if g = 0 \<or> hpd = 0 then Inr [] else
       (let today = (h - g) div hpd; accDay = num (st ''acc_day'') in
        if opt_holds (\<lambda>a. a \<ge> today) accDay then Inr []
        else (let days = lagging_days accDay today in
          rmap (\<lambda>counts. replicate (advance_count mx (num2 (*) (expiry_chunks counts days) (Some (ec_expiryChunkSize c)))
              (ec_maxRetirePerWalk c)) advance_call) (bk_state bk (map expiry_key days))))
   | _ \<Rightarrow> Inr [])"

definition readCatchUp :: "'s client_env \<Rightarrow> nat \<Rightarrow> entry_call list" where
  "readCatchUp env mx = or_default [] (rbind (constants (ce_engine env)) (\<lambda>c.
     rbind (bk_state (ce_backend env) [''acc_day'', ''cfg_genesis'', ''cfg_settled'']) (\<lambda>st.
     rbind (head_height (ce_backend env)) (catch_up_from (ce_backend env) c mx st))))"

definition catchUp :: "'s client_env \<Rightarrow> nat \<Rightarrow> ('s client_state, entry_call list) state" where
  "catchUp env mx = do {
     s \<leftarrow> State_Monad.get;
     (case cs_catchUp s of
        Some (since, m, calls) \<Rightarrow>
          if m = mx \<and> ce_now env - since < CATCHUP_TTL_MS then State_Monad.return calls
          else do { _ \<leftarrow> State_Monad.set (s\<lparr>cs_catchUp := Some (ce_now env, mx, readCatchUp env mx)\<rparr>);
                    State_Monad.return (readCatchUp env mx) }
      | None \<Rightarrow> do { _ \<leftarrow> State_Monad.set (s\<lparr>cs_catchUp := Some (ce_now env, mx, readCatchUp env mx)\<rparr>);
                    State_Monad.return (readCatchUp env mx) })
   }"

definition warmCatchUp :: "'s client_env \<Rightarrow> ('s client_state, unit) state" where
  "warmCatchUp env = do { _ \<leftarrow> catchUp env 8; State_Monad.return () }"

text \<open>A call with the catch-up slices in front of it.\<close>

definition call_caught_up :: "'s client_env \<Rightarrow> string \<Rightarrow> string list \<Rightarrow> ('s, tx_result) client" where
  "call_caught_up env entrypoint parts = do {
     pre \<leftarrow> catchUp env 8;
     send env entrypoint (args parts) (no_options\<lparr>so_preCalls := pre\<rparr>)
   }"

section \<open>Settlements riding along\<close>

definition listing_key :: "string \<times> string \<Rightarrow> string" where
  "listing_key p = fst p @ ''/'' @ snd p"

definition note_post :: "post_view \<Rightarrow> (string \<times> string \<times> string) list \<Rightarrow> (string \<times> string \<times> string) list" where
  "note_post v m = (let k = listing_key (view_name v) in
     if pv_payable v \<and> \<not> pv_paid_out v then AList.update k (view_name v) m else AList.delete k m)"

definition notePayable :: "post_view list \<Rightarrow> (string \<times> string \<times> string) list \<Rightarrow> (string \<times> string \<times> string) list" where
  "notePayable vs m = fold note_post vs m"

definition settlements :: "(string \<times> string \<times> string) list \<Rightarrow> entry_call list" where
  "settlements m = map (\<lambda>(k, a, p). \<lparr>ec_entrypoint = ''payout'', ec_args = args [a, p]\<rparr>) (take MaxSideCalls m)"

definition client_posts :: "'s client_env \<Rightarrow> nat \<Rightarrow> ('s, post_view list) client" where
  "client_posts env limit = given (bk_posts (ce_backend env) limit) (\<lambda>vs. do {
     s \<leftarrow> State_Monad.get;
     _ \<leftarrow> State_Monad.set (s\<lparr>cs_payable := notePayable vs (cs_payable s)\<rparr>);
     State_Monad.return (Inr vs)
   })"

definition call_settling :: "'s client_env \<Rightarrow> string \<Rightarrow> string list \<Rightarrow> ('s, tx_result) client" where
  "call_settling env entrypoint parts = do {
     s \<leftarrow> State_Monad.get;
     send env entrypoint (args parts) (no_options\<lparr>so_sideCalls := settlements (cs_payable s)\<rparr>)
   }"

section \<open>Moving LASSECASH\<close>

text \<open>'memo.replace(/[|\r\n]+/g, " ")'.\<close>

definition memo_break :: "char \<Rightarrow> bool" where
  "memo_break c = (c = CHR ''|'' \<or> c = CHR 0x0D \<or> c = CHR 0x0A)"

fun blank_breaks :: "bool \<Rightarrow> string \<Rightarrow> string" where
  "blank_breaks run [] = []"
| "blank_breaks run (c # s) = (if memo_break c then (if run then blank_breaks True s else CHR '' '' # blank_breaks True s)
     else c # blank_breaks False s)"

definition clean_memo :: "string \<Rightarrow> string" where
  "clean_memo memo = take 200 (js_trim (blank_breaks False memo))"

definition recipient :: "string \<Rightarrow> string" where
  "recipient to = full_name (strip_prefix ''@'' (js_trim to))"

definition transfer :: "'s client_env \<Rightarrow> string \<Rightarrow> string \<Rightarrow> string \<Rightarrow> ('s, tx_result) client" where
  "transfer env to amount memo = given (toBaseUnitArg amount) (\<lambda>u. let clean = clean_memo memo in
     call_plain env ''transfer'' (if clean \<noteq> [] then [recipient to, u, clean] else [recipient to, u]))"

definition burn :: "'s client_env \<Rightarrow> string \<Rightarrow> ('s, tx_result) client" where
  "burn env amount = given (toBaseUnitArg amount) (\<lambda>u. call_plain env ''burn'' [u])"

definition fund :: "'s client_env \<Rightarrow> string \<Rightarrow> string \<Rightarrow> ('s, tx_result) client" where
  "fund env target amount = given (toBaseUnitArg amount) (\<lambda>u. call_plain env ''fund'' [target, u])"

definition claimMigration :: "'s client_env \<Rightarrow> string \<Rightarrow> string \<Rightarrow> string list \<Rightarrow> bool \<Rightarrow> ('s, tx_result) client" where
  "claimMigration env liquidUnits stakedUnits path cheap = send env ''claim_migration''
     (args [liquidUnits, stakedUnits, js_join '','' path]) (if cheap then no_options\<lparr>so_rcLimit := Some 2500\<rparr> else no_options)"

definition recordBurn :: "'s client_env \<Rightarrow> string \<Rightarrow> string \<Rightarrow> string \<Rightarrow> string list \<Rightarrow> ('s, tx_result) client" where
  "recordBurn env acct liquidUnits stakedUnits path =
     call_plain env ''record_burn'' [acct, liquidUnits, stakedUnits, js_join '','' path]"

section \<open>Mints\<close>

definition mint :: "'s client_env \<Rightarrow> string \<Rightarrow> int \<Rightarrow> ('s, tx_result) client" where
  "mint env amount days = given (toBaseUnitArg amount) (\<lambda>u. call_caught_up env ''mint'' [u, show_int days])"

definition claimMint :: "'s client_env \<Rightarrow> int \<Rightarrow> ('s, tx_result) client" where
  "claimMint env mintId = call_caught_up env ''claim_mint'' [show_int mintId]"

definition armGoodAccounting :: "'s client_env \<Rightarrow> int \<Rightarrow> ('s, tx_result) client" where
  "armGoodAccounting env mintId = call_plain env ''good_accounting'' [show_int mintId]"

definition setMintDuration :: "'s client_env \<Rightarrow> int \<Rightarrow> ('s, tx_result) client" where
  "setMintDuration env days = call_plain env ''set_duration'' [show_int days]"

definition settlePending :: "'s client_env \<Rightarrow> string option \<Rightarrow> ('s, tx_result) client" where
  "settlePending env acct = call_caught_up env ''settle_pending'' [nullish acct []]"

text \<open>One claim after another until one fails, for a signer that cannot bundle.\<close>

fun claim_each :: "(int \<Rightarrow> ('s, tx_result) client) \<Rightarrow> int list \<Rightarrow> tx_result \<Rightarrow> ('s, tx_result) client" where
  "claim_each claim [] last_one = State_Monad.return (Inr last_one)"
| "claim_each claim (i # is) last_one = do {
     r \<leftarrow> claim i;
     (case r of Inl e \<Rightarrow> State_Monad.return (Inl e)
      | Inr x \<Rightarrow> if \<not> tr_ok x then State_Monad.return (Inr x) else claim_each claim is x)
   }"

definition claim_all_with :: "'s signer_api \<Rightarrow> string \<Rightarrow> (int \<Rightarrow> ('s, tx_result) client) \<Rightarrow> int list \<Rightarrow> ('s, tx_result) client" where
  "claim_all_with sg entrypoint claim ids = (if ids = [] then State_Monad.return (Inr (refused ''nothing to claim''))
     else case sg_claimAllOf sg of Some all \<Rightarrow> by_signer (all entrypoint ids)
       | None \<Rightarrow> claim_each claim ids (refused ''nothing to claim''))"

definition claimAllMintRewards :: "'s client_env \<Rightarrow> ('s, tx_result) client" where
  "claimAllMintRewards env = with_signer env (\<lambda>sg.
     given (mintsNeedingAttention (ce_backend env) (sg_account sg)) (\<lambda>ms.
       claim_all_with sg ''claim_mint'' (claimMint env) (map mv_id (filter mv_mature ms))))"

section \<open>Content\<close>

definition client_post :: "'s client_env \<Rightarrow> string \<Rightarrow> int \<Rightarrow> ('s, tx_result) client" where
  "client_post env permlink window = call_plain env ''post'' [permlink, show_int window]"

text \<open>'publish' and 'editPost' fill in what the caller left out; 'comment' derives the
  reply's permlink from the clock's text.\<close>

definition client_publish :: "'s client_env \<Rightarrow> publish_input \<Rightarrow> ('s, publish_result) client" where
  "client_publish env i = with_signer env (\<lambda>sg. do {
     s \<leftarrow> State_Monad.get;
     by_signer (publish (Some sg) (i\<lparr>pi_permlink := Some (nullish (pi_permlink i) []), pi_sideCalls := settlements (cs_payable s)\<rparr>))
   })"

definition client_editPost :: "'s client_env \<Rightarrow> edit_input \<Rightarrow> ('s, publish_result) client" where
  "client_editPost env i = with_signer env (\<lambda>sg. by_signer (editPost (Some sg) (i\<lparr>ei_category := non_empty (ei_category i)\<rparr>)))"

definition comment_stamp :: "int \<Rightarrow> string" where
  "comment_stamp now = filter is_digit (toISOString now)"

definition comment :: "'s client_env \<Rightarrow> string \<Rightarrow> string \<Rightarrow> string \<Rightarrow> int \<Rightarrow> ('s, publish_result) client" where
  "comment env body parentAuthor parentPermlink payoutMode = with_signer env (\<lambda>sg. do {
     s \<leftarrow> State_Monad.get;
     by_signer (publishComment (Some sg) \<lparr>ci_permlink = commentPermlink parentAuthor parentPermlink (comment_stamp (ce_now env)),
       ci_body = body, ci_parentAuthor = parentAuthor, ci_parentPermlink = parentPermlink, ci_payoutMode = payoutMode,
       ci_sideCalls = settlements (cs_payable s)\<rparr>)
   })"

definition promotePost :: "'s client_env \<Rightarrow> string \<Rightarrow> string \<Rightarrow> string \<Rightarrow> ('s, tx_result) client" where
  "promotePost env author permlink amount = given (toBaseUnitArg amount) (\<lambda>u. call_plain env ''promote_post'' [author, permlink, u])"

definition vote :: "'s client_env \<Rightarrow> string \<Rightarrow> string \<Rightarrow> int \<Rightarrow> ('s, tx_result) client" where
  "vote env author permlink weightPct = call_settling env ''vote'' [author, permlink, show_int weightPct]"

definition unvote :: "'s client_env \<Rightarrow> string \<Rightarrow> string \<Rightarrow> ('s, tx_result) client" where
  "unvote env author permlink = call_settling env ''vote'' [author, permlink, show_int 0]"

definition payout :: "'s client_env \<Rightarrow> string \<Rightarrow> string \<Rightarrow> ('s, tx_result) client" where
  "payout env author permlink = call_plain env ''payout'' [author, permlink]"

definition claimCuration :: "'s client_env \<Rightarrow> string \<Rightarrow> string \<Rightarrow> string \<Rightarrow> ('s, tx_result) client" where
  "claimCuration env author permlink curator = call_plain env ''claim_curation'' [author, permlink, curator]"

definition sweepCuration :: "'s client_env \<Rightarrow> string \<Rightarrow> string \<Rightarrow> ('s, tx_result) client" where
  "sweepCuration env author permlink = call_plain env ''sweep_curation'' [author, permlink]"

section \<open>The pool\<close>

definition addLiquidity :: "'s client_env \<Rightarrow> string \<Rightarrow> string \<Rightarrow> ('s, tx_result) client" where
  "addLiquidity env lcAmount maxHbd = given (toBaseUnitArg lcAmount) (\<lambda>l. given (toBaseUnitArg maxHbd) (\<lambda>h.
     call_plain env ''add_liquidity'' [l, h]))"

definition removeLiquidity :: "'s client_env \<Rightarrow> int \<Rightarrow> ('s, tx_result) client" where
  "removeLiquidity env trancheId = call_plain env ''remove_liquidity'' [show_int trancheId]"

definition claimPoolRewards :: "'s client_env \<Rightarrow> int \<Rightarrow> ('s, tx_result) client" where
  "claimPoolRewards env trancheId = call_plain env ''claim_pool'' [show_int trancheId]"

text \<open>'Number(t.pending_reward) > 0' of an amount.\<close>

definition claimAllPoolRewards :: "'s client_env \<Rightarrow> ('s, tx_result) client" where
  "claimAllPoolRewards env = with_signer env (\<lambda>sg.
     given (openTranches (ce_backend env) (sg_account sg)) (\<lambda>ts.
       claim_all_with sg ''claim_pool'' (claimPoolRewards env) (map tv_id (filter (\<lambda>t. figure (tv_pending_reward t) > 0) ts))))"

definition client_swap :: "'s client_env \<Rightarrow> swap_direction \<Rightarrow> string \<Rightarrow> string \<Rightarrow> ('s, tx_result) client" where
  "client_swap env direction amountIn minOut = given (toBaseUnitArg amountIn) (\<lambda>a. given (toBaseUnitArg minOut) (\<lambda>m.
     call_plain env (if direction = LcHbd then ''swap_lassecash_hbd'' else ''swap_hbd_lassecash'') [a, m]))"

definition promote :: "'s client_env \<Rightarrow> string option \<Rightarrow> ('s, tx_result) client" where
  "promote env acct = call_plain env ''promote'' [nullish acct []]"

definition setParam :: "'s client_env \<Rightarrow> string \<Rightarrow> string \<Rightarrow> ('s, tx_result) client" where
  "setParam env key v = call_plain env ''set_param'' [key, v]"

definition settle :: "'s client_env \<Rightarrow> ('s, tx_result) client" where
  "settle env = send env ''settle'' [] no_options"

section \<open>Other assets\<close>

text \<open>An operation only a wallet has.\<close>

definition with_wallet :: "'s client_env \<Rightarrow> ('s signer_api \<Rightarrow> 'a option) \<Rightarrow> string \<Rightarrow> ('a \<Rightarrow> ('s, tx_result) client) \<Rightarrow> ('s, tx_result) client" where
  "with_wallet env get msg f = (case Option.bind (ce_signer env) get of None \<Rightarrow> State_Monad.return (throw msg) | Some g \<Rightarrow> f g)"

definition client_depositHbd :: "'s client_env \<Rightarrow> string \<Rightarrow> string \<Rightarrow> ('s, tx_result) client" where
  "client_depositHbd env amount asset = with_wallet env sg_depositHbd ''moving funds needs a wallet'' (\<lambda>g. by_signer (g amount asset))"

definition client_withdrawHbd :: "'s client_env \<Rightarrow> string \<Rightarrow> string option \<Rightarrow> string \<Rightarrow> ('s, tx_result) client" where
  "client_withdrawHbd env amount to asset = with_wallet env sg_withdrawHbd ''moving funds needs a wallet'' (\<lambda>g. by_signer (g amount to asset))"

record magi_estimate =
  mge_quote :: magi_quote
  mge_pool :: magi_pool
  mge_reserves :: "int \<times> int"

definition quoteMagi :: "backend \<Rightarrow> string \<Rightarrow> string \<Rightarrow> string \<Rightarrow> magi_estimate option result" where
  "quoteMagi bk assetIn assetOut amountIn = (case (poolFor assetIn assetOut, bk_magiPoolReserves bk) of
     (Some pool, Some reserves) \<Rightarrow> (case reserves (mp_contractId pool) of
         None \<Rightarrow> Inr None
       | Some (r0, r1) \<Rightarrow> let rin = (if mp_asset0 pool = assetIn then r0 else r1); rout = (if mp_asset0 pool = assetIn then r1 else r0)
           in rmap (\<lambda>units. map_option (\<lambda>q. \<lparr>mge_quote = q, mge_pool = pool, mge_reserves = (rin, rout)\<rparr>)
                (quoteMagiSwap rin rout units (mp_feeBps pool) (nullish (ASSET_SCALE assetOut) 1000)))
              (decimalToUnits (if amountIn = [] then ''0'' else amountIn) (nullish (ASSET_SCALE assetIn) 1000)))
   | _ \<Rightarrow> Inr None)"

text \<open>'Math.round(Math.max(0.1, Math.min(50, slippagePct)) * 100)', the percentage a
  rational number.\<close>

definition slippage_bps :: "rat \<Rightarrow> int" where
  "slippage_bps p = \<lfloor>100 * max (1 / 10) (min 50 p) + 1 / 2\<rfloor>"

definition swap_floor :: "int \<Rightarrow> rat \<Rightarrow> int" where
  "swap_floor out p = bdiv (out * (10000 - slippage_bps p)) 10000"

definition swap_intent :: "string \<Rightarrow> int \<Rightarrow> intent" where
  "swap_intent asset u = \<lparr>it_token = js_lower asset, it_limit = unitsToDecimal u (nullish (ASSET_SCALE asset) 1000)\<rparr>"

definition magi_request :: "string \<Rightarrow> string \<Rightarrow> magi_estimate \<Rightarrow> int \<Rightarrow> string \<Rightarrow> magi_swap_in" where
  "magi_request assetIn assetOut q minOut who = (let amountIn = mgq_amountInUnits (mge_quote q); router = mp_router (mge_pool q) in
     \<lparr>ms_router = router,
       ms_payload = swapPayload \<lparr>spi_assetIn = assetIn, spi_assetOut = assetOut, spi_amountInUnits = amountIn,
         spi_minOutUnits = minOut, spi_recipient = qualifyAddress who\<rparr>,
       ms_intents = [swap_intent assetIn amountIn], ms_rcLimit = 700,
       ms_approve = map_option (\<lambda>c. (c, allowance_for router (show_int amountIn), 800)) (MAPPING_CONTRACTS assetIn)\<rparr>)"

definition magiSwap :: "'s client_env \<Rightarrow> string \<Rightarrow> string \<Rightarrow> string \<Rightarrow> rat \<Rightarrow> ('s, tx_result) client" where
  "magiSwap env assetIn assetOut amountIn slippagePct = with_wallet env sg_magiSwap ''swapping needs a wallet'' (\<lambda>g.
     given (quoteMagi (ce_backend env) assetIn assetOut amountIn) (\<lambda>r. case r of
         None \<Rightarrow> State_Monad.return (throw (''no quote'' @ em_dash @ ''the pool could not be read''))
       | Some q \<Rightarrow> let minOut = swap_floor (mgq_amountOutUnits (mge_quote q)) slippagePct in
           if minOut \<le> 0 then State_Monad.return (throw ''amount too small to swap'')
           else by_signer (g (magi_request assetIn assetOut q minOut (nullish (client_account env) [])))))"

definition client_withdrawBtc :: "'s client_env \<Rightarrow> string \<Rightarrow> string \<Rightarrow> ('s, tx_result) client" where
  "client_withdrawBtc env amount toAddress = with_wallet env sg_withdrawBtc ''withdrawing BTC needs a wallet'' (\<lambda>g.
     let addr = js_trim toAddress in
     if addr = [] then State_Monad.return (throw ''enter a Bitcoin address'')
     else given (decimalToUnits (if amount = [] then ''0'' else amount) (nullish (ASSET_SCALE ''BTC'') 0)) (\<lambda>sats.
       if sats < BTC_DUST_SATS then State_Monad.return (throw (''below Bitcoin'' @ [CHR 0x27] @ ''s dust limit'' @ em_dash
         @ show_int BTC_DUST_SATS @ '' satoshis (0.00000546 BTC) is the smallest spendable output''))
       else by_signer (g sats addr)))"

definition to_upper :: "char \<Rightarrow> char" where
  "to_upper c = (if 97 \<le> (of_char c :: nat) \<and> (of_char c :: nat) \<le> 122 then char_of ((of_char c :: nat) - 32) else c)"

definition sendAsset :: "'s client_env \<Rightarrow> string \<Rightarrow> string \<Rightarrow> string \<Rightarrow> string \<Rightarrow> ('s, tx_result) client" where
  "sendAsset env asset to amount memo = (let dest = strip_prefix ''@'' (js_trim to); A = map to_upper asset in
     if dest = [] then State_Monad.return (throw ''enter an account name'')
     else if A = ''LASSECASH'' \<or> A = ''LC'' then transfer env dest amount memo
     else if A = ''HBD'' \<or> A = ''HIVE'' then with_wallet env sg_sendNative ''sending needs a wallet''
       (\<lambda>g. by_signer (g (qualifyAddress dest) amount A memo))
     else if A = ''BTC'' then with_wallet env sg_sendBtc ''sending needs a wallet'' (\<lambda>g.
       given (decimalToUnits (if amount = [] then ''0'' else amount) (nullish (ASSET_SCALE ''BTC'') 0)) (\<lambda>sats.
         if sats \<le> 0 then State_Monad.return (throw ''enter an amount'') else by_signer (g (qualifyAddress dest) sats)))
     else State_Monad.return (throw (''cannot send '' @ asset)))"

section \<open>The signed-in account's figures\<close>

definition who_of :: "'s client_env \<Rightarrow> string option \<Rightarrow> string option" where
  "who_of env acct = non_empty (case acct of Some a \<Rightarrow> Some a | None \<Rightarrow> client_account env)"

definition btcBalance :: "'s client_env \<Rightarrow> string option \<Rightarrow> string option" where
  "btcBalance env acct = (case (who_of env acct, bk_mappedBalance (ce_backend env)) of
     (Some who, Some f) \<Rightarrow> map_option (\<lambda>sats. unitsToDecimal sats (nullish (ASSET_SCALE ''BTC'') 0)) (f BTC_MAPPING_CONTRACT who)
   | _ \<Rightarrow> None)"

definition client_accountOps :: "'s client_env \<Rightarrow> nat \<Rightarrow> account_op list result" where
  "client_accountOps env limit = (case (who_of env None, bk_accountOps (ce_backend env)) of
     (Some who, Some f) \<Rightarrow> f who limit | _ \<Rightarrow> Inr [])"

definition client_resourceCredits :: "'s client_env \<Rightarrow> string option \<Rightarrow> resource_credits option result" where
  "client_resourceCredits env acct = (case (who_of env acct, bk_resourceCredits (ce_backend env)) of
     (Some who, Some f) \<Rightarrow> f who | _ \<Rightarrow> Inr None)"

definition client_hiveBalances :: "'s client_env \<Rightarrow> string option \<Rightarrow> (string \<times> string) option" where
  "client_hiveBalances env acct = (case (who_of env acct, bk_hiveBalances (ce_backend env)) of
     (Some who, Some f) \<Rightarrow> f who | _ \<Rightarrow> None)"

text \<open>'rc.amount / rc.max > 0.25', the quotient a double.\<close>

definition above_quarter :: "int \<Rightarrow> int \<Rightarrow> bool" where
  "above_quarter a m = (a > 0 \<and> (case fl_div a m of (q, j) \<Rightarrow> 4 * q > 2 ^ j))"

definition hasRcHeadroom :: "'s client_env \<Rightarrow> bool result" where
  "hasRcHeadroom env = rmap (\<lambda>rc. case rc of None \<Rightarrow> True
     | Some r \<Rightarrow> rc_max r \<le> 0 \<or> above_quarter (rc_amount r) (rc_max r)) (client_resourceCredits env None)"

section \<open>Everyone's tranches\<close>

text \<open>'share' is the double nearest the quotient, as mantissa and scale.\<close>

record open_tranche =
  ot_owner :: string
  ot_id :: int
  ot_shares :: string
  ot_ageDays :: int
  ot_loyalty :: string
  ot_valueLc :: string
  ot_valueHbd :: string
  ot_share :: "int \<times> nat"

definition depositors :: "pool_op list \<Rightarrow> string list" where
  "depositors ops = dedupe (map po_signer (filter (\<lambda>p. po_action p = ''add_liquidity'' \<and> po_signer p \<noteq> []) ops))"

definition seq_key :: "string \<Rightarrow> string" where
  "seq_key who = ''lpseq_'' @ who"

definition lp_key :: "string \<times> int \<Rightarrow> string" where
  "lp_key w = ''lp_'' @ fst w @ ''_'' @ show_int (snd w)"

definition numbered_tranches :: "rows \<Rightarrow> string list \<Rightarrow> (string \<times> int) list" where
  "numbered_tranches seqs whos = concat (map (\<lambda>who. map (\<lambda>i. (who, i)) [1..num_or (num (seqs (seq_key who))) 0]) whos)"

definition share_of :: "int \<Rightarrow> int \<Rightarrow> int \<times> nat" where
  "share_of shares tot = (if tot > 0 then fl_div (fl53 shares) (fl53 tot) else (0, 0))"

definition fl_less :: "int \<times> nat \<Rightarrow> int \<times> nat \<Rightarrow> bool" where
  "fl_less x y = (fst x * 2 ^ snd y < fst y * 2 ^ snd x)"

definition tranche_input_of :: "chain_info \<Rightarrow> string list \<Rightarrow> tranche_args result" where
  "tranche_input_of info f = rbind (toUnits (ci_amm_shares info)) (\<lambda>sh. rbind (toUnits (ci_amm_lc info)) (\<lambda>lc.
     rmap (\<lambda>hbd. \<lparr>ta_shares = nullish (field f 0) ''0'', ta_startHeight = num (field f 1), ta_weight = nullish (field f 2) ''0'',
       ta_accStart = nullish (field f 4) ''0'', ta_height = ci_height info, ta_totalShares = show_int sh,
       ta_lcReserve = show_int lc, ta_hbdReserve = show_int hbd, ta_poolLiq = ''0'', ta_accSeen = ''0'', ta_accHeld = ''0'',
       ta_acc = ''0'', ta_totalWeight = ''0''\<rparr>) (toUnits (ci_amm_hbd info))))"

definition open_row :: "engine \<Rightarrow> chain_info \<Rightarrow> int \<Rightarrow> string \<times> int \<Rightarrow> string \<Rightarrow> open_tranche option result" where
  "open_row e info tot w raw = (let f = split_on (CHR ''|'') raw in
     rbind (big_int (or_zero (field f 0))) (\<lambda>shares. rbind (big_int (or_zero (field f 2))) (\<lambda>weight.
       if weight \<le> 0 \<or> shares \<le> 0 then Inr None
       else rbind (tranche_input_of info f) (\<lambda>t. rmap (\<lambda>v. Some \<lparr>ot_owner = strip_prefix ''hive:'' (fst w), ot_id = snd w,
         ot_shares = fromUnits shares, ot_ageDays = rt_age_days v, ot_loyalty = rt_loyalty v, ot_valueLc = rt_value_lc v,
         ot_valueHbd = rt_value_hbd v, ot_share = share_of shares tot\<rparr>) (trancheView e t)))))"

definition tranche_row :: "engine \<Rightarrow> chain_info \<Rightarrow> int \<Rightarrow> rows \<Rightarrow> string \<times> int \<Rightarrow> open_tranche option result" where
  "tranche_row e info tot st w = (case text_at st (lp_key w) of None \<Rightarrow> Inr None | Some raw \<Rightarrow> open_row e info tot w raw)"

definition allTranches :: "'s client_env \<Rightarrow> open_tranche list result" where
  "allTranches env = (let bk = ce_backend env in rbind (bk_poolOps bk POOL_HISTORY_LIMIT) (\<lambda>ops. rbind (bk_chain bk) (\<lambda>info.
     let whos = depositors ops in
     if whos = [] then Inr [] else rbind (bk_state bk (map seq_key whos)) (\<lambda>seqs.
       let wanted = numbered_tranches seqs whos in
       if wanted = [] then Inr [] else rbind (bk_state bk (map lp_key wanted)) (\<lambda>st.
       rbind (toUnits (ci_amm_shares info)) (\<lambda>tot.
         rmap (\<lambda>rs. js_sort (\<lambda>a b. fl_less (ot_share b) (ot_share a)) (List.map_filter (\<lambda>r. r) rs))
           (mapR (tranche_row (ce_engine env) info tot st) wanted)))))))"

end
