(* ===== verification/ClientSafety.thy ===== *)
theory ClientSafety
  imports Client
begin

text \<open>
  What the client guarantees of the calls it makes: catch-up asks for enough slices
  and never too many, claim-all closes only matured mints, a memo cannot add a
  field, a foreign swap carries a floor, and what rides along was payable when last
  seen.
\<close>

section \<open>Catch-up\<close>

lemma num2_add_fold:
  "\<forall>d \<in> set ds. num (f d) = Some (cnt d) \<Longrightarrow> fold (\<lambda>d n. num2 (+) n (num (f d))) ds (Some s) = Some (s + (\<Sum>d\<leftarrow>ds. cnt d))"
  by (induction ds arbitrary: s) (simp_all add: num2_def)

lemma advance_count_enough:
  assumes "per > 0" "mx \<ge> 1" "k = advance_count mx (Some n) per"
  shows "1 \<le> k \<and> k \<le> mx \<and> (k = mx \<or> n \<le> (int k - 1) * per)"
proof (cases "k = mx")
  case False
  have k: "k = min mx (nat (max 1 (ceil_div n per + 1)))" using assms by (simp add: advance_count_def)
  then have "k = nat (max 1 (ceil_div n per + 1))" using False by (metis min_def)
  then have "int k = max 1 (ceil_div n per + 1)" by simp
  then have "ceil_div n per \<le> int k - 1" by linarith
  moreover have "n \<le> ceil_div n per * per"
  proof -
    have "(- n) div per * per + (- n) mod per = - n" "0 \<le> (- n) mod per" using assms(1) by simp_all
    then show ?thesis by (simp add: ceil_div_def, linarith)
  qed
  ultimately have "n \<le> (int k - 1) * per" using assms(1) by (meson mult_right_mono order_trans less_imp_le)
  then show ?thesis using k assms(2) by auto
qed (use assms in \<open>simp\<close>)


section \<open>What the wallet is asked to sign\<close>

definition signed_by :: "(wallet_state, 'a) client \<Rightarrow> wallet_state client_state \<Rightarrow> wallet_request list" where
  "signed_by m s = drop (length (ws_asked (cs_signer s))) (ws_asked (cs_signer (snd (run_state m s))))"

lemma signed_return [simp]: "signed_by (State_Monad.return x) s = []"
  by (simp add: signed_by_def)

lemma signed_by_signer [simp]: "signed_by (by_signer m) s = asked_by m (cs_signer s)"
  by (simp add: signed_by_def by_signer_def asked_by_def split: prod.split)

lemma claims_of_ids:
  assumes "en_user we = Some user" "c \<in> set (concat (map sent_calls (asked_by (claimAllOf we acct e ids) s)))"
  shows "\<exists>i \<in> set ids. c = (e, show_int i)"
proof -
  have "prefix (concat (map sent_calls (asked_by (claimAllOf we acct e ids) s))) (map (\<lambda>i. (e, show_int i)) (take MaxClaimAllBatch ids))"
    using claimAll_asked [OF assms(1), of acct e ids s] by (simp add: Let_def)
  then have "c \<in> set (map (\<lambda>i. (e, show_int i)) (take MaxClaimAllBatch ids))"
    using assms(2) by (metis set_mono_prefix subsetD)
  then show ?thesis by (auto dest: in_set_takeD)
qed

text \<open>C15. Claiming every mint at once can never end one early: every call it makes
  the wallet sign is the claim of a mint that the account view reports matured and
  not yet ended.\<close>

theorem claim_all_only_mature:
  assumes signer: "ce_signer env = Some (aioha_signer we acct)" and user: "en_user we = Some user"
  shows "\<forall>call \<in> set (concat (map sent_calls (signed_by (claimAllMintRewards env) s))).
    \<exists>view m. bk_account (ce_backend env) acct = Inr view \<and> m \<in> set (av_mints view) \<and> mv_mature m \<and> \<not> mv_ended m
      \<and> call = (''claim_mint'', show_int (mv_id m))"
proof (cases "mintsNeedingAttention (ce_backend env) acct")
  case (Inl e)
  then show ?thesis using signer by (simp add: claimAllMintRewards_def with_signer_def given_def aioha_signer_def)
next
  case (Inr ms)
  let ?ids = "map mv_id (filter mv_mature ms)"
  obtain view where view: "bk_account (ce_backend env) acct = Inr view" "\<forall>m \<in> set ms. m \<in> set (av_mints view) \<and> \<not> mv_ended m"
    using Inr by (fastforce simp: mintsNeedingAttention_def openMints_def rmap_Inr_iff)
  have "signed_by (claimAllMintRewards env) s = (if ?ids = [] then [] else asked_by (claimAllOf we acct ''claim_mint'' ?ids) (cs_signer s))"
    using signer Inr by (simp add: claimAllMintRewards_def with_signer_def given_def aioha_signer_def claim_all_with_def)
  then show ?thesis using view claims_of_ids [OF user, of _ acct "''claim_mint''" ?ids "cs_signer s"] by (fastforce split: if_splits)
qed

section \<open>Payloads\<close>

lemma blank_breaks_plain: "c \<in> set (blank_breaks run s) \<Longrightarrow> \<not> memo_break c"
  by (induction run s rule: blank_breaks.induct) (auto simp: memo_break_def split: if_splits)

lemma set_js_trim: "c \<in> set (js_trim s) \<Longrightarrow> c \<in> set s"
  unfolding js_trim_def set_rev by (metis set_dropWhileD set_rev)

lemma clean_memo_plain: "c \<in> set (clean_memo memo) \<Longrightarrow> \<not> memo_break c"
  unfolding clean_memo_def by (meson blank_breaks_plain in_set_takeD set_js_trim)

lemma recipient_plain: "CHR ''|'' \<notin> set to \<Longrightarrow> CHR ''|'' \<notin> set (recipient to)"
  unfolding recipient_def full_name_def by (auto simp: strip_prefix_def dest: set_js_trim in_set_dropD split: if_splits)

text \<open>What is typed in the memo can never change who is paid or how much: the
  payload of a transfer splits into the recipient with its chain, the exact units
  typed, and at most one more field, a line of at most 200 characters; an empty memo
  adds none.\<close>

theorem transfer_fields:
  assumes amount: "toBaseUnitArg amount = Inr u" and plain: "CHR ''|'' \<notin> set to"
  shows "\<exists>payload extra. transfer env to amount memo = send env ''transfer'' payload no_options
    \<and> split_on (CHR ''|'') payload = [recipient to, u] @ extra
    \<and> big_int u = toUnits amount \<and> CHR '':'' \<in> set (recipient to)
    \<and> (extra = [] \<and> clean_memo memo = [] \<or> extra = [clean_memo memo])
    \<and> length (clean_memo memo) \<le> 200 \<and> (\<forall>c \<in> set (clean_memo memo). \<not> memo_break c)"
proof -
  obtain v where v: "toUnits amount = Inr v" "u = show_int v"
    using amount by (auto simp: toBaseUnitArg_def rbind_Inr_iff split: if_splits)
  let ?extra = "if clean_memo memo = [] then [] else [clean_memo memo]"
  have memo: "CHR ''|'' \<notin> set (clean_memo memo)" using clean_memo_plain [of "CHR ''|''" memo] by (auto simp: memo_break_def)
  have "split_on (CHR ''|'') (args ([recipient to, u] @ ?extra)) = [recipient to, u] @ ?extra"
    unfolding args_def by (rule split_on_join) (use recipient_plain [OF plain] memo v in \<open>auto split: if_splits\<close>)
  moreover have "transfer env to amount memo = send env ''transfer'' (args ([recipient to, u] @ ?extra)) no_options"
    using amount by (simp add: transfer_def given_def call_plain_def Let_def)
  moreover have "big_int u = toUnits amount" using v by simp
  moreover have "CHR '':'' \<in> set (recipient to)" by (simp add: recipient_def full_name_def)
  ultimately show ?thesis using clean_memo_plain by (intro exI [of _ "args ([recipient to, u] @ ?extra)"] exI [of _ ?extra])
    (auto simp: clean_memo_def)
qed

section \<open>A floor under every foreign swap\<close>

lemma slippage_range: "10 \<le> slippage_bps p \<and> slippage_bps p \<le> 5000"
proof -
  let ?x = "100 * max (1 / 10) (min 50 p) + 1 / 2 :: rat"
  have "1 / 10 \<le> max (1 / 10) (min 50 p)" "max (1 / 10) (min 50 p) \<le> 50" by simp_all
  then have "10 \<le> ?x" "?x < 5001" by linarith+
  then show ?thesis unfolding slippage_bps_def by (simp add: le_floor_iff floor_less_iff floor_le_iff)
qed

lemma quote_positive: "quoteMagiSwap rin rout amt fee scale = Some q \<Longrightarrow> mgq_amountOutUnits q > 0"
  by (auto simp: quoteMagiSwap_def Let_def split: if_splits)

text \<open>C24. A swap on a foreign pool never goes out without a floor: whatever slippage
  is typed, what the router is told to pay at least is the estimate less that
  slippage, held between 0.1 and 50 per cent, rounded down to a unit, and a floor of
  nothing is refused before the wallet is asked.\<close>

theorem magi_floor_enforced:
  assumes g: "Option.bind (ce_signer env) sg_magiSwap = Some g" and q: "quoteMagi (ce_backend env) a b amt = Inr (Some q)"
  shows "\<exists>m bps j. magiSwap env a b amt p = (if m \<le> 0 then State_Monad.return (throw ''amount too small to swap'')
        else by_signer (g (magi_request a b q m (nullish (client_account env) []))))
    \<and> 10 \<le> bps \<and> bps \<le> 5000 \<and> (10 \<le> 100 * p \<and> 100 * p \<le> 5000 \<longrightarrow> \<bar>of_int bps - 100 * p\<bar> \<le> 1 / 2)
    \<and> m * 10000 \<le> mgq_amountOutUnits (mge_quote q) * (10000 - bps)
    \<and> mgq_amountOutUnits (mge_quote q) * (10000 - bps) < (m + 1) * 10000
    \<and> json_parse (ms_payload (magi_request a b q m (nullish (client_account env) []))) = Inr j
    \<and> Option.bind (jfield ''min_amount_out'' j) jstr = Some (show_int m)"
proof -
  let ?out = "mgq_amountOutUnits (mge_quote q)"
  let ?bps = "slippage_bps p"
  let ?m = "swap_floor ?out p"
  obtain rin rout u fee sc where "quoteMagiSwap rin rout u fee sc = Some (mge_quote q)"
    using q by (auto simp: quoteMagi_def rmap_Inr_iff Let_def eq_commute [of "Some q"] split: option.splits)
  then have out: "?out > 0" by (rule quote_positive)
  have bps: "10 \<le> ?bps" "?bps \<le> 5000" using slippage_range by auto
  have m: "?m = (?out * (10000 - ?bps)) div 10000" unfolding swap_floor_def using out bps by simp
  have near: "10 \<le> 100 * p \<and> 100 * p \<le> 5000 \<longrightarrow> \<bar>of_int ?bps - 100 * p\<bar> \<le> 1 / 2"
  proof
    assume "10 \<le> 100 * p \<and> 100 * p \<le> 5000"
    then have "max (1 / 10) (min 50 p) = p" by (simp add: max_def min_def)
    then have "?bps = \<lfloor>100 * p + 1 / 2\<rfloor>" by (simp add: slippage_bps_def)
    then show "\<bar>of_int ?bps - 100 * p\<bar> \<le> 1 / 2" using floor_correct [of "100 * p + 1 / 2"] by linarith
  qed
  define i where "i = \<lparr>spi_assetIn = a, spi_assetOut = b, spi_amountInUnits = mgq_amountInUnits (mge_quote q),
    spi_minOutUnits = ?m, spi_recipient = qualifyAddress (nullish (client_account env) [])\<rparr>"
  have pay: "ms_payload (magi_request a b q ?m (nullish (client_account env) [])) = stringify (swap_payload_json i)"
    by (simp add: magi_request_def i_def swapPayload_def Let_def)
  have wf: "wf_json (swap_payload_json i)" by (simp add: swap_payload_json_def)
  have field: "Option.bind (jfield ''min_amount_out'' (swap_payload_json i)) jstr = Some (show_int ?m)"
    by (simp add: swap_payload_json_def jfield_def jstr_def i_def wireAmount_def)
  show ?thesis
  proof (intro exI conjI)
    show "magiSwap env a b amt p = (if ?m \<le> 0 then State_Monad.return (throw ''amount too small to swap'')
        else by_signer (g (magi_request a b q ?m (nullish (client_account env) []))))"
      by (simp add: magiSwap_def with_wallet_def given_def g q Let_def)
    show "?m * 10000 \<le> ?out * (10000 - ?bps)" "?out * (10000 - ?bps) < (?m + 1) * 10000" unfolding m by presburger+
    show "json_parse (ms_payload (magi_request a b q ?m (nullish (client_account env) []))) = Inr (swap_payload_json i)"
      unfolding pay using json_roundtrip [OF wf] .
  qed (use bps near field in auto)
qed

section \<open>What rides along\<close>

definition last_seen :: "post_view list \<Rightarrow> string \<Rightarrow> post_view option" where
  "last_seen vs k = List.find (\<lambda>v. listing_key (view_name v) = k) (rev vs)"

lemma notePayable_map:
  "map_of (notePayable vs []) k = (case last_seen vs k of None \<Rightarrow> None
     | Some v \<Rightarrow> if pv_payable v \<and> \<not> pv_paid_out v then Some (view_name v) else None)"
proof (induction vs rule: rev_induct)
  case (snoc v vs)
  have "notePayable (vs @ [v]) [] = note_post v (notePayable vs [])" by (simp add: notePayable_def)
  then show ?case using snoc by (auto simp: note_post_def last_seen_def Let_def update_conv' delete_conv')
qed (simp add: notePayable_def last_seen_def)

lemma notePayable_distinct: "distinct (map fst (notePayable vs []))"
proof (induction vs rule: rev_induct)
  case (snoc v vs)
  have "notePayable (vs @ [v]) [] = note_post v (notePayable vs [])" by (simp add: notePayable_def)
  then show ?case using snoc by (simp add: note_post_def Let_def distinct_update distinct_delete)
qed (simp add: notePayable_def)

text \<open>What rides along is owed: after any number of feed reads, each settlement
  the client adds to a press names a post that the last read showing it had payable
  and unpaid; no post rides twice, and never more than two.\<close>

theorem settlements_payable:
  "length (settlements (notePayable vs [])) \<le> MaxSideCalls
   \<and> (\<exists>ks. distinct ks \<and> length ks = length (settlements (notePayable vs []))
       \<and> list_all2 (\<lambda>k c. \<exists>v \<in> set vs. last_seen vs k = Some v \<and> listing_key (view_name v) = k \<and> pv_payable v \<and> \<not> pv_paid_out v
            \<and> c = \<lparr>ec_entrypoint = ''payout'', ec_args = args [pv_author v, pv_permlink v]\<rparr>) ks (settlements (notePayable vs [])))"
proof -
  let ?m = "take MaxSideCalls (notePayable vs [])"
  let ?ok = "\<lambda>k c. \<exists>v \<in> set vs. last_seen vs k = Some v \<and> listing_key (view_name v) = k \<and> pv_payable v \<and> \<not> pv_paid_out v
            \<and> c = \<lparr>ec_entrypoint = ''payout'', ec_args = args [pv_author v, pv_permlink v]\<rparr>"
  have ok: "?ok k \<lparr>ec_entrypoint = ''payout'', ec_args = args [a, p]\<rparr>" if "(k, a, p) \<in> set ?m" for k a p
  proof -
    have "map_of (notePayable vs []) k = Some (a, p)"
      using in_set_takeD [OF that] notePayable_distinct by (simp add: map_of_is_SomeI)
    then obtain v where v: "last_seen vs k = Some v" "pv_payable v" "\<not> pv_paid_out v" "(a, p) = view_name v"
      by (auto simp: notePayable_map split: option.splits if_splits)
    then have "v \<in> set vs" "listing_key (view_name v) = k" unfolding last_seen_def find_Some_iff by (auto simp: rev_nth)
    then show ?thesis using v by (auto simp: view_name_def)
  qed
  have "list_all2 ?ok (map fst ?m) (settlements (notePayable vs []))"
    using ok by (auto simp: settlements_def list_all2_map1 list_all2_map2 intro!: list.rel_refl_strong)
  moreover have "distinct (map fst ?m)" using notePayable_distinct by (simp add: take_map [symmetric])
  ultimately show ?thesis by (intro conjI exI [of _ "map fst ?m"]) (auto simp: settlements_def)
qed

section \<open>Everyone's tranches\<close>

definition fl_value :: "int \<times> nat \<Rightarrow> rat" where
  "fl_value x = of_int (fst x) / 2 ^ snd x"

lemma fl_less_value: "fl_less x y \<longleftrightarrow> fl_value x < fl_value y"
proof -
  have "fl_value x < fl_value y \<longleftrightarrow> (of_int (fst x) * 2 ^ snd y :: rat) < of_int (fst y) * 2 ^ snd x"
    by (simp add: fl_value_def divide_simps)
  also have "\<dots> \<longleftrightarrow> (of_int (fst x * 2 ^ snd y) :: rat) < of_int (fst y * 2 ^ snd x)" by simp
  finally show ?thesis unfolding of_int_less_iff fl_less_def by simp
qed

definition tranche_open :: "rows \<Rightarrow> string \<times> int \<Rightarrow> bool" where
  "tranche_open db w = (\<exists>raw sh wt. text_at db (lp_key w) = Some raw
     \<and> big_int (or_zero (field (split_on (CHR ''|'') raw) 0)) = Inr sh \<and> sh > 0
     \<and> big_int (or_zero (field (split_on (CHR ''|'') raw) 2)) = Inr wt \<and> wt > 0)"

definition bare_pair :: "string \<times> int \<Rightarrow> string \<times> int" where
  "bare_pair w = (strip_prefix ''hive:'' (fst w), snd w)"

lemma open_row_some:
  assumes "tranche_row e info tot st w = Inr r"
  shows "(r \<noteq> None \<longleftrightarrow> tranche_open st w) \<and> (\<forall>t. r = Some t \<longrightarrow> (ot_owner t, ot_id t) = bare_pair w)"
  using assms by (auto simp: tranche_row_def open_row_def Let_def rbind_Inr_iff rmap_Inr_iff tranche_open_def bare_pair_def
      split: option.splits if_splits)

lemma open_rows:
  assumes "mapR (tranche_row e info tot st) ws = Inr rs"
  shows "(\<lambda>t. (ot_owner t, ot_id t)) ` set (List.map_filter (\<lambda>r. r) rs) = bare_pair ` {w \<in> set ws. tranche_open st w}"
  using assms
proof (induction ws arbitrary: rs)
  case (Cons w ws)
  then obtain r rs' where r: "tranche_row e info tot st w = Inr r" "mapR (tranche_row e info tot st) ws = Inr rs'" "rs = r # rs'"
    by (auto simp: rbind_Inr_iff rmap_Inr_iff)
  note o = open_row_some [OF r(1)]
  show ?case
  proof (cases r)
    case None
    then have "{x \<in> set (w # ws). tranche_open st x} = {x \<in> set ws. tranche_open st x}" using o by auto
    then show ?thesis using Cons.IH [OF r(2)] None by (simp add: r(3) map_filter_simps)
  next
    case (Some t)
    then have "{x \<in> set (w # ws). tranche_open st x} = insert w {x \<in> set ws. tranche_open st x}" using o by auto
    then show ?thesis using Cons.IH [OF r(2)] Some o by (simp add: r(3) map_filter_simps)
  qed
qed (simp add: map_filter_simps)

lemma tranche_open_cong: "k = lp_key w \<Longrightarrow> k \<in> ks \<Longrightarrow> tranche_open (db |` ks) w = tranche_open db w"
  by (simp add: tranche_open_def text_at_def)

text \<open>The table of everyone's tranches is complete and numbers nothing itself:
  it holds exactly the tranches still open among those the chain says each depositor
  of the history has - however short the history read - largest share first.\<close>

theorem all_tranches_exact:
  assumes bk: "ce_backend env = magi_backend nt memo cs" and s: "serves_rows nt db"
    and ops: "poolOps nt POOL_HISTORY_LIMIT = Inr ops" and ts: "allTranches env = Inr ts"
  shows "(\<lambda>t. (ot_owner t, ot_id t)) ` set ts = bare_pair ` {(who, i). who \<in> set (depositors ops)
      \<and> 1 \<le> i \<and> i \<le> num_or (num (db (seq_key who))) 0 \<and> tranche_open db (who, i)}
    \<and> sorted_wrt (\<lambda>a b. \<not> fl_less (ot_share a) (ot_share b)) ts"
proof -
  let ?whos = "depositors ops"
  let ?seqs = "db |` set (map seq_key ?whos)"
  let ?wanted = "numbered_tranches ?seqs ?whos"
  have wanted: "set ?wanted = {(who, i). who \<in> set ?whos \<and> 1 \<le> i \<and> i \<le> num_or (num (db (seq_key who))) 0}"
    by (auto simp: numbered_tranches_def)
  have st: "bk_state (ce_backend env) ks = Inr (db |` set ks)" for ks by (simp add: bk magi_backend_def state_serves [OF s])
  have o: "bk_poolOps (ce_backend env) POOL_HISTORY_LIMIT = Inr ops" by (simp add: bk magi_backend_def ops)
  show ?thesis
  proof (cases "?wanted = []")
    case True
    then have "ts = []" using ts
      by (auto simp: allTranches_def o st rbind_Inr_iff Let_def split: if_splits)
    then show ?thesis using wanted True by auto
  next
    case False
    then have "?whos \<noteq> []" by (auto simp: numbered_tranches_def)
    then obtain info tot rs where rs: "mapR (tranche_row (ce_engine env) info tot (db |` set (map lp_key ?wanted))) ?wanted = Inr rs"
      "ts = js_sort (\<lambda>a b. fl_less (ot_share b) (ot_share a)) (List.map_filter (\<lambda>r. r) rs)"
      using ts False by (auto simp: allTranches_def Let_def rbind_Inr_iff rmap_Inr_iff o st)
    have "{w \<in> set ?wanted. tranche_open (db |` set (map lp_key ?wanted)) w} = {w \<in> set ?wanted. tranche_open db w}"
      using tranche_open_cong [OF refl] by fastforce
    then have "(\<lambda>t. (ot_owner t, ot_id t)) ` set ts = bare_pair ` {w \<in> set ?wanted. tranche_open db w}"
      using open_rows [OF rs(1)] rs(2) by simp
    moreover have "{w \<in> set ?wanted. tranche_open db w} = {(who, i). who \<in> set ?whos
      \<and> 1 \<le> i \<and> i \<le> num_or (num (db (seq_key who))) 0 \<and> tranche_open db (who, i)}" using wanted by auto
    moreover have "sorted_wrt (\<lambda>a b. \<not> fl_less (ot_share a) (ot_share b)) ts"
      unfolding rs(2) by (rule js_sort_sorted) (auto simp: fl_less_value intro!: transpI)
    ultimately show ?thesis by simp
  qed
qed

section \<open>A client to try them on\<close>

definition client_rows :: rows where
  "client_rows = [''cfg_genesis'' \<mapsto> ''1'', ''acc_day'' \<mapsto> ''0'', ''explc_0'' \<mapsto> ''7'', ''lpseq_h:al'' \<mapsto> ''1'',
     ''lp_h:al_1'' \<mapsto> ''5|2|5|0|0|3'', ''amm_shares'' \<mapsto> ''5'', ''amm_lc'' \<mapsto> ''9'', ''amm_hbd'' \<mapsto> ''8'']"

definition client_chain :: network where
  "client_chain = (rows_node client_rows)\<lparr>nt_engine := Some still_bridge, nt_height := served 121,
     nt_txs := (\<lambda>off n. served (Some (page_at n [example_call ''h:al'' ''add_liquidity'' ''9|8''] off)))\<rparr>"

lemma client_chain_serves: "serves_rows client_chain client_rows"
  by (simp add: serves_rows_def client_chain_def rows_node_def)

definition example_client :: "wallet_state client_env" where
  "example_client = \<lparr>ce_backend = magi_backend client_chain [] fresh_caches, ce_engine = Some still_bridge,
     ce_signer = Some (aioha_signer sample_env ''alice''), ce_now = 0\<rparr>"


lemma claim_all_only_mature_witness:
  "fst ` set (concat (map sent_calls (signed_by (claimAllMintRewards example_client) (fresh_client fresh_wallet)))) \<subseteq> {''claim_mint''}"
proof -
  have "ce_signer example_client = Some (aioha_signer sample_env ''alice'')" "en_user sample_env = Some ''alice''"
    by (simp_all add: example_client_def sample_env_def)
  from claim_all_only_mature [OF this, of "fresh_client fresh_wallet"] show ?thesis by fastforce
qed

lemma transfer_fields_witness:
  "\<exists>payload extra. transfer example_client ''bob'' ''0.00000007'' ''a|b'' = send example_client ''transfer'' payload no_options
    \<and> split_on (CHR ''|'') payload = [recipient ''bob'', ''7''] @ extra"
proof -
  have "toBaseUnitArg ''0.00000007'' = Inr ''7''" by code_simp
  from transfer_fields [OF this, of "''bob''" example_client "''a|b''"] show ?thesis by auto
qed

definition swapping_client :: "wallet_state client_env" where
  "swapping_client = example_client\<lparr>ce_backend := (ce_backend example_client)\<lparr>bk_magiPoolReserves := Some (\<lambda>_. Some (900000, 400000))\<rparr>\<rparr>"

lemma swapping_quote: "case quoteMagi (ce_backend swapping_client) ''HIVE'' ''HBD'' ''2'' of Inr (Some q) \<Rightarrow> True | _ \<Rightarrow> False"
  by code_simp

lemma magi_floor_enforced_witness:
  "\<exists>q m. quoteMagi (ce_backend swapping_client) ''HIVE'' ''HBD'' ''2'' = Inr (Some q)
    \<and> mgq_amountOutUnits (mge_quote q) * (10000 - 5000) < (m + 1) * 10000"
proof -
  obtain q where q: "quoteMagi (ce_backend swapping_client) ''HIVE'' ''HBD'' ''2'' = Inr (Some q)"
    using swapping_quote by (auto split: sum.splits option.splits)
  have g: "Option.bind (ce_signer swapping_client) sg_magiSwap = Some (signerMagiSwap sample_env)"
    by (simp add: swapping_client_def example_client_def aioha_signer_def)
  from magi_floor_enforced [OF g q, of 50] obtain m bps :: int where
    m: "mgq_amountOutUnits (mge_quote q) * (10000 - bps) < (m + 1) * 10000" "\<bar>of_int bps - 100 * (50::rat)\<bar> \<le> 1 / 2"
    by auto
  then have "bps = 5000" by linarith
  then show ?thesis using q m(1) by blast
qed

lemma example_tranches: "is_ok (allTranches example_client)"
  by code_simp

lemma all_tranches_exact_witness:
  "\<exists>ts. allTranches example_client = Inr ts \<and> sorted_wrt (\<lambda>a b. \<not> fl_less (ot_share a) (ot_share b)) ts"
proof -
  obtain ts where ts: "allTranches example_client = Inr ts" using example_tranches by (auto simp: is_ok_iff)
  then obtain ops where ops: "poolOps client_chain POOL_HISTORY_LIMIT = Inr ops"
    by (auto simp: allTranches_def Let_def rbind_Inr_iff example_client_def magi_backend_def)
  have "ce_backend example_client = magi_backend client_chain [] fresh_caches" by (simp add: example_client_def)
  from all_tranches_exact [OF this client_chain_serves ops ts] ts show ?thesis by blast
qed

end
