(* ===== verification/RegExp.thy ===== *)
theory RegExp
  imports JsRegex
begin

text \<open>
  Regular expressions with what 'String.replace', 'match' and 'split' need of them:
  capture groups, lazy repetition and assertions about the characters on either
  side of a position.  A position is the character before it, the rest of the
  string and the groups captured so far; the runs of an expression are the
  positions it can end at, in the order the engine tries them.  The part of an
  expression that needs none of this is an expression of JsRegex.
\<close>

section \<open>Matching with captures\<close>

datatype rx = XRe re | XAlt rx rx | XSeq rx rx | XStar rx | XLazy rx | XCap nat rx
  | XAt "char option \<Rightarrow> string \<Rightarrow> bool"

type_synonym rx_pos = "char option \<times> string \<times> (nat \<times> string) list"

abbreviation rest_of :: "rx_pos \<Rightarrow> string" where "rest_of m \<equiv> fst (snd m)"

text \<open>What lies between a string and one of its rests, and the character before
  the rest.\<close>

definition consumed :: "string \<Rightarrow> string \<Rightarrow> string" where
  "consumed s t = take (length s - length t) s"

definition before :: "char option \<Rightarrow> string \<Rightarrow> string \<Rightarrow> char option" where
  "before p s t = (if length t < length s then Some (s ! (length s - length t - 1)) else p)"

function runs :: "rx \<Rightarrow> rx_pos \<Rightarrow> rx_pos list" where
  "runs (XRe r) (p, s, c) = map (\<lambda>t. (before p s t, t, c)) (rests r s)"
| "runs (XAlt a b) m = runs a m @ runs b m"
| "runs (XSeq a b) m = concat (map (runs b) (filter (\<lambda>n. length (rest_of n) \<le> length (rest_of m)) (runs a m)))"
| "runs (XStar a) m =
     concat (map (runs (XStar a)) (filter (\<lambda>n. length (rest_of n) < length (rest_of m)) (runs a m))) @ [m]"
| "runs (XLazy a) m =
     m # concat (map (runs (XLazy a)) (filter (\<lambda>n. length (rest_of n) < length (rest_of m)) (runs a m)))"
| "runs (XCap k a) (p, s, c) = map (\<lambda>(q, t, d). (q, t, AList.update k (consumed s t) d)) (runs a (p, s, c))"
| "runs (XAt Q) (p, s, c) = (if Q p s then [(p, s, c)] else [])"
  by pat_completeness auto
termination by (relation "inv_image (less_than <*lex*> less_than) (\<lambda>(r, m). (length (rest_of m), size r))")
    (auto simp: le_less)

declare runs.simps(4) [simp del] runs.simps(5) [simp del]

text \<open>The constructs the source's expressions are written with.\<close>

definition XChr :: "(char \<Rightarrow> bool) \<Rightarrow> rx" where "XChr P = XRe (RChr P)"
definition XLit :: "string \<Rightarrow> rx" where "XLit s = XRe (RLit s)"
definition XOpt :: "rx \<Rightarrow> rx" where "XOpt a = XAlt a (XRe REps)"
definition XPlus :: "rx \<Rightarrow> rx" where "XPlus a = XSeq a (XStar a)"

fun XSeqs :: "rx list \<Rightarrow> rx" where
  "XSeqs [] = XRe REps"
| "XSeqs [a] = a"
| "XSeqs (a # b # bs) = XSeq a (XSeqs (b # bs))"

fun RAlts :: "re list \<Rightarrow> re" where
  "RAlts [] = RChr (\<lambda>c. False)"
| "RAlts [a] = a"
| "RAlts (a # b # bs) = RAlt a (RAlts (b # bs))"

definition any_char :: "char \<Rightarrow> bool" where "any_char c = True"
definition not_line_end :: "char \<Rightarrow> bool" where "not_line_end c = (c \<noteq> CHR 0x0A \<and> c \<noteq> CHR 0x0D)"
definition is_letter :: "char \<Rightarrow> bool" where
  "is_letter c = (let n = (of_char c :: nat) in (65 \<le> n \<and> n \<le> 90) \<or> (97 \<le> n \<and> n \<le> 122))"

definition bol :: rx where "bol = XAt (\<lambda>p s. case p of None \<Rightarrow> True | Some c \<Rightarrow> \<not> not_line_end c)"
definition eol :: rx where "eol = XAt (\<lambda>p s. at_eol s)"
definition start_of :: rx where "start_of = XAt (\<lambda>p s. p = None)"
definition end_of :: rx where "end_of = XAt (\<lambda>p s. s = [])"

section \<open>First match, replace and split\<close>

type_synonym caps = "nat \<Rightarrow> string"

definition group_of :: "(nat \<times> string) list \<Rightarrow> caps" where
  "group_of c k = (case map_of c k of None \<Rightarrow> [] | Some v \<Rightarrow> v)"

text \<open>'s.match(re)': the first position at which the expression matches, with the
  text matched and the groups.\<close>

fun match_from :: "rx \<Rightarrow> char option \<Rightarrow> string \<Rightarrow> (string \<times> caps) option" where
  "match_from r p s = (case runs r (p, s, []) of
     (q, t, c) # _ \<Rightarrow> Some (consumed s t, group_of c)
   | [] \<Rightarrow> (case s of [] \<Rightarrow> None | x # u \<Rightarrow> match_from r (Some x) u))"

declare match_from.simps [simp del]

definition rx_match :: "rx \<Rightarrow> string \<Rightarrow> (string \<times> caps) option" where
  "rx_match r s = match_from r None s"

definition rx_test :: "rx \<Rightarrow> string \<Rightarrow> bool" where
  "rx_test r s = (rx_match r s \<noteq> None)"

text \<open>'s.replace(re, f)' with the g flag, the callback reading and updating a state of
  its own; an empty match is replaced and the next character kept.\<close>

function replace_from :: "rx \<Rightarrow> ('s \<Rightarrow> string \<Rightarrow> caps \<Rightarrow> string \<times> 's) \<Rightarrow> char option \<Rightarrow> string \<Rightarrow> 's \<Rightarrow> string \<times> 's" where
  "replace_from r f p s st = (case runs r (p, s, []) of
     (q, t, c) # _ \<Rightarrow>
       if length t < length s then
         (case f st (consumed s t) (group_of c) of (out, st1) \<Rightarrow>
            (case replace_from r f q t st1 of (more, st2) \<Rightarrow> (out @ more, st2)))
       else (case f st [] (group_of c) of (out, st1) \<Rightarrow>
         (case s of [] \<Rightarrow> (out, st1)
          | x # u \<Rightarrow> (case replace_from r f (Some x) u st1 of (more, st2) \<Rightarrow> (out @ x # more, st2))))
   | [] \<Rightarrow> (case s of [] \<Rightarrow> ([], st)
          | x # u \<Rightarrow> (case replace_from r f (Some x) u st of (more, st2) \<Rightarrow> (x # more, st2))))"
  by pat_completeness auto
termination by (relation "measure (\<lambda>(r, f, p, s, st). length s)") auto

declare replace_from.simps [simp del]

definition replace_with :: "rx \<Rightarrow> ('s \<Rightarrow> string \<Rightarrow> caps \<Rightarrow> string \<times> 's) \<Rightarrow> string \<Rightarrow> 's \<Rightarrow> string \<times> 's" where
  "replace_with r f s st = replace_from r f None s st"

definition replace_all :: "rx \<Rightarrow> (string \<Rightarrow> caps \<Rightarrow> string) \<Rightarrow> string \<Rightarrow> string" where
  "replace_all r f s = fst (replace_from r (\<lambda>_ m g. (f m g, ())) None s ())"

text \<open>Without the g flag only the first match is replaced.\<close>

fun replace_once_from :: "rx \<Rightarrow> (string \<Rightarrow> caps \<Rightarrow> string) \<Rightarrow> char option \<Rightarrow> string \<Rightarrow> string" where
  "replace_once_from r f p s = (case runs r (p, s, []) of
     (q, t, c) # _ \<Rightarrow> f (consumed s t) (group_of c) @ t
   | [] \<Rightarrow> (case s of [] \<Rightarrow> [] | x # u \<Rightarrow> x # replace_once_from r f (Some x) u))"

declare replace_once_from.simps [simp del]

definition replace_once :: "rx \<Rightarrow> (string \<Rightarrow> caps \<Rightarrow> string) \<Rightarrow> string \<Rightarrow> string" where
  "replace_once r f s = replace_once_from r f None s"

text \<open>'s.replaceAll' of one character, which 'replace' of a one-character expression
  with the g flag is.\<close>

definition gsub :: "char \<Rightarrow> string \<Rightarrow> string \<Rightarrow> string" where
  "gsub c t s = concat (map (\<lambda>x. if x = c then t else [x]) s)"

text \<open>'s.split(re)' for an expression without groups that matches no empty string.\<close>

function split_from :: "rx \<Rightarrow> char option \<Rightarrow> string \<Rightarrow> string list" where
  "split_from r p s = (case s of [] \<Rightarrow> [[]]
   | x # u \<Rightarrow> (case runs r (p, s, []) of
       (q, t, c) # _ \<Rightarrow>
         if length t < length s then [] # split_from r q t
         else (case split_from r (Some x) u of [] \<Rightarrow> [[x]] | y # ys \<Rightarrow> (x # y) # ys)
     | [] \<Rightarrow> (case split_from r (Some x) u of [] \<Rightarrow> [[x]] | y # ys \<Rightarrow> (x # y) # ys)))"
  by pat_completeness auto
termination by (relation "measure (\<lambda>(r, p, s). length s)") auto

declare split_from.simps [simp del]

definition rx_split :: "rx \<Rightarrow> string \<Rightarrow> string list" where
  "rx_split r s = split_from r None s"

section \<open>What runs and replacements are made of\<close>

lemma consumed_append [simp]: "consumed (u @ t) t = u"
  by (simp add: consumed_def)

lemma runs_suffix: "n \<in> set (runs r m) \<Longrightarrow> \<exists>u. rest_of m = u @ rest_of n"
proof (induction r m arbitrary: n rule: runs.induct)
  case (1 r p s c)
  then show ?case using rests_suffix by auto
next
  case (3 a b m)
  then obtain v where v: "v \<in> set (runs a m)" "length (rest_of v) \<le> length (rest_of m)" "n \<in> set (runs b v)" by auto
  obtain u where "rest_of m = u @ rest_of v" using "3.IH"(1) v by blast
  moreover have "\<exists>w. rest_of v = w @ rest_of n" by (rule "3.IH"(2)) (use v in auto)
  ultimately show ?case by auto
next
  case (4 a m)
  then consider "n = m" | v where "v \<in> set (runs a m)" "length (rest_of v) < length (rest_of m)" "n \<in> set (runs (XStar a) v)"
    by (auto simp: runs.simps(4) [of a m])
  then show ?case
  proof cases
    case 2
    obtain u where "rest_of m = u @ rest_of v" using "4.IH"(1) 2 by blast
    moreover have "\<exists>w. rest_of v = w @ rest_of n" by (rule "4.IH"(2)) (use 2 in auto)
    ultimately show ?thesis by auto
  qed simp
next
  case (5 a m)
  then consider "n = m" | v where "v \<in> set (runs a m)" "length (rest_of v) < length (rest_of m)" "n \<in> set (runs (XLazy a) v)"
    by (auto simp: runs.simps(5) [of a m])
  then show ?case
  proof cases
    case 2
    obtain u where "rest_of m = u @ rest_of v" using "5.IH"(1) 2 by blast
    moreover have "\<exists>w. rest_of v = w @ rest_of n" by (rule "5.IH"(2)) (use 2 in auto)
    ultimately show ?thesis by auto
  qed simp
qed (auto split: if_splits)

text \<open>A replaced string is a sequence of pieces, each a character of the original or
  what the callback returned for one match.\<close>

definition replaced :: "rx \<Rightarrow> (string \<Rightarrow> caps \<Rightarrow> string) \<Rightarrow> char option \<Rightarrow> string \<Rightarrow> string" where
  "replaced r f p s = fst (replace_from r (\<lambda>_ m g. (f m g, ())) p s ())"

lemma replaced_no_match:
  "runs r (p, s, []) = [] \<Longrightarrow> replaced r f p s = (case s of [] \<Rightarrow> [] | x # u \<Rightarrow> x # replaced r f (Some x) u)"
  by (simp add: replaced_def replace_from.simps [of r _ p s] split_beta split: list.splits)

lemma replaced_match:
  "runs r (p, s, []) = (q, t, c) # ns \<Longrightarrow> replaced r f p s =
    (if length t < length s then f (consumed s t) (group_of c) @ replaced r f q t
     else f [] (group_of c) @ (case s of [] \<Rightarrow> [] | x # u \<Rightarrow> x # replaced r f (Some x) u))"
  by (simp add: replaced_def replace_from.simps [of r _ p s] split_beta split: list.splits)

lemma replace_all_replaced: "replace_all r f s = replaced r f None s"
  by (simp add: replace_all_def replaced_def)

definition made_of :: "(string \<Rightarrow> bool) \<Rightarrow> string \<Rightarrow> bool" where
  "made_of P s = (\<exists>ps. s = concat ps \<and> list_all P ps)"

lemma made_of_Nil [simp, intro]: "made_of P []"
  unfolding made_of_def by (intro exI [of _ "[]"]) simp

lemma made_of_piece: "P s \<Longrightarrow> made_of P s"
  unfolding made_of_def by (intro exI [of _ "[s]"]) simp

lemma made_of_append [intro]: "made_of P s \<Longrightarrow> made_of P t \<Longrightarrow> made_of P (s @ t)"
  unfolding made_of_def
proof (elim exE conjE)
  fix ps qs
  assume "s = concat ps" "list_all P ps" "t = concat qs" "list_all P qs"
  then show "\<exists>rs. s @ t = concat rs \<and> list_all P rs" by (intro exI [of _ "ps @ qs"]) simp
qed

lemma made_of_Cons: "P [x] \<Longrightarrow> made_of P s \<Longrightarrow> made_of P (x # s)"
  using made_of_append [OF made_of_piece, of P "[x]" s] by simp

lemma made_of_mono: "made_of P s \<Longrightarrow> (\<And>x. P x \<Longrightarrow> Q x) \<Longrightarrow> made_of Q s"
  unfolding made_of_def by (auto simp: list_all_iff)

lemma replaced_made_of:
  "(\<And>c. c \<in> set s \<Longrightarrow> P [c]) \<Longrightarrow> (\<And>m g. made_of P (f m g)) \<Longrightarrow> made_of P (replaced r f p s)"
proof (induction "length s" arbitrary: p s rule: less_induct)
  case less
  have tail: "made_of P (case s of [] \<Rightarrow> [] | x # u \<Rightarrow> x # replaced r f (Some x) u)"
  proof (cases s)
    case (Cons x u)
    then have "made_of P (replaced r f (Some x) u)" by (intro less.hyps) (use less.prems in auto)
    then show ?thesis using Cons less.prems(1) by (auto intro: made_of_Cons)
  qed simp
  show ?case
  proof (cases "runs r (p, s, [])")
    case Nil
    then show ?thesis using tail by (simp add: replaced_no_match)
  next
    case (Cons n ns)
    obtain q t c where n: "n = (q, t, c)" by (cases n)
    have "set t \<subseteq> set s" using runs_suffix [of n r "(p, s, [])"] Cons n by auto
    then have "length t < length s \<Longrightarrow> made_of P (replaced r f q t)"
      by (intro less.hyps) (use less.prems in auto)
    then have "made_of P (if length t < length s then f (consumed s t) (group_of c) @ replaced r f q t
        else f [] (group_of c) @ (case s of [] \<Rightarrow> [] | x # u \<Rightarrow> x # replaced r f (Some x) u))"
      using made_of_append [OF less.prems(2)] tail by simp
    then show ?thesis using Cons n by (simp only: replaced_match)
  qed
qed

lemma replace_all_made_of:
  "(\<And>c. c \<in> set s \<Longrightarrow> P [c]) \<Longrightarrow> (\<And>m g. made_of P (f m g)) \<Longrightarrow> made_of P (replace_all r f s)"
  unfolding replace_all_replaced by (rule replaced_made_of)


section \<open>What an expression matches\<close>

named_theorems rx_mem \<open>the rests and runs of each construct, as sets\<close>

lemma rests_RSeq [rx_mem]: "t \<in> set (rests (RSeq a b) s) \<longleftrightarrow> (\<exists>v \<in> set (rests a s). t \<in> set (rests b v))"
  using rests_suffix by fastforce

lemma rests_RChr [rx_mem]: "t \<in> set (rests (RChr P) s) \<longleftrightarrow> (\<exists>c. s = c # t \<and> P c)"
  by (cases s) auto

lemma rests_RAlt [rx_mem]: "t \<in> set (rests (RAlt a b) s) \<longleftrightarrow> t \<in> set (rests a s) \<or> t \<in> set (rests b s)"
  by simp

lemma rests_REps [rx_mem]: "t \<in> set (rests REps s) \<longleftrightarrow> t = s"
  by auto

lemma rests_ROpt [rx_mem]: "t \<in> set (rests (ROpt a) s) \<longleftrightarrow> t \<in> set (rests a s) \<or> t = s"
  by (auto simp: ROpt_def)

lemma rests_star_chars [rx_mem]: "t \<in> set (rests (RStar (RChr P)) s) \<longleftrightarrow> (\<exists>u. s = u @ t \<and> list_all P u)"
proof (induction s)
  case Nil
  then show ?case by (auto simp: rests.simps(5) [of _ "[]"])
next
  case (Cons x s)
  have "t \<in> set (rests (RStar (RChr P)) (x # s)) \<longleftrightarrow> t = x # s \<or> P x \<and> t \<in> set (rests (RStar (RChr P)) s)"
    by (auto simp: rests.simps(5) [of _ "x # s"])
  also have "\<dots> \<longleftrightarrow> (\<exists>u. x # s = u @ t \<and> list_all P u)"
    unfolding Cons.IH by (auto simp: Cons_eq_append_conv)
  finally show ?case .
qed

lemma rests_plus_chars [rx_mem]:
  "t \<in> set (rests (RPlus (RChr P)) s) \<longleftrightarrow> (\<exists>u. s = u @ t \<and> u \<noteq> [] \<and> list_all P u)"
  by (auto simp: RPlus_def rests_RSeq rests_RChr rests_star_chars neq_Nil_conv)

lemma rests_RSeqs [rx_mem]:
  "t \<in> set (rests (RSeqs (a # b # bs)) s) \<longleftrightarrow> (\<exists>v \<in> set (rests a s). t \<in> set (rests (RSeqs (b # bs)) v))"
  by (simp only: RSeqs.simps rests_RSeq)

lemma rests_chars: "t \<in> set (rests (RSeqs (map RChr Ps)) s) \<longleftrightarrow> (\<exists>u. s = u @ t \<and> list_all2 (\<lambda>P c. P c) Ps u)"
proof (induction Ps arbitrary: s)
  case Nil
  then show ?case by (auto simp: rests_REps)
next
  case (Cons P Ps)
  show ?case
  proof (cases Ps)
    case Nil
    then show ?thesis by (auto simp: rests_RChr list_all2_Cons1)
  next
    case (Cons Q Qs)
    have "t \<in> set (rests (RSeqs (map RChr (P # Ps))) s) \<longleftrightarrow> (\<exists>c v. s = c # v \<and> P c \<and> (\<exists>u. v = u @ t \<and> list_all2 (\<lambda>P c. P c) Ps u))"
      unfolding Cons.IH [symmetric] by (simp add: Cons rests_RSeq del: rests.simps) (auto simp: rests_RChr)
    then show ?thesis by (auto simp: list_all2_Cons1)
  qed
qed

lemma rests_RLit [rx_mem]: "t \<in> set (rests (RLit l) s) \<longleftrightarrow> s = l @ t"
proof -
  have "list_all2 (\<lambda>P c. P c) (map (\<lambda>c d. d = c) l) u \<longleftrightarrow> u = l" for u
    by (auto simp: list_all2_map1 list_all2_conv_all_nth list_eq_iff_nth_eq)
  then show ?thesis using rests_chars [of t "map (\<lambda>c d. d = c) l" s]
    by (simp add: RLit_def comp_def)
qed

lemma rests_RLitI [rx_mem]:
  "t \<in> set (rests (RLitI l) s) \<longleftrightarrow> (\<exists>u. s = u @ t \<and> map to_lower u = map to_lower l)"
proof -
  have "list_all2 (\<lambda>P c. P c) (map (\<lambda>c d. to_lower d = to_lower c) l) u \<longleftrightarrow> map to_lower u = map to_lower l" for u
    by (auto simp: list_all2_map1 list_all2_conv_all_nth list_eq_iff_nth_eq)
  then show ?thesis using rests_chars [of t "map (\<lambda>c d. to_lower d = to_lower c) l" s]
    by (simp add: RLitI_def comp_def)
qed

lemma runs_XSeq: "n \<in> set (runs (XSeq a b) m) \<longleftrightarrow> (\<exists>v \<in> set (runs a m). n \<in> set (runs b v))"
  using runs_suffix by fastforce

lemma runs_XSeqs [rx_mem]:
  "n \<in> set (runs (XSeqs (a # b # bs)) m) \<longleftrightarrow> (\<exists>v \<in> set (runs a m). n \<in> set (runs (XSeqs (b # bs)) v))"
  by (simp only: XSeqs.simps runs_XSeq)

declare runs_XSeq [rx_mem]

lemma runs_XRe [rx_mem]: "(q, t, d) \<in> set (runs (XRe r) (p, s, c)) \<longleftrightarrow> t \<in> set (rests r s) \<and> q = before p s t \<and> d = c"
  by auto

lemma runs_XLit [rx_mem]: "(q, t, d) \<in> set (runs (XLit l) (p, s, c)) \<longleftrightarrow> s = l @ t \<and> q = before p s t \<and> d = c"
  by (simp add: XLit_def runs_XRe rests_RLit del: runs.simps)

lemma runs_XCap [rx_mem]:
  "(q, t, d) \<in> set (runs (XCap k a) (p, s, c)) \<longleftrightarrow>
    (\<exists>e. (q, t, e) \<in> set (runs a (p, s, c)) \<and> d = AList.update k (consumed s t) e)"
  by (force simp: image_iff)

lemma runs_XAlt [rx_mem]: "n \<in> set (runs (XAlt a b) m) \<longleftrightarrow> n \<in> set (runs a m) \<or> n \<in> set (runs b m)"
  by simp

lemma runs_XAt [rx_mem]: "(q, t, d) \<in> set (runs (XAt Q) (p, s, c)) \<longleftrightarrow> Q p s \<and> q = p \<and> t = s \<and> d = c"
  by auto

lemma runs_XSeqs_Cons:
  "bs \<noteq> [] \<Longrightarrow> n \<in> set (runs (XSeqs (a # bs)) m) \<longleftrightarrow> (\<exists>w \<in> set (runs a m). n \<in> set (runs (XSeqs bs) w))"
  by (cases bs) (simp, simp only: runs_XSeqs)

lemma runs_XSeqs_last:
  "n \<in> set (runs (XSeqs (as @ [z])) m) \<Longrightarrow> \<exists>v u. rest_of m = u @ rest_of v \<and> n \<in> set (runs z v)"
proof (induction as arbitrary: m)
  case Nil
  then have "rest_of m = [] @ rest_of m \<and> n \<in> set (runs z m)" by simp
  then show ?case by blast
next
  case (Cons a as)
  obtain w where w: "w \<in> set (runs a m)" "n \<in> set (runs (XSeqs (as @ [z])) w)"
    using Cons.prems runs_XSeqs_Cons [of "as @ [z]" n a m] by auto
  obtain v u where "rest_of w = u @ rest_of v" "n \<in> set (runs z v)" using Cons.IH [OF w(2)] by blast
  moreover obtain x where "rest_of m = x @ rest_of w" using runs_suffix [OF w(1)] by blast
  ultimately show ?case by (intro exI [of _ v] exI [of _ "x @ u"]) simp
qed

end
