(* ===== verification/Markdown.thy ===== *)
theory Markdown
  imports RegExp
begin

text \<open>
  The one renderer of post bodies (src/web/src/lib/markdown.ts): escaping, safe
  URLs, the covers and excerpts of the feed, the HTML tags re-admitted from an
  allowlist, and 'renderMarkdown' with its passes in their order.  A pass is
  'replace' with a regular expression, as the source writes it; the passes that
  set blocks aside thread the list of blocks.
\<close>

section \<open>Escaping and URLs\<close>

definition dquote :: char where "dquote = CHR 0x22"
definition squote :: char where "squote = CHR 0x27"
definition bslash :: char where "bslash = CHR 0x5C"
definition nline :: char where "nline = CHR 0x0A"

text \<open>A text in double quotes, for the attributes of the tags below.\<close>

definition quoted :: "string \<Rightarrow> string" where "quoted s = dquote # s @ [dquote]"

definition esc :: "string \<Rightarrow> string" where
  "esc s = gsub dquote ''&quot;'' (gsub (CHR ''>'') ''&gt;'' (gsub (CHR ''<'') ''&lt;'' (gsub (CHR ''&'') ''&amp;'' s)))"

definition url_char :: "char \<Rightarrow> bool" where
  "url_char c = (\<not> is_space c \<and> c \<noteq> CHR ''<'' \<and> c \<noteq> CHR ''>'' \<and> c \<noteq> dquote \<and> c \<noteq> squote \<and> c \<noteq> bslash)"

definition SAFE_URL :: re where
  "SAFE_URL = RSeqs [RLitI ''http'', ROpt (RLitI ''s''), RLit ''://'', RPlus (RChr url_char)]"

definition safeUrl :: "string \<Rightarrow> string option" where
  "safeUrl url = (let u = js_trim url in if re_full SAFE_URL u then Some u else None)"

text \<open>A link destination with its backslash escapes, and the escapes dropped.\<close>

definition DEST :: rx where
  "DEST = XCap 2 (XRe (RPlus (RAlt (RSeq (RChr (\<lambda>c. c = bslash)) (RChr not_line_end))
     (RChr (\<lambda>c. c \<noteq> CHR '')'' \<and> \<not> is_space c)))))"

definition is_punct :: "char \<Rightarrow> bool" where
  "is_punct c = (let n = (of_char c :: nat) in (33 \<le> n \<and> n \<le> 47) \<or> (58 \<le> n \<and> n \<le> 64) \<or> (91 \<le> n \<and> n \<le> 96) \<or> (123 \<le> n \<and> n \<le> 126))"

definition unescapeDest :: "string \<Rightarrow> string" where
  "unescapeDest dest = replace_all (XSeq (XLit [bslash]) (XCap 1 (XChr is_punct))) (\<lambda>_ g. g 1) dest"

definition yt_char :: "char \<Rightarrow> bool" where
  "yt_char c = (is_word c \<or> c = CHR ''-'')"

definition YOUTUBE :: rx where
  "YOUTUBE = XSeq
     (XRe (RAlts [RSeq (RLit ''youtube.com/'') (RAlts
        [RSeqs [RLit ''watch?'', ROpt (RSeq (RStar (RChr not_line_end)) (RLit ''&'')), RLit ''v=''], RLit ''embed/'', RLit ''shorts/'']),
        RLit ''youtu.be/'']))
     (XCap 1 (XRe (RSeqs (replicate 11 (RChr yt_char)))))"

definition youtubeId :: "string \<Rightarrow> string option" where
  "youtubeId url = map_option (\<lambda>(m, g). g 1) (rx_match YOUTUBE url)"

section \<open>Covers and excerpts\<close>

definition HTTP :: re where
  "HTTP = RSeqs [RLit ''http'', ROpt (RLit ''s''), RLit ''://'']"

definition HTTP_I :: re where
  "HTTP_I = RSeqs [RLitI ''http'', ROpt (RLitI ''s''), RLit ''://'']"

definition MD_IMAGE :: rx where
  "MD_IMAGE = XSeqs [XLit ''!['', XCap 1 (XRe (RStar (RChr (\<lambda>c. c \<noteq> CHR '']'')))), XLit ''](''  , DEST, XLit '')'']"

definition IMAGE_URL :: re where
  "IMAGE_URL = RSeqs [HTTP_I, RPlus (RChr not_space), RLit ''.'',
     RAlts [RLitI ''png'', RSeqs [RLitI ''jp'', ROpt (RLitI ''e''), RLitI ''g''], RLitI ''gif'', RLitI ''webp'', RLitI ''avif''],
     ROpt (RSeq (RLit ''?'') (RStar (RChr not_space)))]"

definition YT_LINK :: re where
  "YT_LINK = RSeqs [RStar (RChr not_space), RAlt (RLit ''youtube.com'') (RLit ''youtu.be''), RLit ''/'', RPlus (RChr not_space)]"

definition cover_of_body :: "string \<Rightarrow> string option" where
  "cover_of_body body = (case rx_match MD_IMAGE body of
     Some (_, g) \<Rightarrow> safeUrl (unescapeDest (g 2))
   | None \<Rightarrow> (case rx_match (XRe IMAGE_URL) body of
       Some (m, _) \<Rightarrow> safeUrl (unescapeDest m)
     | None \<Rightarrow> (case rx_match (XRe YT_LINK) body of
         Some (m, _) \<Rightarrow> map_option (\<lambda>i. ''https://img.youtube.com/vi/'' @ i @ ''/hqdefault.jpg'') (youtubeId m)
       | None \<Rightarrow> None)))"

text \<open>A parenthesised part in which a backslash takes the next character with it.\<close>

definition PAREN_BODY :: re where
  "PAREN_BODY = RStar (RAlt (RSeq (RChr (\<lambda>c. c = bslash)) (RChr not_line_end)) (RChr (\<lambda>c. c \<noteq> CHR '')'')))"

definition trim_end :: "string \<Rightarrow> string" where
  "trim_end s = rev (dropWhile is_space (rev s))"

definition flatten_markup :: "string \<Rightarrow> string" where
  "flatten_markup body = js_trim
     (replace_all (XRe (RPlus (RChr is_space))) (\<lambda>_ _. '' '')
     (replace_all (XChr (\<lambda>c. c \<in> set (''#*>_~-'' @ [CHR 0x60]))) (\<lambda>_ _. [])
     (replace_all (XRe (RSeq HTTP (RPlus (RChr not_space)))) (\<lambda>_ _. [])
     (replace_all (XSeqs [XLit ''['', XCap 1 (XRe (RStar (RChr (\<lambda>c. c \<noteq> CHR '']'')))), XLit ''](''  , XRe PAREN_BODY, XLit '')'']) (\<lambda>_ g. g 1)
     (replace_all (XRe (RSeqs [RLit ''!['', RStar (RChr (\<lambda>c. c \<noteq> CHR '']'')), RLit ''](''  , PAREN_BODY, RLit '')''])) (\<lambda>_ _. [])
     (replace_all (XRe (RSeqs [RLit ''<'', RStar (RChr (\<lambda>c. c \<noteq> CHR ''>'')), RLit ''>''])) (\<lambda>_ _. '' '')
     (replace_all (XSeqs [XLit ''<!--'', XLazy (XChr any_char), XLit ''-->'']) (\<lambda>_ _. '' '') body)))))))"

text \<open>The ellipsis is one character to the source, here its three bytes.\<close>

definition ellipsis :: string where "ellipsis = [CHR 0xE2, CHR 0x80, CHR 0xA6]"

definition excerpt :: "string \<Rightarrow> nat \<Rightarrow> string" where
  "excerpt body limit = (let text = flatten_markup body in
     if limit < length text then trim_end (take limit text) @ ellipsis else text)"

section \<open>Tags re-admitted from an allowlist\<close>

definition ALLOWED :: "string list" where
  "ALLOWED = [''b'', ''strong'', ''i'', ''em'', ''u'', ''s'', ''sup'', ''sub'', ''small'', ''mark'',
     ''p'', ''br'', ''hr'', ''div'', ''span'', ''center'', ''blockquote'', ''pre'', ''code'',
     ''h1'', ''h2'', ''h3'', ''h4'', ''h5'', ''h6'',
     ''ul'', ''ol'', ''li'', ''table'', ''thead'', ''tbody'', ''tfoot'', ''tr'', ''td'', ''th'',
     ''a'', ''img'']"

definition VOID :: "string list" where
  "VOID = [''br'', ''hr'', ''img'']"

definition un_amp :: "string \<Rightarrow> string" where
  "un_amp s = replace_all (XLit ''&amp;'') (\<lambda>_ _. ''&'') s"

text \<open>One attribute value out of an escaped attribute string; an empty value does not
  count as found.\<close>

definition attr_forms :: "string \<Rightarrow> rx list" where
  "attr_forms nm = (let lead = XRe (RSeqs [RLitI nm, RStar (RChr is_space), RLit ''='', RStar (RChr is_space)]) in
     [XSeqs [lead, XRe (RLitI ''&quot;''), XCap 1 (XLazy (XChr any_char)), XRe (RLitI ''&quot;'')],
      XSeqs [lead, XLit [squote], XCap 1 (XRe (RStar (RChr (\<lambda>c. c \<noteq> squote)))), XLit [squote]],
      XSeq lead (XCap 1 (XRe (RPlus (RChr not_space))))])"

fun attr_in :: "rx list \<Rightarrow> string \<Rightarrow> string option" where
  "attr_in [] raw = None"
| "attr_in (r # rs) raw = (case rx_match r raw of
     Some (_, g) \<Rightarrow> if g 1 \<noteq> [] then Some (un_amp (un_amp (g 1))) else attr_in rs raw
   | None \<Rightarrow> attr_in rs raw)"

definition attr :: "string \<Rightarrow> string \<Rightarrow> string option" where
  "attr raw nm = attr_in (attr_forms nm) raw"

definition ESCAPED_TAG :: rx where
  "ESCAPED_TAG = XSeqs [XLit ''&lt;'', XCap 1 (XOpt (XLit ''/'')), XRe (RStar (RChr is_space)),
     XCap 2 (XRe (RSeq (RChr is_letter) (RStar (RChr (\<lambda>c. is_letter c \<or> is_digit c))))),
     XCap 3 (XLazy (XChr any_char)), XLit ''&gt;'']"

definition safe_attr :: "string \<Rightarrow> string \<Rightarrow> string option" where
  "safe_attr raw nm = (case attr raw nm of None \<Rightarrow> None | Some v \<Rightarrow> safeUrl v)"

definition admit_tag :: "string \<Rightarrow> string \<Rightarrow> string \<Rightarrow> string" where
  "admit_tag close rawName rawAttrs = (let tag = map to_lower rawName in
     if tag \<notin> set ALLOWED then []
     else if close \<noteq> [] then (if tag \<in> set VOID then [] else ''</'' @ tag @ ''>'')
     else if tag = ''a'' then (case safe_attr rawAttrs ''href'' of
         Some u \<Rightarrow> ''<a href='' @ quoted (esc u) @ '' rel='' @ quoted ''nofollow noopener ugc'' @ '' target='' @ quoted ''_blank'' @ ''>''
       | None \<Rightarrow> [])
     else if tag = ''img'' then (case safe_attr rawAttrs ''src'' of
         Some u \<Rightarrow> ''<img src='' @ quoted (esc u) @ '' alt='' @ quoted [] @ '' loading='' @ quoted ''lazy'' @ '' />''
       | None \<Rightarrow> [])
     else if tag \<in> set VOID then ''<'' @ tag @ '' />'' else ''<'' @ tag @ ''>'')"

definition admitHtml :: "string \<Rightarrow> string" where
  "admitHtml html = replace_all ESCAPED_TAG (\<lambda>_ g. admit_tag (g 1) (g 2) (g 3)) html"

section \<open>The passes of the renderer\<close>

definition FENCE :: rx where
  "FENCE = XSeqs [XLit (replicate 3 (CHR 0x60)), XRe (RStar (RChr yt_char)), XRe (ROpt (RLit [nline])),
     XCap 1 (XLazy (XChr any_char)), XLit (replicate 3 (CHR 0x60))]"

definition code_block :: "string \<Rightarrow> string" where
  "code_block code = ''<pre><code>'' @ esc (replace_once (XSeq (XLit [nline]) end_of) (\<lambda>_ _. []) code) @ ''</code></pre>''"

definition pull_fences :: "string \<Rightarrow> string \<times> string list" where
  "pull_fences md = replace_with FENCE (\<lambda>blocks _ g.
     ('' @@CODE'' @ show_nat (length blocks) @ ''@@ '', blocks @ [code_block (g 1)])) md []"

definition hold :: "string list \<Rightarrow> string \<Rightarrow> string \<times> string list" where
  "hold blocks html = ([nline, nline] @ '' @@BLOCK'' @ show_nat (length blocks) @ ''@@ '' @ [nline, nline], blocks @ [html])"

definition image_tag :: "string \<Rightarrow> string \<Rightarrow> string" where
  "image_tag u alt = ''<img src='' @ quoted u @ '' alt='' @ quoted alt @ '' loading='' @ quoted ''lazy'' @ '' />''"

definition pull_images :: "string \<Rightarrow> string list \<Rightarrow> string \<times> string list" where
  "pull_images src blocks = replace_with MD_IMAGE (\<lambda>bs m g. case safeUrl (unescapeDest (g 2)) of
     Some u \<Rightarrow> hold bs (image_tag u (g 1)) | None \<Rightarrow> (m, bs)) src blocks"

definition youtube_embed :: "string \<Rightarrow> string" where
  "youtube_embed i = ''<div class='' @ quoted ''embed'' @ ''><iframe src='' @ quoted (''https://www.youtube.com/embed/'' @ i) @ '' ''
     @ ''title='' @ quoted ''YouTube video'' @ '' frameborder='' @ quoted ''0'' @ '' loading='' @ quoted ''lazy'' @ '' ''
     @ ''allow='' @ quoted ''accelerometer; autoplay; clipboard-write; encrypted-media; gyroscope; picture-in-picture'' @ '' ''
     @ ''allowfullscreen></iframe></div>''"

definition YT_URL :: rx where
  "YT_URL = XRe (RSeqs [HTTP_I, RStar (RChr not_space), RAlt (RLitI ''youtube.com'') (RLitI ''youtu.be''), RLit ''/'', RPlus (RChr not_space)])"

definition pull_videos :: "string \<Rightarrow> string list \<Rightarrow> string \<times> string list" where
  "pull_videos src blocks = replace_with YT_URL (\<lambda>bs m g. case youtubeId m of
     Some i \<Rightarrow> hold bs (youtube_embed i) | None \<Rightarrow> (m, bs)) src blocks"

definition is_blank :: "char \<Rightarrow> bool" where "is_blank c = (c = CHR '' '' \<or> c = CHR 0x09)"

definition BARE_IMAGE :: rx where
  "BARE_IMAGE = XSeqs [bol, XRe (RStar (RChr is_blank)), XCap 1 (XRe IMAGE_URL), XRe (RStar (RChr is_blank)), eol]"

definition pull_bare_images :: "string \<Rightarrow> string list \<Rightarrow> string \<times> string list" where
  "pull_bare_images src blocks = replace_with BARE_IMAGE (\<lambda>bs m g. case safeUrl (unescapeDest (g 1)) of
     Some u \<Rightarrow> hold bs (image_tag u []) | None \<Rightarrow> (m, bs)) src blocks"

definition anchor_char :: "char \<Rightarrow> bool" where
  "anchor_char c = (is_digit c \<or> (97 \<le> (of_char c :: nat) \<and> (of_char c :: nat) \<le> 122))"

definition slug :: "string \<Rightarrow> string" where
  "slug text = take 60
     (replace_all (XAlt (XSeq start_of (XRe (RPlus (RLit ''-'')))) (XSeq (XRe (RPlus (RLit ''-''))) end_of)) (\<lambda>_ _. [])
     (replace_all (XRe (RPlus (RChr (\<lambda>c. \<not> anchor_char c)))) (\<lambda>_ _. ''-'')
     (replace_all (XRe (RSeqs [RLit ''<'', RStar (RChr (\<lambda>c. c \<noteq> CHR ''>'')), RLit ''>''])) (\<lambda>_ _. '' '')
     (replace_all (XRe (RSeqs [RLit ''&'', RPlus (RChr (\<lambda>c. 97 \<le> (of_char c :: nat) \<and> (of_char c :: nat) \<le> 122)), RLit '';''])) (\<lambda>_ _. '' '')
       (map to_lower text)))))"

text \<open>A line that starts with a marker, its rest captured.\<close>

definition LINE :: "re \<Rightarrow> rx" where
  "LINE marker = XSeqs [bol, XRe marker, XCap 1 (XRe (RStar (RChr not_line_end))), eol]"

definition wrap :: "string \<Rightarrow> string \<Rightarrow> string" where
  "wrap tag s = ''<'' @ tag @ ''>'' @ s @ ''</'' @ tag @ ''>''"

definition anchored :: "string \<Rightarrow> string \<Rightarrow> string" where
  "anchored tag t = ''<'' @ tag @ '' id='' @ quoted (slug t) @ ''>'' @ t @ ''</'' @ tag @ ''>''"

definition mark_lines :: "string \<Rightarrow> string" where
  "mark_lines src =
     replace_all (XSeqs [bol, XRe (RSeq (RLit ''--'') (RPlus (RLit ''-''))), eol]) (\<lambda>_ _. ''<hr />'')
    (replace_all (LINE (RSeq (RLit ''&gt;'') (ROpt (RLit '' '')))) (\<lambda>_ g. wrap ''blockquote'' (g 1))
    (replace_all (LINE (RLit ''# '')) (\<lambda>_ g. wrap ''h1'' (g 1))
    (replace_all (LINE (RLit ''## '')) (\<lambda>_ g. anchored ''h2'' (g 1))
    (replace_all (LINE (RLit ''### '')) (\<lambda>_ g. anchored ''h3'' (g 1))
    (replace_all (LINE (RLit ''#### '')) (\<lambda>_ g. wrap ''h4'' (g 1))
    (replace_all (LINE (RLit ''##### '')) (\<lambda>_ g. wrap ''h5'' (g 1))
    (replace_all (LINE (RLit ''###### '')) (\<lambda>_ g. wrap ''h6'' (g 1)) src)))))))"

definition STRONG :: rx where
  "STRONG = XSeqs [XLit ''**'', XCap 1 (XRe (RPlus (RChr (\<lambda>c. c \<noteq> CHR ''*'')))), XLit ''**'']"

definition EM :: rx where
  "EM = XSeqs [XCap 1 (XAlt start_of (XChr (\<lambda>c. c \<noteq> CHR ''*''))), XLit ''*'',
     XCap 2 (XRe (RPlus (RChr (\<lambda>c. c \<noteq> CHR ''*'' \<and> c \<noteq> nline)))), XLit ''*'']"

definition CODE :: rx where
  "CODE = XSeqs [XLit [CHR 0x60], XCap 1 (XRe (RPlus (RChr (\<lambda>c. c \<noteq> CHR 0x60 \<and> c \<noteq> nline)))), XLit [CHR 0x60]]"

definition mark_spans :: "string \<Rightarrow> string" where
  "mark_spans src =
     replace_all CODE (\<lambda>_ g. wrap ''code'' (g 1))
    (replace_all EM (\<lambda>_ g. g 1 @ wrap ''em'' (g 2))
    (replace_all STRONG (\<lambda>_ g. wrap ''strong'' (g 1)) src))"

definition link_tag :: "string \<Rightarrow> string \<Rightarrow> string" where
  "link_tag u text = ''<a href='' @ quoted u @ '' target='' @ quoted ''_blank'' @ '' rel='' @ quoted ''noopener noreferrer nofollow'' @ ''>'' @ text @ ''</a>''"

definition MD_LINK :: rx where
  "MD_LINK = XSeqs [XLit ''['', XCap 1 (XRe (RPlus (RChr (\<lambda>c. c \<noteq> CHR '']'')))), XLit ''](''  , DEST, XLit '')'']"

definition mark_links :: "string \<Rightarrow> string" where
  "mark_links src = replace_all MD_LINK (\<lambda>m g. case safeUrl (unescapeDest (g 2)) of
     Some u \<Rightarrow> link_tag u (g 1) | None \<Rightarrow> m) src"

definition BARE_LINK :: rx where
  "BARE_LINK = XSeq (XCap 1 (XAlt start_of (XChr (\<lambda>c. is_space c \<or> c = CHR ''(''))))
     (XCap 2 (XRe (RSeq HTTP (RPlus (RChr (\<lambda>c. \<not> is_space c \<and> c \<noteq> CHR ''<'' \<and> c \<noteq> CHR '')''))))))"

definition mark_bare_links :: "string \<Rightarrow> string" where
  "mark_bare_links src = replace_all BARE_LINK (\<lambda>m g. case safeUrl (g 2) of
     Some u \<Rightarrow> g 1 @ link_tag u u | None \<Rightarrow> m) src"


text \<open>GitHub tables: a header row, a separator row of dashes with optional colons, then
  rows; a bar after a backslash is part of its cell.\<close>

definition TABLE_ROW :: rx where
  "TABLE_ROW = XSeqs [bol, XRe (RSeqs [RStar (RChr is_blank), RLit ''|'', RStar (RChr not_line_end), RLit ''|'', RStar (RChr is_blank)]),
     XAlt (XLit [nline]) eol]"

definition TABLE :: rx where
  "TABLE = XSeqs [TABLE_ROW, TABLE_ROW, XStar TABLE_ROW]"

definition unescaped_bar :: rx where
  "unescaped_bar = XSeq (XAt (\<lambda>p s. p \<noteq> Some bslash)) (XLit ''|'')"

definition cells :: "string \<Rightarrow> string list" where
  "cells line = map (\<lambda>c. js_trim (replace_all (XLit [bslash, CHR ''|'']) (\<lambda>_ _. ''|'') c))
     (rx_split unescaped_bar
       (replace_once (XSeq (XLit ''|'') end_of) (\<lambda>_ _. [])
         (replace_once (XSeq start_of (XLit ''|'')) (\<lambda>_ _. []) line)))"

definition is_separator :: "string \<Rightarrow> bool" where
  "is_separator c = re_full (RSeqs [ROpt (RLit '':''), RPlus (RLit ''-''), ROpt (RLit '':'')]) c"

definition alignment :: "string \<Rightarrow> string" where
  "alignment c = (let l = (c \<noteq> [] \<and> hd c = CHR '':''); r = (c \<noteq> [] \<and> last c = CHR '':'') in
     if l \<and> r then ''center'' else if r then ''right'' else if l then ''left'' else [])"

definition table_cell :: "string \<Rightarrow> string list \<Rightarrow> nat \<times> string \<Rightarrow> string" where
  "table_cell tag align ic = (case ic of (i, c) \<Rightarrow>
     ''<'' @ tag @ (if i < length align \<and> align ! i \<noteq> [] then '' style='' @ quoted (''text-align:'' @ align ! i) else [])
     @ ''>'' @ c @ ''</'' @ tag @ ''>'')"

definition table_row :: "string \<Rightarrow> string list \<Rightarrow> string list \<Rightarrow> string" where
  "table_row tag align row = ''<tr>'' @ concat (map (table_cell tag align) (enumerate 0 row)) @ ''</tr>''"

definition table_block :: "string \<Rightarrow> string" where
  "table_block block = (let lines = map js_trim (split_on nline (js_trim block));
       sep = cells (if 1 < length lines then lines ! 1 else []) in
     if \<not> list_all is_separator sep then block
     else let align = map alignment sep in
       [nline, nline] @ ''<table><thead>'' @ table_row ''th'' align (cells (hd lines)) @ ''</thead><tbody>''
       @ concat (map (\<lambda>l. table_row ''td'' align (cells l)) (drop 2 lines)) @ ''</tbody></table>'' @ [nline, nline])"

definition mark_tables :: "string \<Rightarrow> string" where
  "mark_tables src = replace_all TABLE (\<lambda>block _. table_block block) src"

text \<open>Lists: consecutive lines that start with the same kind of marker.\<close>

definition BULLET :: re where
  "BULLET = RSeqs [RStar (RChr is_blank), RChr (\<lambda>c. c \<in> set ''-+*''), RLit '' '']"

definition NUMBER :: re where
  "NUMBER = RSeqs [RStar (RChr is_blank), RPlus (RChr is_digit), RLit ''. '']"

definition LIST_LINES :: "re \<Rightarrow> rx" where
  "LIST_LINES marker = XPlus (XSeqs [bol, XRe marker, XRe (RStar (RChr not_line_end)), XAlt (XLit [nline]) eol])"

definition list_block :: "string \<Rightarrow> re \<Rightarrow> string \<Rightarrow> string" where
  "list_block tag marker block = wrap tag (concat (map
     (\<lambda>l. wrap ''li'' (replace_once (XSeq start_of (XRe marker)) (\<lambda>_ _. []) l)) (split_on nline (js_trim block))))"

definition mark_lists :: "string \<Rightarrow> string" where
  "mark_lists src =
     replace_all (LIST_LINES NUMBER) (\<lambda>block _. list_block ''ol'' NUMBER block)
    (replace_all (LIST_LINES BULLET) (\<lambda>block _. list_block ''ul'' BULLET block) src)"

text \<open>Paragraphs, except for what is a block already.\<close>

definition PLACEHOLDER :: re where
  "PLACEHOLDER = RSeqs [RLit ''@@'', RAlt (RLit ''BLOCK'') (RLit ''CODE''), RPlus (RChr is_digit), RLit ''@@'']"

definition BLOCK_TAG :: re where
  "BLOCK_TAG = RSeq (RLit ''<'') (RAlts [RSeq (RLit ''h'') (RChr (\<lambda>c. c \<in> set ''123456'')), RLit ''ul'', RLit ''ol'',
     RLit ''blockquote'', RLit ''pre'', RLit ''hr'', RLit ''div'', RLit ''table''])"

definition paragraph_of :: "string \<Rightarrow> string" where
  "paragraph_of chunk = (let t = js_trim chunk in
     if t = [] then [] else if re_full PLACEHOLDER t then t else if re_prefix BLOCK_TAG t then t
     else ''<p>'' @ gsub nline ''<br />'' t @ ''</p>'')"

definition paragraphs :: "string \<Rightarrow> string" where
  "paragraphs src = js_join [nline] (map paragraph_of
     (rx_split (XRe (RSeq (RLit [nline]) (RPlus (RLit [nline])))) src))"

text \<open>The placeholders put back; a number no block has leaves nothing.\<close>

definition put_back :: "string \<Rightarrow> string list \<Rightarrow> string \<Rightarrow> string" where
  "put_back kind blocks html = replace_all
     (XSeqs [XLit (''@@'' @ kind), XCap 1 (XRe (RPlus (RChr is_digit))), XLit ''@@''])
     (\<lambda>_ g. let i = dec_val (g 1) in if i < length blocks then blocks ! i else []) html"

definition renderMarkdown :: "string \<Rightarrow> string" where
  "renderMarkdown md = (if js_trim md = [] then [] else
     case pull_fences md of (fenced, codes) \<Rightarrow>
     case pull_images (esc fenced) [] of (src1, blocks1) \<Rightarrow>
     case pull_videos src1 blocks1 of (src2, blocks2) \<Rightarrow>
     case pull_bare_images src2 blocks2 of (src3, blocks) \<Rightarrow>
       put_back ''CODE'' codes (put_back ''BLOCK'' blocks (admitHtml (paragraphs
         (mark_lists (mark_tables (mark_bare_links (mark_links (mark_spans (mark_lines src3))))))))))"

end
