(* ===== verification/MarkdownSafety.thy ===== *)
theory MarkdownSafety
  imports Markdown
begin

text \<open>
  What a rendered body can hold: the allowlist admits only the tags it names, with
  the URLs 'safeUrl' accepts; admitting keeps every attribute value closed as long
  as no escaped markup sits inside one; and a body that puts it there.
\<close>

section \<open>Escaping\<close>

lemma gsub_append [simp]: "gsub c t (u @ v) = gsub c t u @ gsub c t v"
  by (simp add: gsub_def)

lemma esc_append [simp]: "esc (u @ v) = esc u @ esc v"
  by (simp add: esc_def)

lemma esc_Nil [simp]: "esc [] = []"
  by (simp add: esc_def gsub_def)

definition esc_char :: "char \<Rightarrow> string" where
  "esc_char c = (if c = CHR ''&'' then ''&amp;'' else if c = CHR ''<'' then ''&lt;''
     else if c = CHR ''>'' then ''&gt;'' else if c = dquote then ''&quot;'' else [c])"

lemma esc_chars: "esc s = concat (map esc_char s)"
proof (induction s)
  case (Cons c s)
  have "esc [c] = esc_char c" by (simp add: esc_def gsub_def esc_char_def dquote_def)
  then show ?case using Cons esc_append [of "[c]" s] by simp
qed simp

lemma esc_no_markup: "CHR ''<'' \<notin> set (esc s) \<and> CHR ''>'' \<notin> set (esc s) \<and> dquote \<notin> set (esc s)"
  by (induction s) (auto simp: esc_chars esc_char_def dquote_def)

lemma esc_url_chars: "list_all url_char s \<Longrightarrow> list_all url_char (esc s)"
  by (induction s) (auto simp: esc_chars esc_char_def url_char_def dquote_def squote_def bslash_def is_space_def)

text \<open>The scheme and what follows it.\<close>

definition url_parts :: "string \<Rightarrow> string \<Rightarrow> string \<Rightarrow> bool" where
  "url_parts s a b = (s = a @ ''://'' @ b \<and> (map to_lower a = ''http'' \<or> map to_lower a = ''https'') \<and> b \<noteq> [] \<and> list_all url_char b)"

lemma safe_url_shape:
  "(\<exists>v. (\<exists>u. s = u @ v \<and> A u) \<and> (\<exists>w. ((\<exists>u. v = u @ w \<and> B u) \<or> w = v) \<and> (\<exists>x. w = C @ x \<and> (\<exists>u. x = u @ [] \<and> u \<noteq> [] \<and> D u))))
    \<longleftrightarrow> (\<exists>a o' b. s = a @ o' @ C @ b \<and> A a \<and> (B o' \<or> o' = []) \<and> b \<noteq> [] \<and> D b)"
  (is "?l = ?r")
proof
  assume ?l
  then show ?r by (elim exE conjE disjE) (force, metis append_Nil append_Nil2)
next
  assume ?r
  then show ?l by (elim exE conjE disjE) (force, metis append_Nil append_Nil2)
qed

lemma re_full_safe: "re_full SAFE_URL s \<longleftrightarrow> (\<exists>a b. url_parts s a b)"
proof -
  have l: "re_full SAFE_URL s \<longleftrightarrow> (\<exists>a o' b. s = a @ o' @ ''://'' @ b \<and> map to_lower a = map to_lower ''http'' \<and>
      (map to_lower o' = map to_lower ''s'' \<or> o' = []) \<and> b \<noteq> [] \<and> list_all url_char b)"
    unfolding re_full_def SAFE_URL_def RSeqs.simps rests_RSeq rests_RLitI rests_ROpt rests_RLit rests_plus_chars Bex_def
    by (rule safe_url_shape)
  have h: "map to_lower ''http'' = ''http''" "map to_lower ''s'' = ''s''" by (simp_all add: to_lower_def)
  show ?thesis unfolding l h
  proof (intro iffI; elim exE conjE)
    fix a o' b
    assume a: "s = a @ o' @ ''://'' @ b" "map to_lower a = ''http''" "map to_lower o' = ''s'' \<or> o' = []" "b \<noteq> []" "list_all url_char b"
    then have "url_parts s (a @ o') b" by (auto simp: url_parts_def)
    then show "\<exists>a b. url_parts s a b" by blast
  next
    fix a b
    assume r: "url_parts s a b"
    then have "map to_lower (take 4 a) = ''http''" "map to_lower (drop 4 a) = ''s'' \<or> drop 4 a = []"
      by (auto simp: url_parts_def take_map [symmetric] drop_map [symmetric])
    then show "\<exists>a o' b. s = a @ o' @ ''://'' @ b \<and> map to_lower a = ''http'' \<and>
      (map to_lower o' = ''s'' \<or> o' = []) \<and> b \<noteq> [] \<and> list_all url_char b"
      using r by (intro exI [of _ "take 4 a"] exI [of _ "drop 4 a"] exI [of _ b]) (simp add: url_parts_def)
  qed
qed

lemma safeUrl_Some: "safeUrl v = Some u \<Longrightarrow> re_full SAFE_URL u"
  by (auto simp: safeUrl_def Let_def split: if_splits)

lemma letters_kept: "map to_lower a = l \<Longrightarrow> list_all is_letter l \<Longrightarrow> list_all is_letter a"
proof (induction a arbitrary: l)
  case (Cons c a)
  have "is_letter (to_lower c) \<Longrightarrow> is_letter c" by (auto simp: is_letter_def to_lower_def Let_def split: if_splits)
  then show ?case using Cons by auto
qed simp

lemma esc_letters: "list_all is_letter a \<Longrightarrow> esc a = a"
  by (induction a) (auto simp: esc_chars esc_char_def is_letter_def dquote_def)

lemma url_parts_scheme: "url_parts u a b \<Longrightarrow> list_all is_letter a"
  by (auto simp: url_parts_def is_letter_def intro: letters_kept [OF refl])

lemma esc_safe_url: "re_full SAFE_URL u \<Longrightarrow> re_full SAFE_URL (esc u)"
proof -
  assume "re_full SAFE_URL u"
  then obtain a b where ab: "url_parts u a b" by (auto simp: re_full_safe)
  have c: "esc ''://'' = ''://''" by (simp add: esc_chars esc_char_def dquote_def)
  have "u = a @ ''://'' @ b" using ab by (simp add: url_parts_def)
  then have "esc u = a @ ''://'' @ esc b"
    using c by (simp only: esc_append esc_letters [OF url_parts_scheme [OF ab]])
  moreover have "esc b \<noteq> []" using ab by (cases b) (auto simp: url_parts_def esc_chars esc_char_def)
  ultimately have "url_parts (esc u) a (esc b)" using ab esc_url_chars by (simp add: url_parts_def)
  then show ?thesis by (auto simp: re_full_safe)
qed

lemma safe_url_chars: "re_full SAFE_URL u \<Longrightarrow> list_all url_char u"
proof -
  assume "re_full SAFE_URL u"
  then obtain a b where ab: "url_parts u a b" by (auto simp: re_full_safe)
  have "list_all url_char a" using url_parts_scheme [OF ab]
    by (auto simp: list_all_iff is_letter_def url_char_def is_space_def dquote_def squote_def bslash_def Let_def)
  moreover have "list_all url_char ''://''" by (simp add: url_char_def is_space_def dquote_def squote_def bslash_def)
  ultimately show ?thesis using ab by (simp add: url_parts_def)
qed

section \<open>The allowlist\<close>

text \<open>The tags that may appear, as a check on the tag's text: one of the plain tags, or
  a link or an image whose only free part is a safe URL.\<close>

definition plain_tags :: "string list" where
  "plain_tags = map (\<lambda>t. ''<'' @ t @ ''>'') (filter (\<lambda>t. t \<noteq> ''a'' \<and> t \<notin> set VOID) ALLOWED)
     @ map (\<lambda>t. ''</'' @ t @ ''>'') (filter (\<lambda>t. t \<notin> set VOID) ALLOWED) @ [''<br />'', ''<hr />'']"

definition admitted_tag :: "string \<Rightarrow> bool" where
  "admitted_tag x = (x \<in> set plain_tags \<or>
     (case split_on dquote x of [a, u, b, c, d, e, f] \<Rightarrow> re_full SAFE_URL u \<and>
        ([a, b, c, d, e, f] = [''<a href='', '' rel='', ''nofollow noopener ugc'', '' target='', ''_blank'', ''>''] \<or>
         [a, b, c, d, e, f] = [''<img src='', '' alt='', [], '' loading='', ''lazy'', '' />''])
      | _ \<Rightarrow> False))"

lemma url_no_quote: "list_all url_char u \<Longrightarrow> dquote \<notin> set u"
  by (auto simp: list_all_iff url_char_def)

lemma split_quoted:
  "dquote \<notin> set p \<Longrightarrow> dquote \<notin> set u \<Longrightarrow> split_on dquote (p @ quoted u @ r) = p # u # split_on dquote r"
  by (simp add: quoted_def split_on_append)

text \<open>The tags 'admit_tag' can answer with.\<close>

definition open_link :: "string \<Rightarrow> string" where
  "open_link u = ''<a href='' @ quoted (esc u) @ '' rel='' @ quoted ''nofollow noopener ugc'' @ '' target='' @ quoted ''_blank'' @ ''>''"

definition open_image :: "string \<Rightarrow> string" where
  "open_image u = ''<img src='' @ quoted (esc u) @ '' alt='' @ quoted [] @ '' loading='' @ quoted ''lazy'' @ '' />''"

lemma admit_tag_cases:
  obtains (none) "admit_tag close rawName rawAttrs = []"
  | (plain) t where "t \<in> set ALLOWED" "t \<noteq> ''a''" "t \<notin> set VOID" "admit_tag close rawName rawAttrs = ''<'' @ t @ ''>''"
  | (closing) t where "t \<in> set ALLOWED" "t \<notin> set VOID" "admit_tag close rawName rawAttrs = ''</'' @ t @ ''>''"
  | (void) t where "t \<in> set ALLOWED" "t \<in> set VOID" "t \<noteq> ''img''" "admit_tag close rawName rawAttrs = ''<'' @ t @ '' />''"
  | (link) u where "list_all url_char (esc u)" "re_full SAFE_URL (esc u)" "admit_tag close rawName rawAttrs = open_link u"
  | (image) u where "list_all url_char (esc u)" "re_full SAFE_URL (esc u)" "admit_tag close rawName rawAttrs = open_image u"
proof -
  let ?t = "map to_lower rawName"
  have safe: "re_full SAFE_URL (esc u)" "list_all url_char (esc u)" if "safe_attr rawAttrs nm = Some u" for nm u
  proof -
    show "re_full SAFE_URL (esc u)" using that safeUrl_Some esc_safe_url
      by (auto simp: safe_attr_def split: option.splits)
    then show "list_all url_char (esc u)" by (rule safe_url_chars)
  qed
  have img: "''img'' \<in> set VOID" and a: "''a'' \<notin> set VOID" by (simp_all add: VOID_def)
  consider "?t \<notin> set ALLOWED" | "?t \<in> set ALLOWED" "close \<noteq> []" | "?t \<in> set ALLOWED" "close = []" "?t = ''a''"
    | "?t \<in> set ALLOWED" "close = []" "?t = ''img''" | "?t \<in> set ALLOWED" "close = []" "?t \<noteq> ''a''" "?t \<noteq> ''img''" by blast
  then show ?thesis
  proof cases
    case 1 then show ?thesis using none by (simp add: admit_tag_def)
  next
    case 2 then show ?thesis using none closing [of ?t] by (cases "?t \<in> set VOID") (simp_all add: admit_tag_def Let_def)
  next
    case 3
    show ?thesis
    proof (cases "safe_attr rawAttrs ''href''")
      case None then show ?thesis using none 3 by (simp add: admit_tag_def Let_def)
    next
      case (Some u)
      show ?thesis by (rule link [of u]) (use safe [OF Some] 3 Some in \<open>simp_all add: admit_tag_def Let_def open_link_def\<close>)
    qed
  next
    case 4
    show ?thesis
    proof (cases "safe_attr rawAttrs ''src''")
      case None then show ?thesis using none 4 img by (simp add: admit_tag_def Let_def)
    next
      case (Some u)
      show ?thesis by (rule image [of u]) (use safe [OF Some] 4 Some in \<open>simp_all add: admit_tag_def Let_def open_image_def\<close>)
    qed
  next
    case 5 then show ?thesis using plain [of ?t] void [of ?t] by (cases "?t \<in> set VOID") (simp_all add: admit_tag_def Let_def)
  qed
qed

lemma admit_tag_admitted: "admit_tag close rawName rawAttrs = [] \<or> admitted_tag (admit_tag close rawName rawAttrs)"
proof -
  have no: "dquote \<notin> set ''<a href=''" "dquote \<notin> set '' rel=''" "dquote \<notin> set ''nofollow noopener ugc''"
    "dquote \<notin> set '' target=''" "dquote \<notin> set ''_blank''" "dquote \<notin> set ''<img src=''" "dquote \<notin> set '' alt=''"
    "dquote \<notin> set '' loading=''" "dquote \<notin> set ''lazy''" "dquote \<notin> set ([] :: string)"
    by (simp_all add: dquote_def)
  have n: "split_on dquote ''>'' = [''>'']" "split_on dquote '' />'' = ['' />'']"
    by (simp_all add: dquote_def)
  show ?thesis
  proof (cases rule: admit_tag_cases [of close rawName rawAttrs])
    case (link u)
    have q: "dquote \<notin> set (esc u)" using link(1) by (rule url_no_quote)
    have "split_on dquote (open_link u) = [''<a href='', esc u, '' rel='', ''nofollow noopener ugc'', '' target='', ''_blank'', ''>'']"
      by (simp only: open_link_def split_quoted no q not_False_eq_True n)
    then show ?thesis unfolding link(3) admitted_tag_def using link(2) by (simp only: list.case) simp
  next
    case (image u)
    have q: "dquote \<notin> set (esc u)" using image(1) by (rule url_no_quote)
    have "split_on dquote (open_image u) = [''<img src='', esc u, '' alt='', [], '' loading='', ''lazy'', '' />'']"
      by (simp only: open_image_def split_quoted no q not_False_eq_True n)
    then show ?thesis unfolding image(3) admitted_tag_def using image(2) by (simp only: list.case) simp
  qed (auto simp: admitted_tag_def plain_tags_def VOID_def)
qed




section \<open>Markup closed where it is opened\<close>

text \<open>Where a reader of HTML is: outside tags, inside one, inside a double-quoted value
  of one, or past a tag opened inside another.  A character of 'bad' inside a tag
  counts as such.\<close>

datatype place = Outside | InTag | InValue | Broken

definition place_after :: "char list \<Rightarrow> place \<Rightarrow> char \<Rightarrow> place" where
  "place_after bad p c = (case p of
     Outside \<Rightarrow> if c = CHR ''<'' then InTag else Outside
   | InTag \<Rightarrow> if c = CHR ''<'' \<or> c \<in> set bad then Broken else if c = CHR ''>'' then Outside
       else if c = dquote then InValue else InTag
   | InValue \<Rightarrow> if c = CHR ''<'' \<or> c \<in> set bad then Broken else if c = dquote then InTag else InValue
   | Broken \<Rightarrow> Broken)"

definition scan :: "char list \<Rightarrow> place \<Rightarrow> string \<Rightarrow> place" where
  "scan bad p s = foldl (place_after bad) p s"

lemma scan_simps [simp]:
  "scan bad p [] = p" "scan bad p (c # s) = scan bad (place_after bad p c) s"
  "scan bad p (u @ v) = scan bad (scan bad p u) v"
  by (simp_all add: scan_def)

lemma place_Broken [simp]: "place_after bad Broken c = Broken"
  by (simp add: place_after_def)

lemma scan_Broken [simp]: "scan bad Broken s = Broken"
  by (induction s) simp_all

lemma scan_fewer: "scan bad p s \<noteq> Broken \<Longrightarrow> scan [] p s = scan bad p s"
proof (induction s arbitrary: p)
  case (Cons c s)
  have "place_after bad p c \<noteq> Broken" using Cons.prems by auto
  then have "place_after [] p c = place_after bad p c"
    by (auto simp: place_after_def split: place.splits if_splits)
  then show ?case using Cons by simp
qed simp

text \<open>A pass keeps where the reader is when each of its matches does.\<close>

lemma replaced_scan:
  assumes m: "\<And>p s q t c ns pl. runs r (p, s, []) = (q, t, c) # ns \<Longrightarrow> scan bad pl (consumed s t) \<noteq> Broken \<Longrightarrow>
      scan [] pl (f (consumed s t) (group_of c)) = scan bad pl (consumed s t)"
    and n: "\<And>p s n. n \<in> set (runs r (p, s, [])) \<Longrightarrow> length (rest_of n) < length s"
  shows "scan bad pl s \<noteq> Broken \<Longrightarrow> scan [] pl (replaced r f p s) = scan bad pl s"
proof (induction "length s" arbitrary: p s pl rule: less_induct)
  case less
  show ?case
  proof (cases "runs r (p, s, [])")
    case Nil
    show ?thesis
    proof (cases s)
      case (Cons x u)
      have "place_after bad pl x \<noteq> Broken" using less.prems Cons by auto
      then have "place_after [] pl x = place_after bad pl x" using scan_fewer [of bad pl "[x]"] by simp
      then show ?thesis using less Cons Nil by (simp add: replaced_no_match)
    qed (use Nil in \<open>simp add: replaced_no_match\<close>)
  next
    case (Cons w ws)
    obtain q t c where w: "w = (q, t, c)" by (cases w)
    have t: "length t < length s" using n [of w p s] Cons w by simp
    obtain u where s: "s = u @ t" using runs_suffix [of w r "(p, s, [])"] Cons w by auto
    then have u: "consumed s t = u" by simp
    have "scan bad pl u \<noteq> Broken" using less.prems s by auto
    then have "scan [] pl (f u (group_of c)) = scan bad pl u" using m [of p s q t c ws pl] Cons w u by simp
    moreover have "scan [] (scan bad pl u) (replaced r f q t) = scan bad (scan bad pl u) t"
      using less.hyps [OF t, of "scan bad pl u" q] less.prems s by simp
    ultimately show ?thesis using Cons w t u s by (simp add: replaced_match)
  qed
qed

lemma escaped_tag_runs:
  assumes "n \<in> set (runs ESCAPED_TAG (p, s, d))"
  shows "\<exists>u. s = ''&lt;'' @ u @ ''&gt;'' @ rest_of n"
proof -
  let ?mid = "[XCap 1 (XOpt (XLit ''/'')), XRe (RStar (RChr is_space)),
     XCap 2 (XRe (RSeq (RChr is_letter) (RStar (RChr (\<lambda>c. is_letter c \<or> is_digit c))))),
     XCap 3 (XLazy (XChr any_char))]"
  have "n \<in> set (runs (XSeqs (XLit ''&lt;'' # (?mid @ [XLit ''&gt;'']))) (p, s, d))"
    using assms by (simp only: ESCAPED_TAG_def append_Cons append_Nil)
  then obtain w where w: "w \<in> set (runs (XLit ''&lt;'') (p, s, d))" "n \<in> set (runs (XSeqs (?mid @ [XLit ''&gt;''])) w)"
    by (subst (asm) runs_XSeqs_Cons) (simp, blast)
  obtain v u where v: "rest_of w = u @ rest_of v" "n \<in> set (runs (XLit ''&gt;'') v)"
    using runs_XSeqs_last [OF w(2)] by blast
  have "s = ''&lt;'' @ rest_of w" using w(1) by (auto simp: XLit_def rests_RLit)
  moreover have "rest_of v = ''&gt;'' @ rest_of n" using v(2) by (cases v) (auto simp: XLit_def rests_RLit)
  ultimately show ?thesis using v(1) by simp
qed

lemma scan_value: "list_all url_char u \<Longrightarrow> scan [] InValue (u @ dquote # r) = scan [] InTag r"
  by (induction u) (simp_all add: place_after_def url_char_def dquote_def)

lemma scan_escaped_tag:
  assumes "scan [CHR ''&''] pl (''&lt;'' @ u @ ''&gt;'') \<noteq> Broken"
  shows "pl = Outside \<and> scan [CHR ''&''] pl (''&lt;'' @ u @ ''&gt;'') = Outside"
proof -
  have amp: "place_after [CHR ''&''] p (CHR ''&'') = (if p = Outside then Outside else Broken)" for p
    by (cases p) (simp_all add: place_after_def dquote_def)
  have out: "c \<noteq> CHR ''<'' \<Longrightarrow> place_after [CHR ''&''] Outside c = Outside" for c
    by (simp add: place_after_def)
  have pl: "pl = Outside" using assms amp [of pl] by (cases "pl = Outside") simp_all
  then have "scan [CHR ''&''] Outside u = Outside"
    using assms amp [of "scan [CHR ''&''] Outside u"] by (cases "scan [CHR ''&''] Outside u = Outside") (simp_all add: out amp)
  then show ?thesis using pl by (simp add: out amp)
qed

definition tag_char :: "char \<Rightarrow> bool" where
  "tag_char c = (c \<noteq> CHR ''<'' \<and> c \<noteq> CHR ''>'' \<and> c \<noteq> dquote)"

lemma scan_plain: "list_all tag_char t \<Longrightarrow> scan [] InTag (t @ r) = scan [] InTag r"
  by (induction t) (simp_all add: place_after_def tag_char_def)

lemma scan_quoted: "list_all (\<lambda>c. c \<noteq> CHR ''<'' \<and> c \<noteq> dquote) u \<Longrightarrow> scan [] InTag (quoted u @ r) = scan [] InTag r"
proof -
  assume u: "list_all (\<lambda>c. c \<noteq> CHR ''<'' \<and> c \<noteq> dquote) u"
  then have "scan [] InValue u = InValue" by (induction u) (simp_all add: place_after_def)
  then show ?thesis by (simp add: quoted_def) (simp add: place_after_def dquote_def)
qed

lemma scan_ends: "scan [] Outside (CHR ''<'' # s) = scan [] InTag s" "scan [] InTag ''>'' = Outside" "scan [] InTag '' />'' = Outside"
  by (simp_all add: place_after_def dquote_def)

lemma scan_admit_tag: "scan [] Outside (admit_tag close rawName rawAttrs) = Outside"
proof -
  have no: "list_all tag_char ''a href=''" "list_all tag_char '' rel=''" "list_all tag_char '' target=''"
    "list_all tag_char ''img src=''" "list_all tag_char '' alt=''" "list_all tag_char '' loading=''"
    by (simp_all add: tag_char_def dquote_def)
  have nq: "list_all (\<lambda>c. c \<noteq> CHR ''<'' \<and> c \<noteq> dquote) ''nofollow noopener ugc''" "list_all (\<lambda>c. c \<noteq> CHR ''<'' \<and> c \<noteq> dquote) ''_blank''"
    "list_all (\<lambda>c. c \<noteq> CHR ''<'' \<and> c \<noteq> dquote) ''lazy''" "list_all (\<lambda>c. c \<noteq> CHR ''<'' \<and> c \<noteq> dquote) []"
    by (simp_all add: dquote_def)
  have uq: "list_all url_char s \<Longrightarrow> list_all (\<lambda>c. c \<noteq> CHR ''<'' \<and> c \<noteq> dquote) s" for s
    by (auto simp: list_all_iff url_char_def)
  have "list_all (list_all tag_char) ALLOWED" by (simp add: ALLOWED_def tag_char_def dquote_def)
  then have al: "t \<in> set ALLOWED \<Longrightarrow> list_all tag_char t" for t by (simp add: list_all_iff)
  have sl: "list_all tag_char ''/''" by (simp add: tag_char_def dquote_def)
  have lead: "''<'' @ s = CHR ''<'' # s" "''</'' @ s = CHR ''<'' # (''/'' @ s)" "''<a href='' @ s = CHR ''<'' # (''a href='' @ s)"
    "''<img src='' @ s = CHR ''<'' # (''img src='' @ s)" for s by simp_all
  show ?thesis
  proof (cases rule: admit_tag_cases [of close rawName rawAttrs])
    case (link u)
    show ?thesis unfolding link(3) open_link_def lead scan_ends(1)
      by (simp only: scan_plain no scan_quoted nq uq [OF link(1)] scan_ends)
  next
    case (image u)
    show ?thesis unfolding image(3) open_image_def lead scan_ends(1)
      by (simp only: scan_plain no scan_quoted nq uq [OF image(1)] scan_ends)
  next
    case (plain t)
    show ?thesis unfolding plain(4) lead scan_ends(1) by (simp only: scan_plain al [OF plain(1)] scan_ends)
  next
    case (closing t)
    show ?thesis unfolding closing(3) lead scan_ends(1) by (simp only: scan_plain sl al [OF closing(1)] scan_ends)
  next
    case (void t)
    show ?thesis unfolding void(4) lead scan_ends(1) by (simp only: scan_plain al [OF void(1)] scan_ends)
  qed simp
qed

text \<open>C1: admitting tags keeps every tag and value closed, as long as no ampersand -
  and so no escaped markup - sits inside one.\<close>

theorem sanitiser_keeps_closed:
  assumes "scan [CHR ''&''] Outside html = Outside"
  shows "scan [] Outside (admitHtml html) = Outside"
proof -
  have "scan [] Outside (replaced ESCAPED_TAG (\<lambda>_ g. admit_tag (g 1) (g 2) (g 3)) None html) = scan [CHR ''&''] Outside html"
  proof (rule replaced_scan)
    fix p s q t c ns pl
    assume r: "runs ESCAPED_TAG (p, s, []) = (q, t, c) # ns" and b: "scan [CHR ''&''] pl (consumed s t) \<noteq> Broken"
    have "(q, t, c) \<in> set (runs ESCAPED_TAG (p, s, []))" using r by simp
    then obtain u where "s = (''&lt;'' @ u @ ''&gt;'') @ t" using escaped_tag_runs by fastforce
    then have "consumed s t = ''&lt;'' @ u @ ''&gt;''" by (simp only: consumed_append)
    then show "scan [] pl (admit_tag (group_of c 1) (group_of c 2) (group_of c 3)) = scan [CHR ''&''] pl (consumed s t)"
      using b scan_escaped_tag [of pl u] scan_admit_tag by metis
  next
    show "length (rest_of n) < length s" if "n \<in> set (runs ESCAPED_TAG (p, s, []))" for p s n
      using escaped_tag_runs [OF that] by auto
  qed (use assms in simp)
  then show ?thesis using assms by (simp add: admitHtml_def replace_all_replaced)
qed

lemma sanitiser_keeps_closed_witness:
  "scan [CHR ''&''] Outside ''<p>&lt;b&gt;x</p>'' = Outside \<and> scan [] Outside (admitHtml ''<p>&lt;b&gt;x</p>'') = Outside"
proof
  show s: "scan [CHR ''&''] Outside ''<p>&lt;b&gt;x</p>'' = Outside" by code_simp
  show "scan [] Outside (admitHtml ''<p>&lt;b&gt;x</p>'') = Outside" by (rule sanitiser_keeps_closed [OF s])
qed

text \<open>A link whose destination holds escaped markup: the tag admitted into the value
  of 'href' closes it, and what follows its URL is read as attributes.\<close>

definition breakout_body :: string where
  "breakout_body = ''[t](http://a/<a/href=http://e/onclick=x>)''"



text \<open>A pass over lines leaves a text of one line alone when its expression does not
  match at the start.\<close>

definition line_start :: "rx \<Rightarrow> bool" where
  "line_start r = (\<forall>x s. not_line_end x \<longrightarrow> runs r (Some x, s, []) = [])"

lemma line_start_bol [simp]: "line_start (XSeqs (bol # r # rs))"
  by (simp add: line_start_def bol_def)

lemma line_start_LINE [simp]: "line_start (LINE m)"
  unfolding LINE_def by (rule line_start_bol)

lemma inside_line: "line_start r \<Longrightarrow> list_all not_line_end s \<Longrightarrow> not_line_end x \<Longrightarrow> replaced r f (Some x) s = s"
proof (induction s arbitrary: x)
  case (Cons y s)
  then have "runs r (Some x, y # s, []) = []" by (simp add: line_start_def)
  then show ?case using Cons by (simp add: replaced_no_match)
qed (simp add: replaced_no_match line_start_def)

lemma one_line:
  assumes "line_start r" "list_all not_line_end s" "runs r (None, s, []) = []"
  shows "replace_all r f s = s"
  using assms by (cases s) (simp_all add: replace_all_replaced replaced_no_match inside_line)

lemma breakout_lines: "mark_lines (esc breakout_body) = esc breakout_body"
proof -
  have l: "list_all not_line_end (esc breakout_body)" by code_simp
  have r: "runs (LINE m) (None, esc breakout_body, []) = []"
    if "rests m (esc breakout_body) = []" for m using that by (simp add: LINE_def bol_def)
  have h: "list_all (\<lambda>m. rests m (esc breakout_body) = []) [RLit ''# '', RLit ''## '', RLit ''### '', RLit ''#### '',
      RLit ''##### '', RLit ''###### '', RSeq (RLit ''&gt;'') (ROpt (RLit '' '')), RSeq (RLit ''--'') (RPlus (RLit ''-''))]"
    by code_simp
  have hr: "runs (XSeqs [bol, XRe (RSeq (RLit ''--'') (RPlus (RLit ''-''))), eol]) (None, esc breakout_body, []) = []"
    using h by (simp add: bol_def)
  show ?thesis using h by (simp add: mark_lines_def one_line [OF _ l] r hr del: XSeqs.simps)
qed

text \<open>The passes over that body, one by one.\<close>

abbreviation (input) breakout_link :: string where
  "breakout_link \<equiv> link_tag ''http://a/&lt;a/href=http://e/onclick=x&gt;'' ''t''"

lemma breakout_pulls: "pull_fences breakout_body = (breakout_body, [])"
  "pull_images (esc breakout_body) [] = (esc breakout_body, [])"
  "pull_videos (esc breakout_body) [] = (esc breakout_body, [])"
  "pull_bare_images (esc breakout_body) [] = (esc breakout_body, [])"
  by code_simp+

lemma breakout_marks: "mark_spans (esc breakout_body) = esc breakout_body"
  "mark_links (esc breakout_body) = breakout_link"
  "mark_bare_links breakout_link = breakout_link"
  by code_simp+

lemma breakout_blocks: "mark_tables breakout_link = breakout_link"
  "mark_lists breakout_link = breakout_link"
  "paragraphs breakout_link = ''<p>'' @ breakout_link @ ''</p>''"
  by code_simp+

lemma breakout_admitted: "admitHtml (''<p>'' @ breakout_link @ ''</p>'') =
    ''<p><a href='' @ [dquote] @ ''http://a/'' @ open_link ''http://e/onclick=x''
     @ [dquote] @ '' target='' @ quoted ''_blank'' @ '' rel='' @ quoted ''noopener noreferrer nofollow'' @ ''>t</a></p>''"
  by code_simp

lemma put_back_nothing: "CHR ''@'' \<notin> set s \<Longrightarrow> put_back kind bs s = s"
proof -
  assume a: "CHR ''@'' \<notin> set s"
  let ?r = "XSeqs [XLit (''@@'' @ kind), XCap 1 (XRe (RPlus (RChr is_digit))), XLit ''@@'']"
  have n: "runs ?r (p, t, []) = []" if "CHR ''@'' \<notin> set t" for p t
  proof (rule ccontr)
    assume "runs ?r (p, t, []) \<noteq> []"
    then obtain n where "n \<in> set (runs ?r (p, t, []))" by (metis hd_in_set)
    then obtain w where "w \<in> set (runs (XLit (''@@'' @ kind)) (p, t, []))" using runs_XSeqs_Cons by (metis list.distinct(1))
    then have "\<exists>u. t = ''@@'' @ u" by (auto simp: XLit_def rests_RLit)
    then show False using that by auto
  qed
  have "replaced ?r f p s = s" for f p using a
  proof (induction s arbitrary: p)
    case (Cons x u)
    then show ?case using n [of "x # u" p] by (simp add: replaced_no_match del: XSeqs.simps)
  next
    case Nil
    have "runs ?r (p, [], []) = []" by (rule n) simp
    then show ?case by (simp only: replaced_no_match list.case)
  qed
  then show ?thesis by (simp only: put_back_def replace_all_replaced)
qed

text \<open>C1: the tag admitted into the value of 'href' closes it: what follows the quote,
  here 'http:', 'e' and 'onclick=x', is read as attributes of the outer link.\<close>

theorem body_breaks_out:
  "renderMarkdown breakout_body =
    ''<p><a href='' @ [dquote] @ ''http://a/<a href='' @ [dquote] @ ''http://e/onclick=x'' @ [dquote] @ '' rel='' @ quoted ''nofollow noopener ugc'' @ '' target='' @ quoted ''_blank'' @ ''>''
     @ [dquote] @ '' target='' @ quoted ''_blank'' @ '' rel='' @ quoted ''noopener noreferrer nofollow'' @ ''>t</a></p>''
   \<and> scan [] Outside (renderMarkdown breakout_body) = Broken"
proof -
  let ?out = "''<p><a href='' @ [dquote] @ ''http://a/'' @ open_link ''http://e/onclick=x''
     @ [dquote] @ '' target='' @ quoted ''_blank'' @ '' rel='' @ quoted ''noopener noreferrer nofollow'' @ ''>t</a></p>''"
  have at: "CHR ''@'' \<notin> set ?out" by code_simp
  have "js_trim breakout_body \<noteq> []" by code_simp
  then have r: "renderMarkdown breakout_body = ?out"
    by (simp only: renderMarkdown_def if_False prod.case breakout_pulls breakout_marks breakout_lines breakout_blocks
        breakout_admitted put_back_nothing [OF at])
  moreover have "scan [] Outside ?out = Broken" by code_simp
  moreover have "esc ''http://e/onclick=x'' = ''http://e/onclick=x''" by code_simp
  ultimately show ?thesis by (simp add: open_link_def quoted_def)
qed

end
