(* ===== verification/Site.thy ===== *)
theory Site
  imports Json JsDate JsNumber RegExp
begin

text \<open>
  What the site writes about itself (src/web/src/lib/site.ts): its origin, the URLs of
  posts and profiles, meta descriptions, the JSON-LD block and XML text; and the
  durations of src/web/src/lib/format.ts.
\<close>

section \<open>The origin and its URLs\<close>

definition truthy_or :: "string option \<Rightarrow> string \<Rightarrow> string" where
  "truthy_or v d = (case v of None \<Rightarrow> d | Some s \<Rightarrow> if s = [] then d else s)"

definition configuredOrigin :: "string option \<Rightarrow> string option \<Rightarrow> string" where
  "configuredOrigin fromProcess fromBuild = truthy_or fromProcess (truthy_or fromBuild ''https://lassecash.com'')"

definition SITE_URL :: "string option \<Rightarrow> string option \<Rightarrow> string" where
  "SITE_URL fromProcess fromBuild =
     rev (dropWhile (\<lambda>c. c = CHR ''/'') (rev (configuredOrigin fromProcess fromBuild)))"

definition bareName :: "string \<Rightarrow> string" where
  "bareName acct = (if starts_with ''hive:'' acct then drop 5 acct else acct)"

definition displayName :: "string \<Rightarrow> string" where
  "displayName acct = (if starts_with ''hive:'' acct then ''@'' @ drop 5 acct else acct)"

definition postPath :: "string \<Rightarrow> string \<Rightarrow> string" where
  "postPath author permlink = ''/@'' @ bareName author @ ''/'' @ permlink"

definition postUrl :: "string \<Rightarrow> string \<Rightarrow> string \<Rightarrow> string" where
  "postUrl site author permlink = site @ ''/@'' @ bareName author @ ''/'' @ permlink"

definition profileUrl :: "string \<Rightarrow> string \<Rightarrow> string" where
  "profileUrl site acct = site @ ''/@'' @ bareName acct"

definition absolute :: "string \<Rightarrow> string \<Rightarrow> string" where
  "absolute site path = (if starts_with ''http'' path then path
     else site @ (if starts_with ''/'' path then [] else ''/'') @ path)"

definition MIGRATION_GENESIS_ISO :: string where "MIGRATION_GENESIS_ISO = ''2026-08-31T18:00:00Z''"

text \<open>A time stamp that names its zone: one that ends in 'Z' or in an offset.\<close>

definition zoned :: "string \<Rightarrow> bool" where
  "zoned s = rx_test (XSeq (XRe (RAlt (RChr (\<lambda>c. c = CHR ''z'' \<or> c = CHR ''Z''))
     (RSeqs [RChr (\<lambda>c. c = CHR ''+'' \<or> c = CHR ''-''), RChr is_digit, RChr is_digit, ROpt (RLit '':''), RChr is_digit, RChr is_digit])))
     end_of) s"

definition beforeMigration :: "string option \<Rightarrow> bool" where
  "beforeMigration created = (case created of None \<Rightarrow> False
   | Some s \<Rightarrow> if s = [] then False
       else (case (date_parse (if zoned s then s else s @ ''Z''), date_parse MIGRATION_GENESIS_ISO) of
           (Some t, Some g) \<Rightarrow> t < g | _ \<Rightarrow> False))"

section \<open>Meta descriptions\<close>

definition last_index :: "char \<Rightarrow> string \<Rightarrow> int" where
  "last_index c s = (if c \<in> set s then int (length s) - 1 - int (length (takeWhile (\<lambda>d. d \<noteq> c) (rev s))) else -1)"

definition trim_right :: "string \<Rightarrow> string" where
  "trim_right s = rev (dropWhile is_space (rev s))"

text \<open>Cut at a word when a space falls in the last two fifths; the product with 0.6 is
  a double.\<close>

definition metaDescription :: "string \<Rightarrow> nat \<Rightarrow> string" where
  "metaDescription text limit = (let flat = js_trim (replace_all (XRe (RPlus (RChr is_space))) (\<lambda>_ _. '' '') text) in
     if length flat \<le> limit then flat
     else let cut = take (limit - 1) flat; space = last_index (CHR '' '') cut in
       trim_right (if space * 2 ^ 53 > fl53 (int limit * 5404319552844595) then take (nat space) cut else cut)
         @ [CHR 0xE2, CHR 0x80, CHR 0xA6])"

section \<open>JSON-LD and XML\<close>

definition json_escape :: "string \<Rightarrow> string" where
  "json_escape s = gsub (CHR ''&'') (CHR 0x5C # ''u0026'')
     (gsub (CHR ''>'') (CHR 0x5C # ''u003e'') (gsub (CHR ''<'') (CHR 0x5C # ''u003c'') s))"

definition jsonLd :: "json \<Rightarrow> string" where
  "jsonLd v = json_escape (stringify v)"

definition xmlEscape :: "string \<Rightarrow> string" where
  "xmlEscape s = gsub (CHR 0x27) ''&apos;'' (gsub (CHR 0x22) ''&quot;''
     (gsub (CHR ''>'') ''&gt;'' (gsub (CHR ''<'') ''&lt;'' (gsub (CHR ''&'') ''&amp;'' s))))"

section \<open>Durations\<close>

definition heightsToDuration :: "int \<Rightarrow> string" where
  "heightsToDuration heights = (if heights \<le> 0 then ''now'' else
     let days = heights div 28800 in
     if days \<ge> 365 then
       (let years = days div 365; rem = days mod 365 in
        if rem > 30 then show_int years @ ''y '' @ show_int (rem div 30) @ ''mo'' else show_int years @ ''y'')
     else if days \<ge> 1 then show_int days @ ''d''
     else let hours = heights mod 28800 div 1200 in
       if hours \<ge> 1 then show_int hours @ ''h'' else show_int (heights mod 1200 div 20) @ ''m'')"

definition plural :: "int \<Rightarrow> string \<Rightarrow> string" where
  "plural n one = show_int n @ '' '' @ one @ (if n = 1 then [] else ''s'')"

text \<open>The quotient rounded up in the last tenth of a unit, down before it.  The quotient
  is a double, its fraction is exact, and 0.9 is its double.\<close>

definition nearly :: "int \<Rightarrow> int \<Rightarrow> int" where
  "nearly a b = (case fl_div a b of (m, j) \<Rightarrow>
     if (m mod 2 ^ j) * 2 ^ 53 \<ge> 8106479329266893 * 2 ^ j then m div 2 ^ j + 1 else m div 2 ^ j)"

definition durationWords :: "int \<Rightarrow> string" where
  "durationWords heights = (if heights \<le> 0 then ''now'' else
     let days = nearly heights 28800 in
     if days \<ge> 365 then
       (let years0 = days div 365; months0 = days mod 365 div 30;
            years = (if months0 \<ge> 12 then years0 + 1 else years0); months = (if months0 \<ge> 12 then 0 else months0)
        in if months \<ge> 1 then plural years ''year'' @ '' '' @ plural months ''month'' else plural years ''year'')
     else if days \<ge> 1 then plural days ''day''
     else let hours = nearly (heights mod 28800) 1200 in
       if hours \<ge> 1 then plural hours ''hour''
       else let minutes = nearly (heights mod 1200) 20 in
         if minutes \<ge> 1 then plural minutes ''minute'' else ''under a minute'')"

section \<open>The JSON-LD block\<close>

definition ld_char :: "char \<Rightarrow> string" where
  "ld_char c = (if c = CHR ''<'' then CHR 0x5C # ''u003c'' else if c = CHR ''>'' then CHR 0x5C # ''u003e''
     else if c = CHR ''&'' then CHR 0x5C # ''u0026'' else [c])"

lemma gsub_concat: "gsub c t (u @ v) = gsub c t u @ gsub c t v" "gsub c t [] = []"
  by (simp_all add: gsub_def)

lemma json_escape_append [simp]: "json_escape (u @ v) = json_escape u @ json_escape v" "json_escape [] = []"
  by (simp_all add: json_escape_def gsub_concat)

lemma json_escape_Cons [simp]: "json_escape (c # s) = ld_char c @ json_escape s"
proof -
  have "json_escape [c] = ld_char c" by (simp add: json_escape_def gsub_def ld_char_def)
  then show ?thesis using json_escape_append(1) [of "[c]" s] by simp
qed

lemma json_escape_plain: "CHR ''<'' \<notin> set s \<Longrightarrow> CHR ''>'' \<notin> set s \<Longrightarrow> CHR ''&'' \<notin> set s \<Longrightarrow> json_escape s = s"
  by (induction s) (auto simp: ld_char_def)

lemma ld_special: "json_string (CHR 0x5C # ''u003c'' @ s) = map_option (\<lambda>(t, r). (CHR ''<'' # t, r)) (json_string s)"
  "json_string (CHR 0x5C # ''u003e'' @ s) = map_option (\<lambda>(t, r). (CHR ''>'' # t, r)) (json_string s)"
  "json_string (CHR 0x5C # ''u0026'' @ s) = map_option (\<lambda>(t, r). (CHR ''&'' # t, r)) (json_string s)"
proof -
  have c: "(char_of (60 :: nat) :: char) = CHR ''<''" "(char_of (62 :: nat) :: char) = CHR ''>''" "(char_of (38 :: nat) :: char) = CHR ''&''"
    by code_simp+
  show "json_string (CHR 0x5C # ''u003c'' @ s) = map_option (\<lambda>(t, r). (CHR ''<'' # t, r)) (json_string s)"
    "json_string (CHR 0x5C # ''u003e'' @ s) = map_option (\<lambda>(t, r). (CHR ''>'' # t, r)) (json_string s)"
    "json_string (CHR 0x5C # ''u0026'' @ s) = map_option (\<lambda>(t, r). (CHR ''&'' # t, r)) (json_string s)"
    by (subst json_string.simps(2), simp add: hex4_def radix_digit_def utf8_def c)+
qed

lemma hex_char_safe: "d < 16 \<Longrightarrow> ld_char (hex_char d) = [hex_char d]"
proof -
  assume "d < 16"
  then have "(of_char (hex_char d) :: nat) \<notin> {60, 62, 38}" by (auto simp: hex_char_def)
  then show ?thesis by (auto simp: ld_char_def)
qed

lemma json_char_safe: "c \<notin> {CHR ''<'', CHR ''>'', CHR ''&''} \<Longrightarrow> json_escape (json_char c) = json_char c"
proof -
  assume c: "c \<notin> {CHR ''<'', CHR ''>'', CHR ''&''}"
  let ?n = "of_char c :: nat"
  consider "?n \<in> {34, 92, 8, 12, 10, 13, 9}" | "?n < 32" "?n \<notin> {34, 92, 8, 12, 10, 13, 9}" | "32 \<le> ?n" "?n \<noteq> 34" "?n \<noteq> 92" by fastforce
  then show ?thesis
  proof cases
    case 1
    then show ?thesis by (elim insertE) (simp_all add: json_char_def ld_char_def)
  next
    case 2
    then have "json_char c = [CHR 0x5C, CHR ''u'', CHR ''0'', CHR ''0'', hex_char (?n div 16), hex_char (?n mod 16)]"
      by (simp add: json_char_def Let_def)
    moreover have "?n div 16 < 16" "?n mod 16 < 16" using 2 by linarith+
    moreover have "ld_char (CHR 0x5C) = [CHR 0x5C]" "ld_char (CHR ''u'') = ''u''" "ld_char (CHR ''0'') = ''0''"
      by (simp_all add: ld_char_def)
    ultimately show ?thesis by (simp only: json_escape_Cons json_escape_append hex_char_safe append_Cons append_Nil)
  next
    case 3
    then have "json_char c = [c]" by (simp add: json_char_def)
    then show ?thesis using c by (simp add: ld_char_def)
  qed
qed

lemma ld_reads: "json_string (json_escape (concat (map json_char s)) @ CHR 0x22 # r) = Some (s, r)"
proof (induction s)
  case Nil
  show ?case by (simp add: json_string_end)
next
  case (Cons c s)
  show ?case
  proof (cases "c \<in> {CHR ''<'', CHR ''>'', CHR ''&''}")
    case True
    then have "json_escape (json_char c) = ld_char c" by (auto simp: json_char_def)
    then show ?thesis using True Cons by (auto simp: ld_char_def ld_special [simplified])
  next
    case False
    then show ?thesis using Cons by (simp add: json_char_safe json_string_char)
  qed
qed

definition ld_quote :: "string \<Rightarrow> string" where
  "ld_quote s = json_escape (json_quote s)"

lemma ld_quote_eq: "ld_quote s = CHR 0x22 # json_escape (concat (map json_char s)) @ [CHR 0x22]"
  by (simp add: ld_quote_def json_quote_def ld_char_def)

interpretation ld: json_writer ld_quote
  by unfold_locales (simp_all add: ld_quote_eq ld_reads)

lemma escape_show_int: "json_escape (show_int i) = show_int i"
proof (rule json_escape_plain)
  have d: "c \<in> set (show_nat n) \<Longrightarrow> is_digit c" for c n using show_nat_digits [of n] by (simp add: list_all_iff)
  show "CHR ''<'' \<notin> set (show_int i)" "CHR ''>'' \<notin> set (show_int i)" "CHR ''&'' \<notin> set (show_int i)"
    using d by (auto simp: show_int_def is_digit_def dest!: d split: if_splits)
qed

lemma escape_render:
  "wf_json j \<Longrightarrow> json_escape (render json_quote j) = render ld_quote j"
  "wf_jsons xs \<Longrightarrow> json_escape (render_list json_quote xs) = render_list ld_quote xs"
  "wf_fields kvs \<Longrightarrow> json_escape (render_fields json_quote kvs) = render_fields ld_quote kvs"
  by (induction j and xs and kvs rule: stringify_stringify_list_stringify_fields.induct)
    (simp_all add: ld_char_def escape_show_int ld_quote_def)

lemma json_escape_no_markup: "CHR ''<'' \<notin> set (json_escape s) \<and> CHR ''>'' \<notin> set (json_escape s) \<and> CHR ''&'' \<notin> set (json_escape s)"
  by (induction s) (auto simp: ld_char_def)



end
