(* ===== verification/CallSummary.thy ===== *)
theory CallSummary
  imports Site Client
begin

text \<open>
  A contract call in words (src/web/src/lib/callSummary.ts): the payload the chain
  recorded, split or parsed, with its amounts formatted.  The number formatting of
  the browser's language is an argument.  Members of a parsed payload keep their
  JSON values, so a member of another type than the source expects takes the path
  the exception takes.
\<close>

section \<open>JSON values where JavaScript wants text or a number\<close>

fun to_text :: "json \<Rightarrow> string" where
  "to_text JNull = ''null''"
| "to_text (JBool b) = (if b then ''true'' else ''false'')"
| "to_text (JNum n) = show_int n"
| "to_text (JReal t) = t"
| "to_text (JStr s) = s"
| "to_text (JArr xs) = js_join '','' (map (\<lambda>x. if x = JNull then [] else to_text x) xs)"
| "to_text (JObj kvs) = ''[object Object]''"

definition truthy :: "json option \<Rightarrow> bool" where
  "truthy v = (v \<noteq> None \<and> v \<noteq> Some JNull \<and> v \<noteq> Some (JBool False) \<and> v \<noteq> Some (JNum 0) \<and> v \<noteq> Some (JStr []))"

definition json_big :: "json \<Rightarrow> int result" where
  "json_big v = (case v of JNum n \<Rightarrow> Inr n | JBool b \<Rightarrow> Inr (if b then 1 else 0)
     | JReal t \<Rightarrow> throw ''The number cannot be converted to a BigInt because it is not an integer''
     | JNull \<Rightarrow> throw ''Cannot convert null to a BigInt'' | _ \<Rightarrow> big_int (to_text v))"

text \<open>A method of String on a member that is none.\<close>

definition as_string :: "json \<Rightarrow> string result" where
  "as_string v = (case v of JStr s \<Rightarrow> Inr s | _ \<Rightarrow> throw ''is not a function'')"

text \<open>The keys every plain object answers to, whatever its own.\<close>

definition PROTO_KEYS :: "string list" where
  "PROTO_KEYS = [''constructor'', ''__defineGetter__'', ''__defineSetter__'', ''hasOwnProperty'', ''__lookupGetter__'',
     ''__lookupSetter__'', ''isPrototypeOf'', ''propertyIsEnumerable'', ''toString'', ''valueOf'', ''__proto__'', ''toLocaleString'']"

section \<open>Amounts and names\<close>

definition lc :: "(string \<Rightarrow> string) \<Rightarrow> nat \<Rightarrow> amount \<Rightarrow> string result" where
  "lc loc dp amount = format_amount loc dp True amount"

definition amt :: "(string \<Rightarrow> string) \<Rightarrow> nat \<Rightarrow> json option \<Rightarrow> string" where
  "amt loc dp raw = (case raw of None \<Rightarrow> []
     | Some v \<Rightarrow> if \<not> truthy raw then [] else or_default (to_text v) (rbind (json_big v) (\<lambda>n. lc loc dp (fromUnits n))))"

definition magiAmount :: "(string \<Rightarrow> string) \<Rightarrow> json option \<Rightarrow> json \<Rightarrow> string result" where
  "magiAmount loc raw asset = (case raw of None \<Rightarrow> Inr []
     | Some v \<Rightarrow> if \<not> truthy raw then Inr []
         else rbind (as_string asset) (\<lambda>a.
           if map to_upper a = ''LASSECASH'' then Inr (amt loc 2 raw)
           else Inr (or_default (to_text v) (rbind (json_big v) (\<lambda>n.
             if a \<in> set PROTO_KEYS then throw ''Cannot mix BigInt and other types''
             else Inr (unitsToDecimal n (nullish (ASSET_SCALE a) 1000)))))))"

definition who :: "string option \<Rightarrow> string" where
  "who raw = (case raw of None \<Rightarrow> [] | Some s \<Rightarrow> displayName s)"

definition post_of :: "string option \<Rightarrow> string option \<Rightarrow> string" where
  "post_of author permlink = (if nullish author [] = [] then []
     else if nullish permlink [] = [] then who author else who author @ ''/'' @ nullish permlink [])"

definition WINDOW :: "string list" where "WINDOW = [''viral'', ''deep'']"
definition MODE :: "string list" where "MODE = [''split 20/80'', ''all minted'', ''burned'']"

text \<open>An array indexed by 'Number(s)': '?' outside it.\<close>

definition indexed :: "string list \<Rightarrow> string option \<Rightarrow> string" where
  "indexed xs s = (case s of None \<Rightarrow> ''?''
     | Some t \<Rightarrow> (case big_int t of Inr n \<Rightarrow> if 0 \<le> n \<and> nat n < length xs then xs ! nat n else ''?'' | Inl _ \<Rightarrow> ''?''))"

definition PARAMS :: "string \<Rightarrow> (string \<times> string) option" where
  "PARAMS = map_of
     [(''mint.volume_start'', (''the mint-size bonus should start rising at'', ''LASSECASH'')),
      (''mint.volume_end'', (''the full 1.50x mint-size bonus should start at'', ''LASSECASH'')),
      (''post.threshold_viral'', (''the viral posting threshold should be'', ''L-Shares'')),
      (''post.threshold_deep'', (''the deep posting threshold should be'', ''L-Shares'')),
      (''post.threshold_comment'', (''the comment threshold should be'', ''L-Shares'')),
      (''promote.min_burn'', (''promoting a post should cost at least'', ''LASSECASH''))]"

definition BTC_MAPPING :: string where "BTC_MAPPING = ''vsc1BdrQ6EtbQ64rq2PkPd21x4MaLnVRcJj85d''"

definition middot :: string where "middot = [CHR '' '', CHR 0xC2, CHR 0xB7, CHR '' '']"

section \<open>What a call said\<close>

text \<open>A field past the end is undefined, which a template writes out.\<close>

definition nth_opt :: "'a list \<Rightarrow> nat \<Rightarrow> 'a option" where
  "nth_opt xs i = (if i < length xs then Some (xs ! i) else None)"

definition tpl :: "string option \<Rightarrow> string" where "tpl v = nullish v ''undefined''"

text \<open>The calls of a mapped asset: JSON with an amount and who may have it.  None is
  the fall through to the pipe format.\<close>

definition mapped_call :: "(string \<Rightarrow> string) \<Rightarrow> string \<Rightarrow> string option \<Rightarrow> json \<Rightarrow> string option result" where
  "mapped_call loc action contract j = (let m = (\<lambda>k. jfield k j) in
     if action = ''transfer'' \<and> truthy (m ''to'') \<and> truthy (m ''amount'') then
       rbind (json_big (the (m ''amount''))) (\<lambda>n. rbind (as_string (the (m ''to''))) (\<lambda>to'.
         Inr (Some (''Sent '' @ unitsToDecimal n 100000000 @ '' BTC to '' @ displayName to'))))
     else if action = ''increaseAllowance'' \<and> truthy (m ''spender'') \<and> truthy (m ''amount'') then
       rbind (json_big (the (m ''amount''))) (\<lambda>n. rbind (as_string (the (m ''spender''))) (\<lambda>sp.
         let amount = unitsToDecimal n 100000000;
             core = starts_with ''vsc1Be4TTjU'' (if starts_with ''contract:'' sp then drop 9 sp else sp)
         in if contract = Some BTC_MAPPING then Inr (Some (''Allowed MAGI'' @ [CHR 0x27] @ ''s swap contract to draw '' @ amount @ '' BTC''))
            else rmap (\<lambda>a. Some (''Allowed '' @ (if core then ''the LASSECASH pool'' else ''MAGI'' @ [CHR 0x27] @ ''s swap contract'')
                @ '' to draw '' @ a @ '' LASSECASH'')) (lc loc 2 amount)))
     else Inr None)"

text \<open>The pipe format, per action.\<close>

definition pipe_call :: "(string \<Rightarrow> string) \<Rightarrow> string \<Rightarrow> string list \<Rightarrow> string option" where
  "pipe_call loc action f = (let g = nth_opt f; a = (\<lambda>i dp. amt loc dp (map_option JStr (g i))) in
     if action = ''transfer'' then Some (a 1 3 @ '' LASSECASH to '' @ who (g 0)
       @ (if nullish (g 2) [] \<noteq> [] then em_dash @ [CHR 0x22] @ nullish (g 2) [] @ [CHR 0x22] else []))
     else if action = ''burn'' then Some (a 0 3 @ '' LASSECASH burned'')
     else if action = ''mint'' then Some (a 0 3 @ '' LASSECASH locked for '' @ tpl (g 1) @ '' days'')
     else if action = ''claim_mint'' then Some (''Closed mint #'' @ tpl (g 0))
     else if action = ''sweep_mint'' then Some (''Swept '' @ who (g 0) @ [CHR 0x27] @ ''s dead mint #'' @ tpl (g 1))
     else if action = ''good_accounting'' then Some (''Armed Good Accounting on mint #'' @ tpl (g 0))
     else if action = ''set_duration'' then Some (''Monthly Proof-of-Brain mint set to '' @ tpl (g 0) @ '' days'')
     else if action = ''swap_lassecash_hbd'' \<or> action = ''swap_lc_hbd'' then
       Some (''Sold '' @ a 0 3 @ '' LASSECASH'' @ middot @ ''at least '' @ a 1 6 @ '' HBD'' @ middot @ ''core pool'')
     else if action = ''swap_hbd_lassecash'' \<or> action = ''swap_hbd_lc'' then
       Some (''Bought with '' @ a 0 6 @ '' HBD'' @ middot @ ''at least '' @ a 1 3 @ '' LASSECASH'' @ middot @ ''core pool'')
     else if action = ''add_liquidity'' then Some (''Added '' @ a 0 3 @ '' LASSECASH + '' @ a 1 6 @ '' HBD'')
     else if action = ''remove_liquidity'' then Some (''Withdrew tranche #'' @ tpl (g 0))
     else if action = ''claim_pool'' then (let ids = split_on (CHR '','') (nullish (g 0) []) in
       Some (''Claimed rewards on tranche'' @ (if length ids > 1 then ''s'' else []) @ '' '' @ js_join '', '' (map (\<lambda>i. ''#'' @ i) ids)))
     else if action = ''sweep_tranche'' then Some (''Evicted '' @ who (g 0) @ [CHR 0x27] @ ''s dormant tranche #'' @ tpl (g 1))
     else if action = ''post'' then Some (tpl (g 0) @ middot @ indexed WINDOW (g 1) @ middot @ indexed MODE (g 2))
     else if action = ''comment'' then Some (''Replied to '' @ post_of (g 1) (g 2))
     else if action = ''vote'' then (let kind = (if starts_with ''re-'' (nullish (g 1) []) then ''comment'' else ''post'') in
       Some (if g 2 = Some ''0'' then ''Removed vote on '' @ kind @ '': '' @ post_of (g 0) (g 1)
         else ''Voted '' @ tpl (g 2) @ ''% on '' @ kind @ '': '' @ post_of (g 0) (g 1)))
     else if action = ''payout'' then Some (''Settled '' @ post_of (g 0) (g 1))
     else if action = ''promote_post'' then Some (a 2 3 @ '' LASSECASH burned to promote '' @ post_of (g 0) (g 1))
     else if action = ''claim_curation'' then Some (''Claimed curation on '' @ post_of (g 0) (g 1))
     else if action = ''sweep_curation'' then Some (''Swept expired curation on '' @ post_of (g 0) (g 1))
     else if action = ''claim_migration'' then Some (''Claimed '' @ a 0 3 @ '' LASSECASH liquid + '' @ a 1 3 @ '' as a mint'')
     else if action = ''record_burn'' then Some (''Recorded '' @ who (g 0) @ [CHR 0x27] @ ''s burn'')
     else if action = ''settle'' then Some ''Settled this account''
     else if action = ''settle_pending'' then Some ''Settled pending rewards''
     else if action = ''advance'' then
       Some (if nullish (g 0) [] \<noteq> [] then ''Advanced the accrual by '' @ nullish (g 0) [] @ '' days'' else ''Advanced the accrual'')
     else if action = ''promote'' then Some (''Offered '' @ who (g 0) @ '' a board seat'')
     else if action = ''set_param'' then (let k = nullish (g 0) [] in
       Some (case PARAMS k of Some (what, unit) \<Rightarrow> ''Voted: '' @ what @ '' '' @ a 1 0 @ '' '' @ unit
         | None \<Rightarrow> if k \<in> set PROTO_KEYS then ''Voted: undefined '' @ a 1 0 @ '' undefined''
             else tpl (g 0) @ '' preference set to '' @ tpl (g 1)))
     else None)"

text \<open>MAGI's own operations.\<close>

definition magi_op :: "(string \<Rightarrow> string) \<Rightarrow> json \<Rightarrow> string option result" where
  "magi_op loc j = (let m = (\<lambda>k. jfield k j); t = (\<lambda>k. to_text (the (m k))) in
     if m ''type'' = Some (JStr ''swap'') \<and> truthy (m ''asset_in'') \<and> truthy (m ''asset_out'') then
       rbind (magiAmount loc (m ''amount_in'') (the (m ''asset_in''))) (\<lambda>inAmt.
       rbind (magiAmount loc (m ''min_amount_out'') (the (m ''asset_out''))) (\<lambda>floor.
       rbind (as_string (the (m ''asset_in''))) (\<lambda>ai.
       rbind (if map to_upper ai = ''LASSECASH'' then Inr ''LASSECASH'' else as_string (the (m ''asset_out''))) (\<lambda>ao.
         Inr (Some (''Swapped '' @ inAmt @ '' '' @ ai
           @ (if floor \<noteq> [] then middot @ ''at least '' @ floor @ '' '' @ t ''asset_out'' else '' for '' @ t ''asset_out'')
           @ (if map to_upper ao = ''LASSECASH'' then middot @ ''native pool'' else [])))))))
     else if m ''type'' = Some (JStr ''deposit'') \<and> truthy (m ''asset0'') \<and> truthy (m ''asset1'') then
       rbind (magiAmount loc (m ''amount0'') (the (m ''asset0''))) (\<lambda>a0.
       rbind (magiAmount loc (m ''amount1'') (the (m ''asset1''))) (\<lambda>a1.
         Inr (Some (''Added '' @ a0 @ '' '' @ t ''asset0'' @ '' + '' @ a1 @ '' '' @ t ''asset1''))))
     else if truthy (m ''type'') then Inr (Some (t ''type''))
     else Inr None)"

text \<open>'try ... catch' around a parse: what it throws falls through.\<close>

definition try_json :: "string \<Rightarrow> (json \<Rightarrow> string option result) \<Rightarrow> string option" where
  "try_json payload f = (if starts_with ''{'' payload then or_default None (rbind (json_parse payload) f) else None)"

definition describeCall :: "(string \<Rightarrow> string) \<Rightarrow> string \<Rightarrow> string \<Rightarrow> string option \<Rightarrow> string" where
  "describeCall loc action payload contract = (let f = split_on (CHR ''|'') payload; g = nth_opt f in
     if action = ''+transfer'' then amt loc 3 (map_option JStr (g 1)) @ '' LASSECASH from ''
       @ (if who (g 2) = [] then ''another account'' else who (g 2))
     else if action = ''+ledger'' \<or> action = ''ledger'' then (let unit = map to_upper (nullish (g 3) []) in
       if action = ''+ledger'' then tpl (g 2) @ '' '' @ unit @ '' from '' @ who (g 0)
       else tpl (g 2) @ '' '' @ unit @ '' to '' @ who (g 1))
     else case try_json payload (mapped_call loc action contract) of Some s \<Rightarrow> s
     | None \<Rightarrow> (case pipe_call loc action f of Some s \<Rightarrow> s
       | None \<Rightarrow> (case try_json payload (magi_op loc) of Some s \<Rightarrow> s | None \<Rightarrow> payload)))"

section \<open>What a call paid\<close>

definition NUM :: rx where "NUM = XCap 1 (XRe (RPlus (RChr is_digit)))"

definition claimed_liquid :: rx where "claimed_liquid = XSeqs [start_of, XLit ''claimed '', NUM, XLit '' liquid'']"
definition claimed_any :: rx where "claimed_any = XSeqs [start_of, XLit ''claimed '', NUM]"

definition withdrew_both :: rx where
  "withdrew_both = XSeqs [start_of, XLit ''withdrew '', NUM, XLit '' '', XRe (RAlt (RLit ''LASSECASH'') (RLit ''LC'')),
     XLit '' and '', XCap 2 (XRe (RPlus (RChr is_digit))), XLit '' HBD'']"

definition swapped_for :: rx where
  "swapped_for = XSeqs [start_of, XLit ''swapped for '', NUM, XLit '' '', XCap 2 (XRe (RAlts [RLit ''HBD'', RLit ''LASSECASH'', RLit ''LC'']))]"

definition paid_the_author :: rx where "paid_the_author = XSeqs [start_of, XLit ''paid author '', NUM]"

definition router_answer :: "(string \<Rightarrow> string) \<Rightarrow> string \<Rightarrow> string \<Rightarrow> string option" where
  "router_answer loc ret payload = or_default None (rbind (json_parse ret) (\<lambda>r. rbind (json_parse payload) (\<lambda>p.
     if jfield ''type'' p = Some (JStr ''swap'') \<and> truthy (jfield ''amount_out'' r) \<and> truthy (jfield ''asset_out'' p) then
       rmap (\<lambda>a. Some (''received '' @ a @ '' '' @ to_text (the (jfield ''asset_out'' p))))
         (magiAmount loc (jfield ''amount_out'' r) (the (jfield ''asset_out'' p)))
     else Inr None)))"

definition describeResult :: "(string \<Rightarrow> string) \<Rightarrow> string \<Rightarrow> string option \<Rightarrow> string option \<Rightarrow> string" where
  "describeResult loc action ret payload = (case ret of None \<Rightarrow> [] | Some s \<Rightarrow>
     if s = [] then [] else
     let n = (\<lambda>t dp. amt loc dp (Some (JStr t)));
         router = (if starts_with ''{'' s \<and> opt_holds (starts_with ''{'') payload then router_answer loc s (the payload) else None)
     in case router of Some t \<Rightarrow> t | None \<Rightarrow>
     (case rx_match claimed_liquid s of Some (_, g) \<Rightarrow> ''received '' @ n (g 1) 2 @ '' LASSECASH liquid'' | None \<Rightarrow>
     (case rx_match claimed_any s of Some (_, g) \<Rightarrow> ''received '' @ n (g 1) 2 @ '' LASSECASH'' | None \<Rightarrow>
     (case rx_match withdrew_both s of Some (_, g) \<Rightarrow> ''received '' @ n (g 1) 2 @ '' LASSECASH + '' @ n (g 2) 3 @ '' HBD'' | None \<Rightarrow>
     (case rx_match swapped_for s of Some (_, g) \<Rightarrow>
        ''received '' @ n (g 1) (if g 2 = ''HBD'' then 3 else 2) @ '' '' @ (if g 2 = ''HBD'' then ''HBD'' else ''LASSECASH'') | None \<Rightarrow>
     (case rx_match paid_the_author s of Some (_, g) \<Rightarrow> ''author paid '' @ n (g 1) 2 @ '' LASSECASH'' | None \<Rightarrow> []))))))"

end
