(* ===== verification/Session.thy ===== *)
theory Session
  imports Client AccountHistory
begin

text \<open>
  The page's store (src/web/src/lib/chain.svelte.ts): what it last read of the chain,
  who is signed in, and what 'submit' does between a press and its verdict.  What is
  outside the store - the node, the wallet, the clock - is a world the store's
  operations pass along: a request takes the world and returns its answer with the
  world after it, so two requests may get different answers.  The poll and the user
  run one operation at a time.  The two counters say how often the verdict was
  asked for and how long the store has waited; the program does not keep them.
\<close>

section \<open>The store\<close>

datatype signer_kind = NoSigner | WalletSigner | DevSignerOf string

record 'w store =
  st_info :: "chain_info option"
  st_me :: "account_view option"
  st_account :: "string option"
  st_ready :: bool
  st_error :: "string option"
  st_failures :: nat
  st_busy :: bool
  st_confirming :: bool
  st_rc :: "resource_credits option"
  st_rcUnknown :: bool
  st_signer :: signer_kind
  st_saved :: "string option"
  st_world :: 'w
  st_asked :: nat
  st_waited :: int

definition fresh_store :: "'w \<Rightarrow> 'w store" where
  "fresh_store w = \<lparr>st_info = None, st_me = None, st_account = None, st_ready = False, st_error = None, st_failures = 0,
     st_busy = False, st_confirming = False, st_rc = None, st_rcUnknown = False, st_signer = NoSigner, st_saved = None,
     st_world = w, st_asked = 0, st_waited = 0\<rparr>"

text \<open>What the store asks of the client, the wallet and the engine's loader.\<close>

record 'w page_env =
  pe_wallet_mode :: bool
  pe_wallet :: bool
  pe_chain :: "'w \<Rightarrow> chain_info result \<times> 'w"
  pe_account :: "string \<Rightarrow> 'w \<Rightarrow> account_view result \<times> 'w"
  pe_credits :: "'w \<Rightarrow> resource_credits option result \<times> 'w"
  pe_status :: "string \<Rightarrow> 'w \<Rightarrow> tx_status result \<times> 'w"
  pe_login :: "string \<Rightarrow> 'w \<Rightarrow> string result \<times> 'w"
  pe_restore :: "'w \<Rightarrow> string option \<times> 'w"
  pe_load :: "'w \<Rightarrow> bool result \<times> 'w"
  pe_advance :: "int \<Rightarrow> 'w \<Rightarrow> unit result \<times> 'w"
  pe_wait :: "int \<Rightarrow> 'w \<Rightarrow> 'w"

definition ask_page :: "('w \<Rightarrow> 'a \<times> 'w) \<Rightarrow> 'w store \<Rightarrow> 'a \<times> 'w store" where
  "ask_page q s = (case q (st_world s) of (a, w) \<Rightarrow> (a, s\<lparr>st_world := w\<rparr>))"

definition pause :: "'w page_env \<Rightarrow> int \<Rightarrow> 'w store \<Rightarrow> 'w store" where
  "pause env ms s = s\<lparr>st_world := pe_wait env ms (st_world s), st_waited := st_waited s + ms\<rparr>"

section \<open>What a refusal says\<close>

definition chainRefusal :: "string option \<Rightarrow> string" where
  "chainRefusal raw = (let r = nullish raw []; e = map to_lower r; tail = (if r = [] then [] else '' ('' @ r @ '')'') in
     if str_includes ''cost limit'' e \<or> str_includes ''gas_limit'' e then
       ''Not enough resource credits. More HBD on MAGI fixes it instantly.''
     else if str_includes ''minimum rc'' e \<or> str_includes ''rcs available'' e then
       ''Out of resource credits. More HBD on MAGI fixes it instantly.''
     else if str_includes ''insufficient balance'' e \<and> str_includes ''ledger'' e then
       ''MAGI would not release the HBD for this. Your HBD is also your resource credits, so not ''
       @ ''all of it can go out at once'' @ em_dash @ ''try a smaller amount, or deposit more.'' @ tail
     else if str_includes ''below the minimum required'' e then ''The chain refused this swap due to slippage.''
     else if str_includes ''no caller intent'' e then
       ''This call needed permission to draw HBD and the wallet did not grant it.'' @ tail
     else if r = [] then ''The chain refused this call.''
     else ''The chain refused this: '' @ r)"

section \<open>Reading the chain\<close>

definition outage :: "'w store \<Rightarrow> bool" where
  "outage s = (st_error s \<noteq> None \<and> (st_info s = None \<or> 2 \<le> st_failures s))"

definition message_of :: "js_error \<Rightarrow> string" where
  "message_of e = (case e of JsError m \<Rightarrow> m)"

text \<open>The meter is read beside the rest and touches its own two fields only; its
  answer is taken where the request is sent.\<close>

definition read_credits :: "'w page_env \<Rightarrow> 'w store \<Rightarrow> 'w store" where
  "read_credits env s = (case ask_page (pe_credits env) s of
     (Inr r, t) \<Rightarrow> t\<lparr>st_rc := r, st_rcUnknown := (r = None)\<rparr>
   | (Inl e, t) \<Rightarrow> t\<lparr>st_rcUnknown := True\<rparr>)"

definition read_failed :: "js_error \<Rightarrow> 'w store \<Rightarrow> 'w store" where
  "read_failed e s = s\<lparr>st_error := Some (message_of e), st_failures := st_failures s + 1\<rparr>"

definition read_done :: "'w store \<Rightarrow> 'w store" where
  "read_done s = s\<lparr>st_error := None, st_failures := 0\<rparr>"

definition refresh :: "'w page_env \<Rightarrow> 'w store \<Rightarrow> 'w store" where
  "refresh env s = (case ask_page (pe_chain env) s of
     (Inl e, s1) \<Rightarrow> read_failed e s1
   | (Inr i, s1) \<Rightarrow> (let s2 = s1\<lparr>st_info := Some i\<rparr> in
       case st_account s2 of
         None \<Rightarrow> read_done (s2\<lparr>st_rc := None, st_rcUnknown := False\<rparr>)
       | Some a \<Rightarrow> (case ask_page (pe_account env a) s2 of
           (Inl e, s3) \<Rightarrow> read_failed e s3
         | (Inr v, s3) \<Rightarrow> read_done (read_credits env (s3\<lparr>st_me := Some v\<rparr>)))))"

definition refreshWithRetry :: "'w page_env \<Rightarrow> 'w store \<Rightarrow> 'w store" where
  "refreshWithRetry env s = (let s1 = refresh env s in
     if st_error s1 \<noteq> None then refresh env (pause env 1200 s1) else s1)"

text \<open>The engine and the chain load side by side, here with the loader settling last; a
  loader that fails is the error shown.\<close>

definition page_init :: "'w page_env \<Rightarrow> 'w store \<Rightarrow> 'w store" where
  "page_init env s = (let s1 = refreshWithRetry env s in
     case ask_page (pe_load env) s1 of
       (Inr r, s2) \<Rightarrow> s2\<lparr>st_ready := r\<rparr>
     | (Inl e, s2) \<Rightarrow> s2\<lparr>st_error := Some (message_of e)\<rparr>)"

text \<open>The backend reports epoch 0, and the calendar month stands in.\<close>

definition settle_fields :: "account_view \<Rightarrow> settle_view" where
  "settle_fields v = \<lparr>se_pending = av_pending v, se_pending_epoch = av_pending_epoch v,
     se_pending_curation = Some (av_pending_curation v)\<rparr>"

definition settleDue :: "int \<Rightarrow> int \<Rightarrow> 'w store \<Rightarrow> bool result" where
  "settleDue year month s = (let epoch = (case st_info s of None \<Rightarrow> 0 | Some i \<Rightarrow> ci_epoch i) in
     settleIsDue (map_option settle_fields (st_me s)) (if epoch \<noteq> 0 then epoch else currentMonthEpoch year month))"

section \<open>Signing in and out\<close>

definition signInWithWallet :: "'w page_env \<Rightarrow> string \<Rightarrow> 'w store \<Rightarrow> unit result \<times> 'w store" where
  "signInWithWallet env nm s = (if \<not> pe_wallet env then (throw ''wallet mode is not enabled'', s)
     else case ask_page (pe_login env nm) s of
       (Inl e, s1) \<Rightarrow> (Inl e, s1)
     | (Inr a, s1) \<Rightarrow> (Inr (), refresh env (s1\<lparr>st_account := Some (''hive:'' @ a), st_signer := WalletSigner\<rparr>)))"

definition signIn :: "'w page_env \<Rightarrow> string \<Rightarrow> 'w store \<Rightarrow> unit result \<times> 'w store" where
  "signIn env nm s = (let a = (if starts_with ''hive:'' nm then nm else ''hive:'' @ nm); s1 = s\<lparr>st_account := Some a\<rparr> in
     if pe_wallet_mode env then (throw ''dev sign-in is disabled against a real chain'', s1)
     else (Inr (), refresh env (s1\<lparr>st_signer := DevSignerOf a, st_saved := Some a\<rparr>)))"

definition signOut :: "'w store \<Rightarrow> 'w store" where
  "signOut s = s\<lparr>st_account := None, st_me := None, st_signer := NoSigner, st_saved := None\<rparr>"

definition restoreSession :: "'w page_env \<Rightarrow> 'w store \<Rightarrow> 'w store" where
  "restoreSession env s = (if pe_wallet env then
       (case ask_page (pe_restore env) s of
          (None, s1) \<Rightarrow> s1
        | (Some u, s1) \<Rightarrow> if u = [] then s1 else refresh env (s1\<lparr>st_account := Some (''hive:'' @ u), st_signer := WalletSigner\<rparr>))
     else (case st_saved s of None \<Rightarrow> s | Some a \<Rightarrow> if a = [] then s else snd (signIn env a s)))"

definition advanceDays :: "'w page_env \<Rightarrow> int \<Rightarrow> 'w store \<Rightarrow> unit result \<times> 'w store" where
  "advanceDays env days s = (case ask_page (pe_advance env days) (s\<lparr>st_busy := True\<rparr>) of
     (Inl e, s1) \<Rightarrow> (Inl e, s1\<lparr>st_busy := False\<rparr>)
   | (Inr _, s1) \<Rightarrow> (Inr (), (refresh env s1)\<lparr>st_busy := False\<rparr>))"

section \<open>Following a call to its verdict\<close>

definition settled :: "tx_status \<Rightarrow> bool" where
  "settled v = (ts_status v = CONFIRMED \<or> ts_status v = FAILED)"

definition unexplained :: "tx_status \<Rightarrow> bool" where
  "unexplained v = (ts_status v = FAILED \<and> nullish (ts_error v) [] = [])"

text \<open>One question ten seconds later; a question that fails keeps the verdict.\<close>

definition ask_status :: "'w page_env \<Rightarrow> string \<Rightarrow> tx_status \<Rightarrow> 'w store \<Rightarrow> tx_status \<times> 'w store" where
  "ask_status env txId v s = (case ask_page (pe_status env txId) (pause env 10000 s) of
     (Inr u, s1) \<Rightarrow> (u, s1\<lparr>st_asked := st_asked s1 + 1\<rparr>)
   | (Inl e, s1) \<Rightarrow> (v, s1\<lparr>st_asked := st_asked s1 + 1\<rparr>))"

fun poll_verdict :: "'w page_env \<Rightarrow> string \<Rightarrow> nat \<Rightarrow> tx_status \<Rightarrow> 'w store \<Rightarrow> tx_status \<times> 'w store" where
  "poll_verdict env txId 0 v s = (v, s)"
| "poll_verdict env txId (Suc n) v s = (case ask_status env txId v s of
     (u, s1) \<Rightarrow> if settled u then (u, s1) else poll_verdict env txId n u s1)"

fun poll_reason :: "'w page_env \<Rightarrow> string \<Rightarrow> nat \<Rightarrow> tx_status \<Rightarrow> 'w store \<Rightarrow> tx_status \<times> 'w store" where
  "poll_reason env txId 0 v s = (v, s)"
| "poll_reason env txId (Suc n) v s = (if unexplained v then
       (case ask_status env txId v s of (u, s1) \<Rightarrow> poll_reason env txId n u s1)
     else (v, s))"

fun await_change :: "'w page_env \<Rightarrow> nat \<Rightarrow> account_view option \<Rightarrow> 'w store \<Rightarrow> 'w store" where
  "await_change env 0 before s = s"
| "await_change env (Suc n) before s = (if st_me s = before
     then await_change env n before (refresh env (pause env 10000 s)) else s)"

definition STILL_WAITING :: string where
  "STILL_WAITING = ''Still waiting for MAGI to include this transaction'' @ em_dash @ ''the figures update when it lands.''"

definition await_from :: "'w page_env \<Rightarrow> string \<Rightarrow> 'w store \<Rightarrow> tx_status \<times> 'w store" where
  "await_from env txId s = (case poll_verdict env txId 24 \<lparr>ts_status = PENDING, ts_error = None\<rparr> (s\<lparr>st_confirming := True\<rparr>) of
     (v, s1) \<Rightarrow> poll_reason env txId 3 v s1)"

definition awaitVerdict :: "'w page_env \<Rightarrow> string \<Rightarrow> account_view option \<Rightarrow> 'w store \<Rightarrow> string option \<times> 'w store" where
  "awaitVerdict env txId before s = (case await_from env txId s of (v, s1) \<Rightarrow>
     let s2 = refresh env s1 in
     if ts_status v = FAILED then (Some (chainRefusal (ts_error v)), s2\<lparr>st_confirming := False\<rparr>)
     else if ts_status v \<noteq> CONFIRMED then (Some STILL_WAITING, s2\<lparr>st_confirming := False\<rparr>)
     else (None, (refresh env (pause env 10000 (await_change env 6 before s2)))\<lparr>st_confirming := False\<rparr>))"

fun awaitHbd :: "'w page_env \<Rightarrow> nat \<Rightarrow> int option \<Rightarrow> 'w store \<Rightarrow> 'w store" where
  "awaitHbd env 0 before s = s"
| "awaitHbd env (Suc n) before s = (if map_option av_hbd (st_me s) \<noteq> before then s
     else awaitHbd env n before (refresh env (pause env 5000 s)))"

text \<open>A press: the call, its verdict, and the view read again on every path.\<close>

definition submit_press :: "'w page_env \<Rightarrow> ('w \<Rightarrow> tx_result result \<times> 'w) \<Rightarrow> bool \<Rightarrow> 'w store \<Rightarrow> string option \<times> 'w store" where
  "submit_press env fn movesHbd s = (let before = st_me s; hbdBefore = map_option av_hbd (st_me s) in
     case ask_page fn (s\<lparr>st_busy := True\<rparr>) of
       (Inl e, s1) \<Rightarrow> (Some (message_of e), (refresh env s1)\<lparr>st_busy := False\<rparr>)
     | (Inr res, s1) \<Rightarrow>
         if \<not> tr_ok res then (Some (tr_msg res), (refresh env s1)\<lparr>st_busy := False\<rparr>)
         else if pe_wallet_mode env \<and> nullish (tr_txId res) [] \<noteq> [] then
           (case awaitVerdict env (the (tr_txId res)) before s1 of (v, s2) \<Rightarrow>
              (v, (if v = None \<and> movesHbd then awaitHbd env 6 hbdBefore s2 else s2)\<lparr>st_busy := False\<rparr>))
         else (None, (refresh env s1)\<lparr>st_busy := False\<rparr>))"

end
