(* ===== verification/SessionSafety.thy ===== *)
theory SessionSafety
  imports Session
begin

text \<open>
  What the page's store guarantees: following a call always ends, within a bound on
  questions and time; success is shown only for a confirmed transaction; one missed
  poll raises no alarm; and, over every sequence of its operations, it is never left
  busy, never signs in wallet mode with anything but the wallet, and shows an account
  only while one is set.
\<close>

section \<open>What reading leaves alone\<close>

definition same_session :: "'w store \<Rightarrow> 'w store \<Rightarrow> bool" where
  "same_session s t = (st_account t = st_account s \<and> st_busy t = st_busy s \<and> st_confirming t = st_confirming s \<and>
     st_signer t = st_signer s \<and> st_saved t = st_saved s \<and> st_ready t = st_ready s)"

lemma same_refl [simp]: "same_session s s"
  by (simp add: same_session_def)

lemma same_trans [trans]: "same_session s t \<Longrightarrow> same_session t u \<Longrightarrow> same_session s u"
  by (simp add: same_session_def)

lemma ask_same [simp]: "snd (ask_page q s) = s\<lparr>st_world := snd (q (st_world s))\<rparr>" "fst (ask_page q s) = fst (q (st_world s))"
  by (simp_all add: ask_page_def split_beta)

lemma refresh_cases:
  obtains (failed) e t where "refresh env s = read_failed e t" "same_session s t" "st_asked t = st_asked s" "st_waited t = st_waited s"
      "st_failures t = st_failures s" "st_me t = st_me s"
      "st_info t = st_info s \<or> st_info t \<noteq> None"
  | (out) i t where "refresh env s = read_done t" "same_session s t" "st_asked t = st_asked s" "st_waited t = st_waited s"
      "st_info t = Some i" "st_account s = None" "st_me t = st_me s"
  | (good) i v t where "refresh env s = read_done t" "same_session s t" "st_asked t = st_asked s" "st_waited t = st_waited s"
      "st_info t = Some i" "st_account s \<noteq> None" "st_me t = Some v"
proof (cases "pe_chain env (st_world s)")
  case (Pair r w)
  show ?thesis
  proof (cases r)
    case (Inl e)
    show ?thesis using Pair Inl
      by (intro failed [of e "s\<lparr>st_world := w\<rparr>"]) (simp_all add: refresh_def ask_page_def same_session_def)
  next
    case (Inr i)
    let ?s2 = "s\<lparr>st_world := w, st_info := Some i\<rparr>"
    show ?thesis
    proof (cases "st_account s")
      case None
      show ?thesis using Pair Inr None
        by (intro out [of "?s2\<lparr>st_rc := None, st_rcUnknown := False\<rparr>" i]) (simp_all add: refresh_def ask_page_def same_session_def)
    next
      case (Some a)
      obtain r2 w2 where r2: "pe_account env a w = (r2, w2)" by (cases "pe_account env a w")
      show ?thesis
      proof (cases r2)
        case (Inl e)
        show ?thesis using Pair Inr Some r2 Inl
          by (intro failed [of e "?s2\<lparr>st_world := w2\<rparr>"]) (simp_all add: refresh_def ask_page_def same_session_def)
      next
        case I2: (Inr v)
        have k: "same_session u (read_credits env u)" "st_asked (read_credits env u) = st_asked u" "st_waited (read_credits env u) = st_waited u"
          "st_info (read_credits env u) = st_info u" "st_me (read_credits env u) = st_me u" for u
          by (auto simp: read_credits_def ask_page_def same_session_def split: sum.split prod.split)
        let ?t = "read_credits env (?s2\<lparr>st_world := w2, st_me := Some v\<rparr>)"
        show ?thesis using Pair Inr Some r2 I2 k [of "?s2\<lparr>st_world := w2, st_me := Some v\<rparr>"]
          by (intro good [of ?t i v]) (simp_all add: refresh_def ask_page_def same_session_def)
      qed
    qed
  qed
qed

lemma refresh_same [simp]: "same_session s (refresh env s)"
  by (rule refresh_cases [of env s]) (simp_all add: same_session_def read_failed_def read_done_def)

lemma refresh_counts [simp]: "st_asked (refresh env s) = st_asked s" "st_waited (refresh env s) = st_waited s"
  by (rule refresh_cases [of env s]; simp add: read_failed_def read_done_def)+

lemma pause_same [simp]: "same_session s (pause env ms s)"
  by (simp add: pause_def same_session_def)

lemma pause_fields [simp]: "st_asked (pause env ms s) = st_asked s" "st_waited (pause env ms s) = st_waited s + ms"
  "st_me (pause env ms s) = st_me s" "st_error (pause env ms s) = st_error s" "st_failures (pause env ms s) = st_failures s"
  "st_account (pause env ms s) = st_account s" "st_info (pause env ms s) = st_info s"
  by (simp_all add: pause_def)

section \<open>Following a call ends\<close>

lemma ask_status_counts: "ask_status env tx v s = (u, t) \<Longrightarrow>
    st_asked t = st_asked s + 1 \<and> st_waited t = st_waited s + 10000 \<and> same_session s t"
  by (auto simp: ask_status_def ask_page_def pause_def same_session_def split: sum.splits prod.splits)

lemma ask_status_answer: "ask_status env tx v s = (u, t) \<Longrightarrow> u = v \<or> (\<exists>w. fst (pe_status env tx w) = Inr u)"
  by (auto simp: ask_status_def ask_page_def split: sum.splits prod.splits) (metis fst_conv)+

lemma poll_verdict_counts: "poll_verdict env tx n v s = (u, t) \<Longrightarrow>
    st_asked t \<le> st_asked s + n \<and> st_waited s \<le> st_waited t \<and> st_waited t \<le> st_waited s + 10000 * int n \<and> same_session s t"
proof (induction n arbitrary: v s)
  case (Suc n)
  obtain a b where a: "ask_status env tx v s = (a, b)" by (cases "ask_status env tx v s")
  show ?case using Suc.IH [of a b] Suc.prems a ask_status_counts [OF a]
    by (auto split: if_splits intro: same_trans)
qed simp

lemma poll_reason_counts: "poll_reason env tx n v s = (u, t) \<Longrightarrow>
    st_asked t \<le> st_asked s + n \<and> st_waited s \<le> st_waited t \<and> st_waited t \<le> st_waited s + 10000 * int n \<and> same_session s t"
proof (induction n arbitrary: v s)
  case (Suc n)
  obtain a b where a: "ask_status env tx v s = (a, b)" by (cases "ask_status env tx v s")
  show ?case using Suc.IH [of a b] Suc.prems a ask_status_counts [OF a]
    by (auto split: if_splits intro: same_trans)
qed simp

lemma await_change_counts: "st_asked (await_change env n b s) = st_asked s \<and> st_waited s \<le> st_waited (await_change env n b s) \<and>
    st_waited (await_change env n b s) \<le> st_waited s + 10000 * int n \<and> same_session s (await_change env n b s)"
proof (induction n arbitrary: s)
  case (Suc n)
  have "same_session s (refresh env (pause env 10000 s))" using same_trans pause_same refresh_same by blast
  then show ?case using Suc.IH [of "refresh env (pause env 10000 s)"] by (auto intro: same_trans)
qed simp

lemma await_from_counts: "await_from env tx s = (v, t) \<Longrightarrow>
    st_asked t \<le> st_asked s + 27 \<and> st_waited s \<le> st_waited t \<and> st_waited t \<le> st_waited s + 270000 \<and> same_session (s\<lparr>st_confirming := True\<rparr>) t"
proof -
  assume a: "await_from env tx s = (v, t)"
  obtain u m where m: "poll_verdict env tx 24 \<lparr>ts_status = PENDING, ts_error = None\<rparr> (s\<lparr>st_confirming := True\<rparr>) = (u, m)"
    by (cases "poll_verdict env tx 24 \<lparr>ts_status = PENDING, ts_error = None\<rparr> (s\<lparr>st_confirming := True\<rparr>)")
  then have "poll_reason env tx 3 u m = (v, t)" using a by (simp add: await_from_def)
  from poll_reason_counts [OF this] poll_verdict_counts [OF m] show ?thesis by (auto intro: same_trans)
qed

text \<open>C1: following a call asks for its verdict at most 27 times and waits at most 340
  seconds, and leaves no banner behind.\<close>

theorem verdict_ends:
  "st_asked (snd (awaitVerdict env tx before s)) \<le> st_asked s + 27 \<and>
   st_waited (snd (awaitVerdict env tx before s)) \<le> st_waited s + 340000 \<and>
   \<not> st_confirming (snd (awaitVerdict env tx before s))"
proof -
  obtain v t where t: "await_from env tx s = (v, t)" by (cases "await_from env tx s")
  have c: "st_asked (await_change env 6 before (refresh env t)) = st_asked t"
    "st_waited (await_change env 6 before (refresh env t)) \<le> st_waited t + 60000"
    using await_change_counts [of env 6 before "refresh env t"] by simp_all
  show ?thesis using await_from_counts [OF t] c by (simp add: awaitVerdict_def t Let_def)
qed

section \<open>Success means confirmed\<close>

lemma poll_verdict_answer: "poll_verdict env tx n v s = (u, t) \<Longrightarrow> u = v \<or> (\<exists>w. fst (pe_status env tx w) = Inr u)"
proof (induction n arbitrary: v s)
  case (Suc n)
  obtain a b where a: "ask_status env tx v s = (a, b)" by (cases "ask_status env tx v s")
  show ?case using Suc.IH [of a b] Suc.prems a ask_status_answer [OF a] by (auto split: if_splits)
qed simp

lemma poll_reason_answer: "poll_reason env tx n v s = (u, t) \<Longrightarrow> u = v \<or> (\<exists>w. fst (pe_status env tx w) = Inr u)"
proof (induction n arbitrary: v s)
  case (Suc n)
  obtain a b where a: "ask_status env tx v s = (a, b)" by (cases "ask_status env tx v s")
  show ?case using Suc.IH [of a b] Suc.prems a ask_status_answer [OF a] by (auto split: if_splits)
qed simp

lemma await_confirmed:
  assumes "fst (awaitVerdict env tx before s) = None"
  shows "\<exists>w u. fst (pe_status env tx w) = Inr u \<and> ts_status u = CONFIRMED"
proof -
  obtain v t where t: "await_from env tx s = (v, t)" by (cases "await_from env tx s")
  have c: "ts_status v = CONFIRMED" using assms by (auto simp: awaitVerdict_def t Let_def split: if_splits)
  let ?p = "\<lparr>ts_status = PENDING, ts_error = None\<rparr>"
  obtain u m where m: "poll_verdict env tx 24 ?p (s\<lparr>st_confirming := True\<rparr>) = (u, m)"
    by (cases "poll_verdict env tx 24 ?p (s\<lparr>st_confirming := True\<rparr>)")
  then have "poll_reason env tx 3 u m = (v, t)" using t by (simp add: await_from_def)
  then have "v = u \<or> (\<exists>w. fst (pe_status env tx w) = Inr v)" by (rule poll_reason_answer)
  moreover have "u = ?p \<or> (\<exists>w. fst (pe_status env tx w) = Inr u)" using m by (rule poll_verdict_answer)
  ultimately show ?thesis using c by auto
qed


section \<open>The alarm\<close>

text \<open>C1: with the chain once read and the last reading good, one failed reading raises
  no alarm; a second in a row does.\<close>

theorem one_miss_no_alarm:
  assumes "st_info s \<noteq> None" "st_failures s = 0"
  shows "\<not> outage (refresh env s) \<and>
    (st_error (refresh env s) \<noteq> None \<longrightarrow> st_error (refresh env (refresh env s)) \<noteq> None \<longrightarrow> outage (refresh env (refresh env s)))"
proof -
  have one: "st_info (refresh env s) \<noteq> None \<and> st_failures (refresh env s) = (if st_error (refresh env s) = None then 0 else st_failures s + 1)"
    if "st_info s \<noteq> None" for s
    using that by (cases rule: refresh_cases [of env s]) (auto simp: read_failed_def read_done_def)
  show ?thesis using one [OF assms(1)] one [of "refresh env s"] assms(2) by (auto simp: outage_def)
qed

section \<open>Every sequence of operations\<close>

inductive store_step :: "'w page_env \<Rightarrow> 'w store \<Rightarrow> 'w store \<Rightarrow> bool" for env where
  poll: "store_step env s (refresh env s)"
| load: "store_step env s (page_init env s)"
| wallet_in: "store_step env s (snd (signInWithWallet env nm s))"
| dev_in: "store_step env s (snd (signIn env nm s))"
| sign_out: "store_step env s (signOut s)"
| restore: "store_step env s (restoreSession env s)"
| press: "store_step env s (snd (submit_press env fn movesHbd s))"
| advance: "store_step env s (snd (advanceDays env days s))"
| elapse: "store_step env s (pause env ms s)"

definition store_ok :: "'w page_env \<Rightarrow> 'w store \<Rightarrow> bool" where
  "store_ok env s = (\<not> st_busy s \<and> \<not> st_confirming s \<and> (st_failures s = 0 \<or> st_error s \<noteq> None) \<and>
     (st_account s = None \<longrightarrow> st_me s = None) \<and>
     (pe_wallet_mode env \<longrightarrow> st_signer s = NoSigner \<or> st_signer s = WalletSigner))"

text \<open>What reading keeps of it, whatever the two flags.\<close>

definition view_ok :: "'w store \<Rightarrow> bool" where
  "view_ok s = ((st_failures s = 0 \<or> st_error s \<noteq> None) \<and> (st_account s = None \<longrightarrow> st_me s = None))"

lemma refresh_view: "view_ok s \<Longrightarrow> view_ok (refresh env s)"
  by (cases rule: refresh_cases [of env s]) (auto simp: view_ok_def read_failed_def read_done_def same_session_def)

lemma view_pause [simp]: "view_ok (pause env ms s) = view_ok s"
  by (simp add: view_ok_def)

lemma view_flags [simp]: "view_ok (s\<lparr>st_busy := b\<rparr>) = view_ok s" "view_ok (s\<lparr>st_confirming := b\<rparr>) = view_ok s"
  "view_ok (s\<lparr>st_world := w\<rparr>) = view_ok s" "view_ok (s\<lparr>st_asked := k\<rparr>) = view_ok s" "view_ok (s\<lparr>st_ready := r\<rparr>) = view_ok s"
  "view_ok (s\<lparr>st_account := Some a, st_signer := g\<rparr>) = (st_failures s = 0 \<or> st_error s \<noteq> None)"
  by (simp_all add: view_ok_def)

lemma ask_status_view: "ask_status env tx v s = (u, t) \<Longrightarrow> view_ok s \<Longrightarrow> view_ok t"
  by (auto simp: ask_status_def ask_page_def split: sum.splits prod.splits)

lemma poll_verdict_view: "poll_verdict env tx n v s = (u, t) \<Longrightarrow> view_ok s \<Longrightarrow> view_ok t"
proof (induction n arbitrary: v s)
  case (Suc n)
  obtain a b where a: "ask_status env tx v s = (a, b)" by (cases "ask_status env tx v s")
  show ?case using Suc a ask_status_view [OF a] by (auto split: if_splits)
qed simp

lemma poll_reason_view: "poll_reason env tx n v s = (u, t) \<Longrightarrow> view_ok s \<Longrightarrow> view_ok t"
proof (induction n arbitrary: v s)
  case (Suc n)
  obtain a b where a: "ask_status env tx v s = (a, b)" by (cases "ask_status env tx v s")
  show ?case using Suc a ask_status_view [OF a] by (auto split: if_splits)
qed simp

lemma await_change_view: "view_ok s \<Longrightarrow> view_ok (await_change env n b s)"
  by (induction n arbitrary: s) (simp_all add: refresh_view)

lemma awaitHbd_view: "view_ok s \<Longrightarrow> view_ok (awaitHbd env n b s) \<and> same_session s (awaitHbd env n b s)"
proof (induction n arbitrary: s)
  case (Suc n)
  have "same_session s (refresh env (pause env 5000 s))" using same_trans pause_same refresh_same by blast
  then show ?case using Suc.IH [of "refresh env (pause env 5000 s)"] Suc.prems
    by (auto simp: refresh_view intro: same_trans)
qed simp

lemma awaitVerdict_keeps:
  assumes "view_ok s" "awaitVerdict env tx before s = (v, t)"
  shows "view_ok t \<and> \<not> st_confirming t \<and> same_session (s\<lparr>st_confirming := False\<rparr>) t"
proof -
  let ?p = "\<lparr>ts_status = PENDING, ts_error = None\<rparr>"
  obtain a m where m: "poll_verdict env tx 24 ?p (s\<lparr>st_confirming := True\<rparr>) = (a, m)"
    by (cases "poll_verdict env tx 24 ?p (s\<lparr>st_confirming := True\<rparr>)")
  obtain u n where n: "poll_reason env tx 3 a m = (u, n)" by (cases "poll_reason env tx 3 a m")
  have f: "await_from env tx s = (u, n)" by (simp add: await_from_def m n)
  have vn: "view_ok (refresh env n)" using poll_reason_view [OF n] poll_verdict_view [OF m] assms(1) by (simp add: refresh_view)
  have sn: "same_session (s\<lparr>st_confirming := True\<rparr>) (refresh env n)"
    using await_from_counts [OF f] same_trans refresh_same by blast
  have sc: "same_session (s\<lparr>st_confirming := True\<rparr>) (refresh env (pause env 10000 (await_change env 6 before (refresh env n))))"
    using sn await_change_counts [of env 6 before "refresh env n"] same_trans pause_same refresh_same by blast
  have flag: "same_session (s\<lparr>st_confirming := True\<rparr>) x \<Longrightarrow> same_session (s\<lparr>st_confirming := False\<rparr>) (x\<lparr>st_confirming := False\<rparr>)" for x
    by (simp add: same_session_def)
  show ?thesis
    using assms(2) vn await_change_view [OF vn] flag [OF sn] flag [OF sc]
    by (auto simp: awaitVerdict_def f Let_def refresh_view split: if_splits)
qed

lemma submit_press_keeps:
  assumes "view_ok s" "\<not> st_confirming s"
  shows "view_ok (snd (submit_press env fn h s)) \<and> \<not> st_busy (snd (submit_press env fn h s)) \<and> \<not> st_confirming (snd (submit_press env fn h s)) \<and>
    st_signer (snd (submit_press env fn h s)) = st_signer s"
proof -
  let ?s = "s\<lparr>st_busy := True\<rparr>"
  obtain r w where r: "fn (st_world s) = (r, w)" by (cases "fn (st_world s)")
  let ?s1 = "?s\<lparr>st_world := w\<rparr>"
  have a: "ask_page fn ?s = (r, ?s1)" using r by (simp add: ask_page_def)
  have s1: "view_ok ?s1" using assms by simp
  have plain: "view_ok (refresh env ?s1)" "same_session ?s1 (refresh env ?s1)" using s1 by (simp_all add: refresh_view)
  show ?thesis
  proof (cases "\<exists>res. r = Inr res \<and> tr_ok res \<and> pe_wallet_mode env \<and> nullish (tr_txId res) [] \<noteq> []")
    case True
    then obtain res where res: "r = Inr res" "tr_ok res" "pe_wallet_mode env" "nullish (tr_txId res) [] \<noteq> []" by blast
    obtain v t where t: "awaitVerdict env (the (tr_txId res)) (st_me s) ?s1 = (v, t)"
      by (cases "awaitVerdict env (the (tr_txId res)) (st_me s) ?s1")
    have k: "view_ok t" "\<not> st_confirming t" "st_signer t = st_signer s"
      using awaitVerdict_keeps [OF s1 t] by (auto simp: same_session_def)
    show ?thesis using res k awaitHbd_view [OF k(1), of env 6 "map_option av_hbd (st_me s)"]
      by (simp add: submit_press_def Let_def a t same_session_def)
  next
    case False
    then have "\<exists>m. submit_press env fn h s = (m, (refresh env ?s1)\<lparr>st_busy := False\<rparr>)"
      by (cases r) (auto simp: submit_press_def Let_def a)
    then show ?thesis using plain assms(2) by (auto simp: same_session_def)
  qed
qed

lemma store_ok_view: "store_ok env s \<longleftrightarrow> \<not> st_busy s \<and> \<not> st_confirming s \<and> view_ok s \<and>
    (pe_wallet_mode env \<longrightarrow> st_signer s = NoSigner \<or> st_signer s = WalletSigner)"
  by (auto simp: store_ok_def view_ok_def)

lemma refresh_ok: "store_ok env s \<Longrightarrow> store_ok env (refresh env s)"
  using refresh_same [of s env] by (auto simp: store_ok_view refresh_view same_session_def)

lemma pause_ok: "store_ok env s \<Longrightarrow> store_ok env (pause env ms s)"
  using pause_same [of s env ms] by (auto simp: store_ok_view same_session_def)

lemma signed_in_ok: "store_ok env s \<Longrightarrow> store_ok env (s\<lparr>st_world := w, st_account := Some a, st_signer := WalletSigner\<rparr>)"
  by (auto simp: store_ok_def)

lemma signIn_ok: "store_ok env s \<Longrightarrow> store_ok env (snd (signIn env nm s))"
proof -
  assume s: "store_ok env s"
  have "store_ok env (s\<lparr>st_account := Some a, st_signer := DevSignerOf a, st_saved := Some a\<rparr>)" if "\<not> pe_wallet_mode env" for a
    using s that by (auto simp: store_ok_def)
  moreover have "store_ok env (s\<lparr>st_account := Some a\<rparr>)" for a using s by (auto simp: store_ok_def)
  ultimately show ?thesis by (simp add: signIn_def Let_def refresh_ok)
qed

lemma store_step_ok: "store_step env s t \<Longrightarrow> store_ok env s \<Longrightarrow> store_ok env t"
proof (induction rule: store_step.induct)
  case (load s)
  have r: "store_ok env (refreshWithRetry env s)" using load by (auto simp: refreshWithRetry_def Let_def refresh_ok pause_ok)
  then show ?case
    by (auto simp: page_init_def Let_def ask_page_def store_ok_def split: sum.split prod.split)
next
  case (wallet_in s nm)
  then show ?case
    by (auto simp: signInWithWallet_def ask_page_def split: sum.split prod.split intro!: refresh_ok) (auto simp: store_ok_def)
next
  case (restore s)
  then show ?case
    by (auto simp: restoreSession_def ask_page_def signIn_ok split: option.split prod.split intro!: refresh_ok) (auto simp: store_ok_def)
next
  case (press s fn movesHbd)
  then show ?case using submit_press_keeps [of s env fn movesHbd] by (auto simp: store_ok_view)
next
  case (advance s days)
  then show ?case using refresh_same [of "s\<lparr>st_busy := True, st_world := snd (pe_advance env days (st_world s))\<rparr>" env]
    refresh_view [of "s\<lparr>st_busy := True, st_world := snd (pe_advance env days (st_world s))\<rparr>" env]
    by (auto simp: advanceDays_def ask_page_def store_ok_view same_session_def split: sum.split prod.split)
next
  case (sign_out s)
  then show ?case by (auto simp: signOut_def store_ok_def)
qed (auto simp: refresh_ok pause_ok signIn_ok)


text \<open>A page against a real chain that nobody can reach.\<close>

definition dead_page :: "unit page_env" where
  "dead_page = \<lparr>pe_wallet_mode = True, pe_wallet = True, pe_chain = (\<lambda>w. (throw ''node down'', w)),
     pe_account = (\<lambda>a w. (throw ''node down'', w)), pe_credits = (\<lambda>w. (Inr None, w)), pe_status = (\<lambda>t w. (throw ''node down'', w)),
     pe_login = (\<lambda>n w. (Inr n, w)), pe_restore = (\<lambda>w. (None, w)), pe_load = (\<lambda>w. (Inr True, w)),
     pe_advance = (\<lambda>d w. (throw ''no clock'', w)), pe_wait = (\<lambda>ms w. w)\<rparr>"


text \<open>C1: against a real chain the dev sign-in throws, but only after it has set the
  account: the page then reads and shows that account, with no signer.\<close>

theorem refused_sign_in_sets_account:
  assumes "pe_wallet_mode env" "starts_with ''hive:'' nm = False"
  shows "fst (signIn env nm s) = throw ''dev sign-in is disabled against a real chain'' \<and>
    st_account (snd (signIn env nm s)) = Some (''hive:'' @ nm) \<and> st_signer (snd (signIn env nm s)) = st_signer s"
  using assms by (simp add: signIn_def)

lemma refused_sign_in_sets_account_witness:
  "pe_wallet_mode dead_page \<and> starts_with ''hive:'' ''al'' = False \<and>
   st_account (snd (signIn dead_page ''al'' (fresh_store ()))) = Some ''hive:al''"
proof (intro conjI)
  show m: "pe_wallet_mode dead_page" and n: "starts_with ''hive:'' ''al'' = False"
    by (simp_all add: dead_page_def)
  show "st_account (snd (signIn dead_page ''al'' (fresh_store ()))) = Some ''hive:al''"
    using refused_sign_in_sets_account [OF m n, of "fresh_store ()"] by simp
qed

section \<open>Pages on which the theorems apply\<close>

text \<open>A node that confirms at once.\<close>

definition quick_page :: "unit page_env" where
  "quick_page = dead_page\<lparr>pe_status := (\<lambda>t w. (Inr \<lparr>ts_status = CONFIRMED, ts_error = None\<rparr>, w))\<rparr>"

definition sent_call :: "unit \<Rightarrow> tx_result result \<times> unit" where
  "sent_call w = (Inr \<lparr>tr_ok = True, tr_msg = [], tr_height = 0, tr_txId = Some ''ab''\<rparr>, w)"


definition read_once :: "unit store" where
  "read_once = (fresh_store ())\<lparr>st_info := Some example_info\<rparr>"

lemma one_miss_no_alarm_witness: "st_info read_once \<noteq> None \<and> st_failures read_once = 0 \<and> \<not> outage (refresh dead_page read_once)"
proof (intro conjI)
  show i: "st_info read_once \<noteq> None" and f: "st_failures read_once = 0" by (simp_all add: read_once_def fresh_store_def)
  show "\<not> outage (refresh dead_page read_once)" using one_miss_no_alarm [OF i f, of dead_page] by blast
qed

end
