(* ===== verification/FeedPage.thy ===== *)
theory FeedPage
  imports Feed AccountHistory Markdown Site "HOL-Library.Multiset"
begin

text \<open>
  The front page (the script of src/web/src/routes/+page.svelte): the posts the server
  rendered, joined with the money the browser reads, ranked, slotted and - after a vote -
  held still.  The state is the record of the page's own variables; every '$derived'
  value is a function of it.  A figure of a view is written by 'fromUnits', so comparing
  two of them does not throw; the model reads anything else as zero.
\<close>

section \<open>The page's state\<close>

datatype feed_sort = Trending | New

record frozen_order =
  fo_hot :: "string list"
  fo_shown :: "(string \<times> bool) list"

record feed_page =
  fp_data :: "post_meta list"
  fp_live :: "post_view list"
  fp_hydrated :: bool
  fp_filter :: "window option"
  fp_sort :: feed_sort
  fp_error :: "string option"
  fp_olderOpen :: nat
  fp_frozen :: "frozen_order option"
  fp_justVoted :: "string option"
  fp_height :: int
  fp_savedSort :: "string option"

record row =
  rw_post :: post_meta
  rw_slot :: bool

definition card_key :: "post_meta \<Rightarrow> string" where
  "card_key p = pm_author p @ ''/'' @ pm_permlink p"

definition live_key :: "post_view \<Rightarrow> string" where
  "live_key p = pv_author p @ ''/'' @ pv_permlink p"

text \<open>A Map built from pairs keeps the last of equal keys.\<close>

definition rewards :: "feed_page \<Rightarrow> string \<Rightarrow> post_view option" where
  "rewards s k = map_of (rev (map (\<lambda>p. (live_key p, p)) (fp_live s))) k"

definition all_posts :: "feed_page \<Rightarrow> post_meta list" where
  "all_posts s = (let seen = map card_key (fp_data s) in
     fp_data s @ filter (\<lambda>p. card_key p \<notin> set seen) (map view_meta (fp_live s)))"

section \<open>The orders\<close>

definition money :: "amount \<Rightarrow> int" where
  "money a = or_default 0 (toUnits a)"

definition payout_of :: "feed_page \<Rightarrow> post_meta \<Rightarrow> int" where
  "payout_of s p = money (case rewards s (card_key p) of None \<Rightarrow> ''0'' | Some m \<Rightarrow> pv_pending_payout m)"

definition bid :: "feed_page \<Rightarrow> post_meta \<Rightarrow> int" where
  "bid s p = money (case rewards s (card_key p) of None \<Rightarrow> ''0'' | Some m \<Rightarrow> pv_promoted m)"

definition newer :: "post_meta \<Rightarrow> post_meta \<Rightarrow> bool" where
  "newer a b = str_less (pm_created_time b) (pm_created_time a)"

definition HOT_SLOTS :: nat where "HOT_SLOTS = 3"
definition OLDER_PAGE :: nat where "OLDER_PAGE = 20"
definition PROMOTED_SLOT_EVERY :: nat where "PROMOTED_SLOT_EVERY = 5"

definition is_hot :: "feed_page \<Rightarrow> post_meta \<Rightarrow> bool" where
  "is_hot s p = (pm_window p = Viral \<and> (case rewards s (card_key p) of None \<Rightarrow> False
     | Some m \<Rightarrow> pv_registered m \<and> \<not> pv_paid_out m \<and> \<not> pv_payable m \<and> money (pv_pending_payout m) > 0))"

definition rankedHot :: "feed_page \<Rightarrow> post_meta list" where
  "rankedHot s = (if fp_filter s \<noteq> None \<or> fp_sort s \<noteq> Trending \<or> \<not> fp_hydrated s then []
     else take HOT_SLOTS (js_sort (\<lambda>a b. payout_of s a > payout_of s b) (filter (is_hot s) (all_posts s))))"

definition listed :: "feed_page \<Rightarrow> post_meta list" where
  "listed s = (case fp_filter s of None \<Rightarrow> all_posts s | Some w \<Rightarrow> filter (\<lambda>p. pm_window p = w) (all_posts s))"

definition is_older :: "feed_page \<Rightarrow> post_meta \<Rightarrow> bool" where
  "is_older s p = isOlderPaidOut (map_option (\<lambda>m. (pv_paid_out m, pv_payout_height m)) (rewards s (card_key p))) (fp_height s)"

definition older :: "feed_page \<Rightarrow> post_meta list" where
  "older s = (if fp_sort s = Trending \<and> fp_hydrated s then js_sort newer (filter (is_older s) (listed s)) else [])"

definition tier :: "feed_page \<Rightarrow> post_meta \<Rightarrow> nat" where
  "tier s p = trendingTier (pm_registered p) (map_option pv_paid_out (rewards s (card_key p)))"

text \<open>The tier, then the payout, then the newer.\<close>

definition ranks_above :: "feed_page \<Rightarrow> post_meta \<Rightarrow> post_meta \<Rightarrow> bool" where
  "ranks_above s a b = (if tier s a \<noteq> tier s b then tier s a < tier s b
     else if payout_of s a \<noteq> payout_of s b then payout_of s a > payout_of s b else newer a b)"

section \<open>Promoted slots\<close>

definition bids_for_slot :: "feed_page \<Rightarrow> post_meta \<Rightarrow> bool" where
  "bids_for_slot s p = (case rewards s (card_key p) of None \<Rightarrow> False
     | Some m \<Rightarrow> pv_registered m \<and> money (pv_promoted m) > 0 \<and> \<not> pv_paid_out m \<and> \<not> pv_payable m)"

definition slot_winners :: "feed_page \<Rightarrow> post_meta list \<Rightarrow> post_meta list" where
  "slot_winners s ranked = take (length ranked div PROMOTED_SLOT_EVERY)
     (js_sort (\<lambda>a b. bid s a > bid s b) (filter (bids_for_slot s) ranked))"

text \<open>The loop: 'n' rows are out, of the total wanted.\<close>

function slot_rows :: "nat \<Rightarrow> nat \<Rightarrow> post_meta list \<Rightarrow> post_meta list \<Rightarrow> row list" where
  "slot_rows tot n ws rs = (if tot \<le> n then []
     else if (n + 1) mod PROMOTED_SLOT_EVERY = 0 \<and> ws \<noteq> [] then
       \<lparr>rw_post = hd ws, rw_slot = True\<rparr> # slot_rows tot (n + 1) (tl ws) rs
     else if rs \<noteq> [] then \<lparr>rw_post = hd rs, rw_slot = False\<rparr> # slot_rows tot (n + 1) ws (tl rs)
     else if ws \<noteq> [] then \<lparr>rw_post = hd ws, rw_slot = True\<rparr> # slot_rows tot (n + 1) (tl ws) rs
     else [])"
  by pat_completeness auto

termination by (relation "measure (\<lambda>(tot, n, ws, rs). tot - n)") auto

declare slot_rows.simps [simp del]

definition slot_rest :: "feed_page \<Rightarrow> post_meta list \<Rightarrow> post_meta list" where
  "slot_rest s ranked = (let claimed = map card_key (slot_winners s ranked) in
     filter (\<lambda>p. card_key p \<notin> set claimed) ranked)"

definition withPromotedSlots :: "feed_page \<Rightarrow> post_meta list \<Rightarrow> row list" where
  "withPromotedSlots s ranked = slot_rows (length ranked) 0 (slot_winners s ranked) (slot_rest s ranked)"

section \<open>What the page shows\<close>

definition plain_row :: "post_meta \<Rightarrow> row" where
  "plain_row p = \<lparr>rw_post = p, rw_slot = False\<rparr>"

definition unlifted :: "feed_page \<Rightarrow> post_meta list" where
  "unlifted s = (let lifted = map card_key (rankedHot s) in filter (\<lambda>p. card_key p \<notin> set lifted) (listed s))"

definition visible :: "feed_page \<Rightarrow> post_meta list" where
  "visible s = (let hidden = map card_key (older s) in
     js_sort (ranks_above s) (filter (\<lambda>p. card_key p \<notin> set hidden) (unlifted s)))"

definition rankedShown :: "feed_page \<Rightarrow> row list" where
  "rankedShown s = (if fp_sort s = Trending \<and> fp_hydrated s
     then withPromotedSlots s (visible s) @ map plain_row (take (fp_olderOpen s) (older s))
     else map plain_row (js_sort newer (unlifted s)))"

definition by_key :: "feed_page \<Rightarrow> string \<Rightarrow> post_meta option" where
  "by_key s k = map_of (rev (map (\<lambda>p. (card_key p, p)) (all_posts s))) k"

definition hot :: "feed_page \<Rightarrow> post_meta list" where
  "hot s = (case fp_frozen s of None \<Rightarrow> rankedHot s | Some f \<Rightarrow> List.map_filter (by_key s) (fo_hot f))"

definition kept_row :: "feed_page \<Rightarrow> string \<times> bool \<Rightarrow> row option" where
  "kept_row s k = map_option (\<lambda>p. \<lparr>rw_post = p, rw_slot = snd k\<rparr>) (by_key s (fst k))"

definition row_keys :: "row list \<Rightarrow> (string \<times> bool) list" where
  "row_keys = map (\<lambda>r. (card_key (rw_post r), rw_slot r))"

definition shown :: "feed_page \<Rightarrow> row list" where
  "shown s = (case fp_frozen s of None \<Rightarrow> rankedShown s
   | Some f \<Rightarrow> (let seen = map fst (fo_shown f) in
       List.map_filter (kept_row s) (fo_shown f)
       @ filter (\<lambda>r. card_key (rw_post r) \<notin> set seen) (rankedShown s)))"

fun find_index :: "('a \<Rightarrow> bool) \<Rightarrow> 'a list \<Rightarrow> nat option" where
  "find_index P [] = None"
| "find_index P (x # xs) = (if P x then Some 0 else map_option Suc (find_index P xs))"

definition movedTo :: "feed_page \<Rightarrow> string" where
  "movedTo s = (case (fp_frozen s, fp_justVoted s) of
     (Some _, Some k) \<Rightarrow> if k = [] then [] else (case find_index (\<lambda>p. card_key p = k) (rankedHot s) of
         Some h \<Rightarrow> ''now #'' @ show_nat (h + 1) @ '' in What'' @ [CHR 0x27] @ ''s hot''
       | None \<Rightarrow> (case find_index (\<lambda>r. card_key (rw_post r) = k) (rankedShown s) of
           Some t \<Rightarrow> ''now #'' @ show_nat (t + 1) @ '' in the list''
         | None \<Rightarrow> []))
   | _ \<Rightarrow> [])"

definition awaitingPayout :: "feed_page \<Rightarrow> post_view list" where
  "awaitingPayout s = filter pv_payable (fp_live s)"

definition blurb :: "post_meta \<Rightarrow> string" where
  "blurb p = (if pm_summary p \<noteq> [] then pm_summary p else excerpt (pm_body_excerpt p) 160)"

section \<open>What the reader does\<close>

definition restoreSort :: "feed_page \<Rightarrow> feed_page" where
  "restoreSort s = (if fp_savedSort s = Some ''trending'' then s\<lparr>fp_sort := Trending\<rparr>
     else if fp_savedSort s = Some ''new'' then s\<lparr>fp_sort := New\<rparr> else s)"

definition thaw :: "feed_page \<Rightarrow> feed_page" where
  "thaw s = s\<lparr>fp_frozen := None, fp_justVoted := None\<rparr>"

text \<open>A change of filter or sort thaws the order and closes the older posts (the effect
  that watches both).\<close>

definition setSort :: "feed_sort \<Rightarrow> feed_page \<Rightarrow> feed_page" where
  "setSort v s = (let s1 = s\<lparr>fp_sort := v, fp_savedSort := Some (case v of Trending \<Rightarrow> ''trending'' | New \<Rightarrow> ''new'')\<rparr> in
     if v = fp_sort s then s1 else (thaw s1)\<lparr>fp_olderOpen := 0\<rparr>)"

definition setFilter :: "window option \<Rightarrow> feed_page \<Rightarrow> feed_page" where
  "setFilter v s = (if v = fp_filter s then s else (thaw (s\<lparr>fp_filter := v\<rparr>))\<lparr>fp_olderOpen := 0\<rparr>)"

definition feed_loaded :: "post_view list result \<Rightarrow> feed_page \<Rightarrow> feed_page" where
  "feed_loaded r s = (case r of Inr vs \<Rightarrow> s\<lparr>fp_live := vs, fp_hydrated := True, fp_error := None\<rparr>
     | Inl (JsError m) \<Rightarrow> s\<lparr>fp_error := Some m\<rparr>)"

definition voted :: "post_meta \<Rightarrow> feed_page \<Rightarrow> feed_page" where
  "voted p s = s\<lparr>fp_frozen := Some \<lparr>fo_hot = map card_key (rankedHot s),
       fo_shown = row_keys (rankedShown s)\<rparr>,
     fp_justVoted := Some (card_key p)\<rparr>"

section \<open>Every post once\<close>

lemma mset_put_sorted: "mset (put_sorted b x ys) = add_mset x (mset ys)"
  by (induction ys) auto

lemma mset_js_sort [simp]: "mset (js_sort b xs) = mset xs"
  by (induction xs) (simp_all add: js_sort_def mset_put_sorted)

lemma slot_rows_step:
  "tot \<le> n \<Longrightarrow> slot_rows tot n ws rs = []"
  "n < tot \<Longrightarrow> (n + 1) mod 5 = 0 \<Longrightarrow> slot_rows tot n (w # ws) rs = \<lparr>rw_post = w, rw_slot = True\<rparr> # slot_rows tot (n + 1) ws rs"
  "n < tot \<Longrightarrow> (n + 1) mod 5 \<noteq> 0 \<or> ws = [] \<Longrightarrow> slot_rows tot n ws (r # rs) = \<lparr>rw_post = r, rw_slot = False\<rparr> # slot_rows tot (n + 1) ws rs"
  "n < tot \<Longrightarrow> (n + 1) mod 5 \<noteq> 0 \<Longrightarrow> slot_rows tot n (w # ws) [] = \<lparr>rw_post = w, rw_slot = True\<rparr> # slot_rows tot (n + 1) ws []"
  by (subst slot_rows.simps, auto simp: PROMOTED_SLOT_EVERY_def)+

text \<open>What the loop does with the lists it is given, by the number of rows still due.\<close>

lemma slot_rows_cases [consumes 1, case_names stop win ord last]:
  assumes "length ws + length rs = tot - n"
  obtains "tot \<le> n" "ws = []" "rs = []"
    | w ws' where "n < tot" "(n + 1) mod 5 = 0" "ws = w # ws'" "length ws' + length rs = tot - (n + 1)"
    | r rs' where "n < tot" "(n + 1) mod 5 \<noteq> 0 \<or> ws = []" "rs = r # rs'" "length ws + length rs' = tot - (n + 1)"
    | w ws' where "n < tot" "(n + 1) mod 5 \<noteq> 0" "ws = w # ws'" "rs = []" "length ws' = tot - (n + 1)"
  using assms by (cases ws; cases rs; cases "(n + 1) mod 5 = 0"; cases "tot \<le> n"; auto)

lemma slot_rows_order:
  assumes "length ws + length rs = tot - n"
  shows "map rw_post (filter rw_slot (slot_rows tot n ws rs)) = ws \<and>
    map rw_post (filter (\<lambda>r. \<not> rw_slot r) (slot_rows tot n ws rs)) = rs"
  using assms
proof (induction "tot - n" arbitrary: n ws rs)
  case 0
  then show ?case by (simp add: slot_rows_step)
next
  case (Suc d)
  then have d: "d = tot - (n + 1)" by simp
  from Suc.prems show ?case
    by (cases rule: slot_rows_cases) (use Suc.hyps(1) [OF d] in \<open>simp_all add: slot_rows_step\<close>)
qed

lemma slot_rows_places:
  assumes "length ws + length rs = tot - n" "length ws = k - n div 5" "k \<le> tot div 5"
  shows "map rw_slot (slot_rows tot n ws rs) = map (\<lambda>i. (i + 1) mod 5 = 0 \<and> (i + 1) div 5 \<le> k) [n..<tot]"
  using assms
proof (induction "tot - n" arbitrary: n ws rs)
  case 0
  then show ?case by (simp add: slot_rows_step)
next
  case (Suc d)
  then have d: "d = tot - (n + 1)" by simp
  note IH = Suc.hyps(1) [OF d]
  have up: "(n + 1) div 5 = n div 5 + 1" if "(n + 1) mod 5 = 0" using that by presburger
  have same: "(n + 1) div 5 = n div 5" if "(n + 1) mod 5 \<noteq> 0" using that by presburger
  have u: "[n..<tot] = n # [n + 1..<tot]" using Suc.hyps(2) by (simp add: upt_conv_Cons)
  from Suc.prems(1) show ?case
  proof (cases rule: slot_rows_cases)
    case (win w ws')
    have l: "Suc (length ws') = k - n div 5" using Suc.prems(2) win(3) by simp
    have k: "(n + 1) div 5 \<le> k" unfolding up [OF win(2)] using l by linarith
    have k': "length ws' = k - (n + 1) div 5" unfolding up [OF win(2)] using l by linarith
    show ?thesis
      by (simp only: win(3) u list.map row.select_convs slot_rows_step(2) [OF win(1,2)] IH [OF win(4) k' Suc.prems(3)] k win(2) simp_thms)
  next
    case (ord r rs')
    have l: "(n + 1) mod 5 = 0 \<Longrightarrow> k \<le> n div 5" using Suc.prems(2) ord(2) by simp
    have k: "\<not> ((n + 1) mod 5 = 0 \<and> (n + 1) div 5 \<le> k)" using up l by linarith
    have k': "length ws = k - (n + 1) div 5"
      using Suc.prems(2) up same l by (cases "(n + 1) mod 5 = 0") linarith+
    show ?thesis
      by (simp only: ord(3) u list.map row.select_convs slot_rows_step(3) [OF ord(1,2)] IH [OF ord(4) k' Suc.prems(3)] k simp_thms)
  next
    case (last w ws')
    then have "tot - n = k - n div 5" using Suc.prems by simp
    then have False using last(1,2) Suc.prems(3) same by linarith
    then show ?thesis ..
  qed (use Suc.hyps(2) in simp)
qed

lemma mset_split_map: "mset (map f xs) = mset (map f (filter P xs)) + mset (map f (filter (\<lambda>x. \<not> P x) xs))"
  by (induction xs) auto

lemma slot_rows_all:
  assumes "length ws + length rs = tot - n"
  shows "mset (map rw_post (slot_rows tot n ws rs)) = mset ws + mset rs"
  by (subst mset_split_map [where P = rw_slot]) (simp only: slot_rows_order [OF assms])

lemma mset_filter_keys:
  assumes "distinct (map f xs)" "distinct ys" "set ys \<subseteq> set xs"
  shows "mset ys + mset (filter (\<lambda>x. f x \<notin> f ` set ys) xs) = mset xs"
proof -
  have "inj_on f (set xs)" "distinct xs" using assms(1) by (auto simp: distinct_map)
  then have k: "filter (\<lambda>x. f x \<notin> f ` set ys) xs = filter (\<lambda>x. x \<notin> set ys) xs"
    using assms(3) by (intro filter_cong) (auto dest: inj_onD)
  have "mset ys = mset (filter (\<lambda>x. x \<in> set ys) xs)"
    using assms(2,3) \<open>distinct xs\<close> by (subst set_eq_iff_mset_eq_distinct [symmetric]) auto
  then show ?thesis unfolding k by (simp add: mset_split_map [where f = "\<lambda>x. x" and P = "\<lambda>x. x \<in> set ys", simplified])
qed

lemma slot_split:
  assumes "distinct (map card_key ranked)"
  shows "mset (slot_winners s ranked) + mset (slot_rest s ranked) = mset ranked"
    "slot_rest s ranked = filter (\<lambda>p. p \<notin> set (slot_winners s ranked)) ranked"
proof -
  let ?w = "slot_winners s ranked"
  have w: "distinct ?w" "set ?w \<subseteq> set ranked"
    using assms set_take_subset by (fastforce simp: slot_winners_def distinct_map dest: distinct_map [THEN iffD1])+
  show "mset ?w + mset (slot_rest s ranked) = mset ranked"
    using mset_filter_keys [OF assms w] by (simp add: slot_rest_def)
  show "slot_rest s ranked = filter (\<lambda>p. p \<notin> set ?w) ranked"
    using assms w(2) by (auto simp: slot_rest_def distinct_map intro!: filter_cong dest: inj_onD)
qed

lemma slot_lengths:
  assumes "distinct (map card_key ranked)"
  shows "length (slot_winners s ranked) + length (slot_rest s ranked) = length ranked - 0"
  using arg_cong [OF slot_split(1) [OF assms], of size] by simp

lemma slots_all:
  assumes "distinct (map card_key ranked)"
  shows "mset (map rw_post (withPromotedSlots s ranked)) = mset ranked"
  using slot_rows_all [OF slot_lengths [OF assms]] slot_split(1) [OF assms] by (simp add: withPromotedSlots_def)

lemma rankedHot_listed: "set (rankedHot s) \<subseteq> {p \<in> set (listed s). is_hot s p}"
  by (auto simp: rankedHot_def listed_def dest!: in_set_takeD)

lemma hot_not_older: "is_hot s p \<Longrightarrow> \<not> is_older s p"
  by (auto simp: is_hot_def is_older_def isOlderPaidOut_def split: option.splits)

lemma set_older: "set (older s) \<subseteq> {p \<in> set (listed s). is_older s p}"
  by (auto simp: older_def)

lemma listed_keys: "distinct (map card_key (all_posts s)) \<Longrightarrow> distinct (map card_key (listed s))"
  by (auto simp: listed_def distinct_map_filter split: option.splits)

lemma map_row_plain [simp]: "map rw_post (map plain_row xs) = xs" "map (rw_post \<circ> plain_row) xs = xs"
  by (induction xs) (simp_all add: plain_row_def)


text \<open>C1: the slots are every fifth row, as many as were bought and there is room for;
  they hold the bids in order, highest first, and every other post keeps its place in
  the ranking.\<close>

theorem promoted_slots_exact:
  assumes "distinct (map card_key ranked)"
  shows "map rw_slot (withPromotedSlots s ranked) =
      map (\<lambda>i. (i + 1) mod 5 = 0 \<and> (i + 1) div 5 \<le> length (slot_winners s ranked)) [0..<length ranked]
    \<and> map rw_post (filter rw_slot (withPromotedSlots s ranked)) = slot_winners s ranked
    \<and> sorted_wrt (\<lambda>a b. bid s b \<le> bid s a) (slot_winners s ranked)
    \<and> map rw_post (filter (\<lambda>r. \<not> rw_slot r) (withPromotedSlots s ranked)) = filter (\<lambda>p. p \<notin> set (slot_winners s ranked)) ranked"
proof -
  let ?w = "slot_winners s ranked"
  note l = slot_lengths [OF assms, of s]
  have "length ?w \<le> length ranked div 5" by (simp add: slot_winners_def PROMOTED_SLOT_EVERY_def)
  then have "map rw_slot (withPromotedSlots s ranked) = map (\<lambda>i. (i + 1) mod 5 = 0 \<and> (i + 1) div 5 \<le> length ?w) [0..<length ranked]"
    unfolding withPromotedSlots_def by (intro slot_rows_places [OF l]) simp_all
  moreover have "sorted_wrt (\<lambda>a b. bid s b \<le> bid s a) ?w"
    unfolding slot_winners_def by (intro sorted_wrt_take js_sort_sorted transpI) auto
  ultimately show ?thesis
    using slot_rows_order [OF l] slot_split(2) [OF assms, of s] by (simp add: withPromotedSlots_def)
qed

section \<open>The order held after a vote\<close>

lemma by_key_known:
  assumes "k \<in> card_key ` set (all_posts s)"
  obtains p where "by_key s k = Some p" "card_key p = k"
proof -
  have "by_key s k \<noteq> None" using assms by (simp add: by_key_def map_of_eq_None_iff image_image)
  then obtain p where p: "by_key s k = Some p" by blast
  from map_of_SomeD [OF this [unfolded by_key_def]] have "card_key p = k" by auto
  with p show thesis by (rule that)
qed

lemma keys_found:
  "set ks \<subseteq> card_key ` set (all_posts s) \<Longrightarrow> map card_key (List.map_filter (by_key s) ks) = ks"
proof (induction ks)
  case (Cons k ks)
  then have k: "k \<in> card_key ` set (all_posts s)" by simp
  from k obtain p where "by_key s k = Some p" "card_key p = k" by (rule by_key_known)
  then show ?case using Cons by simp
qed simp

lemma rows_found:
  "set (map fst ks) \<subseteq> card_key ` set (all_posts s) \<Longrightarrow> row_keys (List.map_filter (kept_row s) ks) = ks"
proof (induction ks)
  case (Cons k ks)
  then have k: "fst k \<in> card_key ` set (all_posts s)" by simp
  from k obtain p where "by_key s (fst k) = Some p" "card_key p = fst k" by (rule by_key_known)
  then show ?case using Cons by (simp add: kept_row_def row_keys_def)
qed (simp add: row_keys_def)


text \<open>Posts for the concrete statements.\<close>

definition sample_view :: "string \<Rightarrow> window \<Rightarrow> int \<Rightarrow> int \<Rightarrow> post_view" where
  "sample_view l win pays burn = \<lparr>pv_author = ''a'', pv_permlink = l, pv_window = win, pv_created_height = 1, pv_created_time = l,
     pv_payout_height = 9, pv_payout_time = [], pv_rshares = ''0'', pv_payout_mode = None, pv_parent_author = [], pv_parent_permlink = [],
     pv_promoted = fromUnits burn, pv_title = [], pv_summary = [], pv_body_excerpt = [], pv_tags = None, pv_votes = None, pv_paid_out = False,
     pv_payable = False, pv_pending_payout = fromUnits pays, pv_curator_pot = ''0'', pv_curation_expires_at = 0, pv_registered = True,
     pv_shown_for_context = None, pv_bot_commands = None\<rparr>"

definition feed_of :: "post_view list \<Rightarrow> feed_page" where
  "feed_of vs = \<lparr>fp_data = [], fp_live = vs, fp_hydrated = True, fp_filter = None, fp_sort = Trending, fp_error = None,
     fp_olderOpen = 0, fp_frozen = None, fp_justVoted = None, fp_height = 100, fp_savedSort = None\<rparr>"

lemma money_fromUnits [simp]: "money (fromUnits u) = u"
  by (simp add: money_def toUnits_fromUnits)

lemma sample_view_simps [simp]:
  "live_key (sample_view l w p b) = ''a/'' @ l" "card_key (view_meta (sample_view l w p b)) = ''a/'' @ l"
  "pv_pending_payout (sample_view l w p b) = fromUnits p" "pv_promoted (sample_view l w p b) = fromUnits b"
  "pv_registered (sample_view l w p b)" "\<not> pv_paid_out (sample_view l w p b)" "\<not> pv_payable (sample_view l w p b)"
  "pm_window (view_meta (sample_view l w p b)) = w" "pm_registered (view_meta (sample_view l w p b))"
  "pm_created_time (view_meta (sample_view l w p b)) = l"
  by (simp_all add: sample_view_def live_key_def card_key_def view_meta_def)

lemma feed_of_simps [simp]:
  "fp_filter (feed_of vs) = None" "fp_sort (feed_of vs) = Trending" "fp_hydrated (feed_of vs)" "fp_live (feed_of vs) = vs"
  "fp_frozen (feed_of vs) = None" "all_posts (feed_of vs) = map view_meta vs"
  by (simp_all add: feed_of_def all_posts_def)

lemmas feed_eval = rankedShown_def rankedHot_def unlifted_def visible_def older_def is_older_def isOlderPaidOut_def listed_def
  withPromotedSlots_def slot_rest_def slot_winners_def bids_for_slot_def is_hot_def ranks_above_def tier_def trendingTier_def
  payout_of_def bid_def rewards_def js_sort_def HOT_SLOTS_def PROMOTED_SLOT_EVERY_def slot_rows.simps

lemma frozen_irrelevant [simp]:
  "rankedShown (s\<lparr>fp_frozen := f, fp_justVoted := j\<rparr>) = rankedShown s" "rankedHot (s\<lparr>fp_frozen := f, fp_justVoted := j\<rparr>) = rankedHot s"
  "by_key (s\<lparr>fp_frozen := f, fp_justVoted := j\<rparr>) = by_key s" "all_posts (s\<lparr>fp_frozen := f, fp_justVoted := j\<rparr>) = all_posts s"
proof -
  let ?t = "s\<lparr>fp_frozen := f, fp_justVoted := j\<rparr>"
  have r: "rewards ?t = rewards s" and a: "all_posts ?t = all_posts s" by (simp_all add: rewards_def all_posts_def fun_eq_iff)
  have e: "is_hot ?t = is_hot s" "payout_of ?t = payout_of s" "bid ?t = bid s" "tier ?t = tier s"
    "is_older ?t = is_older s" "bids_for_slot ?t = bids_for_slot s"
    by (simp_all add: is_hot_def payout_of_def bid_def tier_def is_older_def bids_for_slot_def r fun_eq_iff)
  have ra: "ranks_above ?t = ranks_above s" by (simp add: ranks_above_def e fun_eq_iff)
  have l: "listed ?t = listed s" by (simp add: listed_def a split: option.split)
  show h: "rankedHot ?t = rankedHot s" by (simp add: rankedHot_def a e)
  have u: "unlifted ?t = unlifted s" by (simp add: unlifted_def l h)
  have old: "older ?t = older s" by (simp add: older_def l e)
  have v: "visible ?t = visible s" by (simp add: visible_def u old ra)
  have w: "withPromotedSlots ?t = withPromotedSlots s"
    by (simp add: withPromotedSlots_def slot_rest_def slot_winners_def e fun_eq_iff)
  show "rankedShown ?t = rankedShown s" by (simp add: rankedShown_def u old v w)
  show "by_key ?t = by_key s" by (simp add: by_key_def a fun_eq_iff)
qed (simp add: all_posts_def rewards_def)

lemma loaded_after_vote:
  "feed_loaded (Inr ws) (voted p (feed_of vs)) = (feed_of ws)\<lparr>fp_frozen := Some \<lparr>fo_hot = map card_key (rankedHot (feed_of vs)),
     fo_shown = row_keys (rankedShown (feed_of vs))\<rparr>, fp_justVoted := Some (card_key p)\<rparr>"
  by (simp add: feed_loaded_def voted_def feed_of_def)

abbreviation two_posts :: "int \<Rightarrow> post_view list" where
  "two_posts n \<equiv> [sample_view ''p'' Deep 2 0, sample_view ''q'' Deep n 0]"

abbreviation five_posts :: "post_view list" where
  "five_posts \<equiv> [sample_view ''p'' Deep 5 0, sample_view ''q'' Deep 4 0, sample_view ''r'' Deep 3 0, sample_view ''s'' Deep 2 0, sample_view ''t'' Deep 1 7]"

lemma two_posts_order:
  "row_keys (rankedShown (feed_of (two_posts 1))) = [(''a/p'', False), (''a/q'', False)]" "rankedHot (feed_of (two_posts n)) = []"
  "row_keys (rankedShown (feed_of (two_posts 3))) = [(''a/q'', False), (''a/p'', False)]"
  by (simp_all add: feed_eval row_keys_def)


lemma promoted_slots_exact_witness:
  "distinct (map card_key (map view_meta five_posts)) \<and>
   map rw_slot (withPromotedSlots (feed_of five_posts) (map view_meta five_posts)) = [False, False, False, False, True]"
proof
  show d: "distinct (map card_key (map view_meta five_posts))" by simp
  have "length (slot_winners (feed_of five_posts) (map view_meta five_posts)) = 1" by (simp add: feed_eval)
  then show "map rw_slot (withPromotedSlots (feed_of five_posts) (map view_meta five_posts)) = [False, False, False, False, True]"
    using promoted_slots_exact [OF d, of "feed_of five_posts"] by (simp add: upt_rec)
qed

abbreviation voted_q :: feed_page where
  "voted_q \<equiv> feed_loaded (Inr (two_posts 3)) (voted (view_meta (sample_view ''q'' Deep 1 0)) (feed_of (two_posts 1)))"


text \<open>C1: a second vote while the order is held freezes the ranking and not the screen: the
  cards on screen change places at the press.\<close>

theorem second_vote_moves_cards:
  "row_keys (shown voted_q) = [(''a/p'', False), (''a/q'', False)] \<and>
   row_keys (shown (voted (view_meta (sample_view ''p'' Deep 2 0)) voted_q)) = [(''a/q'', False), (''a/p'', False)]"
proof -
  have by_key: "by_key (feed_of (two_posts 3)) ''a/p'' = Some (view_meta (sample_view ''p'' Deep 2 0))"
    "by_key (feed_of (two_posts 3)) ''a/q'' = Some (view_meta (sample_view ''q'' Deep 3 0))" by (simp_all add: by_key_def)
  have keys: "set (map fst (row_keys (rankedShown (feed_of (two_posts 3))))) = {''a/p'', ''a/q''}" by (auto simp: two_posts_order)
  have held: "row_keys (shown ((feed_of (two_posts 3))\<lparr>fp_frozen := Some \<lparr>fo_hot = hs, fo_shown = ks\<rparr>, fp_justVoted := j\<rparr>)) = ks"
    if "ks = [(''a/p'', False), (''a/q'', False)] \<or> ks = [(''a/q'', False), (''a/p'', False)]" for hs ks j
  proof -
    have "card_key (rw_post r) \<in> {''a/p'', ''a/q''}" if "r \<in> set (rankedShown (feed_of (two_posts 3)))" for r
      using that keys by (auto simp: row_keys_def)
    then have "filter (\<lambda>r. card_key (rw_post r) \<notin> {''a/p'', ''a/q''}) (rankedShown (feed_of (two_posts 3))) = []"
      by (auto simp: filter_empty_conv)
    then show ?thesis using that by_key by (auto simp: shown_def kept_row_def row_keys_def insert_commute)
  qed
  show ?thesis by (simp add: loaded_after_vote two_posts_order held) (simp add: voted_def held two_posts_order)
qed

end
