(* ===== verification/ComposePage.thy ===== *)
theory ComposePage
  imports Publishing CallSummary Session
begin

text \<open>
  The editor (the script of src/web/src/routes/compose/+page.svelte): writing a post,
  editing one, the draft kept in the browser, and the gate before the wallet opens.
  The form is a record of the page's variables; an effect that reads from Hive is two
  steps, the question and its answer, and what happens between them is any other step.
  A post's tags are text, as its type says.  'cp_from' names the post the text was last
  loaded from; the program does not keep it.
\<close>

section \<open>The form\<close>

record compose =
  cp_title :: string
  cp_body :: string
  cp_summary :: string
  cp_tagInput :: string
  cp_tags :: "string list"
  cp_window :: int
  cp_mode :: int
  cp_burnConfirmed :: bool
  cp_error :: "string option"
  cp_published :: "string option"
  cp_link :: string
  cp_linkTouched :: bool
  cp_target :: "(string \<times> string) option"
  cp_category :: "string option"
  cp_meta :: "(string \<times> json) list option"
  cp_loading :: bool
  cp_loadedFor :: "(string \<times> string) option"
  cp_viral :: "amount option"
  cp_deep :: "amount option"
  cp_thresholdsRead :: bool
  cp_draftRestored :: bool
  cp_stored :: "string option"
  cp_account :: "string option"
  cp_shares :: "amount option"
  cp_busy :: bool
  cp_from :: "(string \<times> string) option"

definition fresh_form :: compose where
  "fresh_form = \<lparr>cp_title = [], cp_body = [], cp_summary = [], cp_tagInput = [], cp_tags = [], cp_window = 0,
     cp_mode = payout_mode_number Split, cp_burnConfirmed = False, cp_error = None, cp_published = None, cp_link = [],
     cp_linkTouched = False, cp_target = None, cp_category = None, cp_meta = None, cp_loading = False, cp_loadedFor = None,
     cp_viral = None, cp_deep = None, cp_thresholdsRead = False, cp_draftRestored = False, cp_stored = None,
     cp_account = None, cp_shares = None, cp_busy = False, cp_from = None\<rparr>"

section \<open>Edit mode\<close>

definition account_char :: "char \<Rightarrow> bool" where
  "account_char c = (alnum_lower c \<or> c = CHR ''.'' \<or> c = CHR ''-'')"

text \<open>The query's 'edit' as an author and a permlink.\<close>

definition editTarget :: "string option \<Rightarrow> (string \<times> string) option" where
  "editTarget raw = (case raw of None \<Rightarrow> None | Some q \<Rightarrow> if q = [] then None else
     (let s = js_trim q; u = (if starts_with ''@'' s then tl s else s); a = takeWhile account_char u; r = dropWhile account_char u in
      if a \<noteq> [] \<and> starts_with ''/'' r \<and> tl r \<noteq> [] \<and> list_all not_line_end (tl r) then Some (a, tl r) else None))"

definition notMine :: "compose \<Rightarrow> bool" where
  "notMine s = (case (cp_target s, cp_account s) of
     (Some (author, _), Some acct) \<Rightarrow> acct \<noteq> [] \<and> (if starts_with ''hive:'' acct then drop 5 acct else acct) \<noteq> author
   | _ \<Rightarrow> False)"

definition MAX_TAGS :: nat where "MAX_TAGS = 20"
definition MAX_TAG_LEN :: nat where "MAX_TAG_LEN = 24"

text \<open>The address changed: the effect asks for the post unless the form already asked.\<close>

definition retarget :: "(string \<times> string) option \<Rightarrow> compose \<Rightarrow> compose" where
  "retarget t s = (let s1 = s\<lparr>cp_target := t\<rparr> in
     case t of None \<Rightarrow> s1\<lparr>cp_loadedFor := None\<rparr>
     | Some k \<Rightarrow> if cp_loadedFor s = Some k then s1 else s1\<lparr>cp_loadedFor := Some k, cp_loading := True, cp_error := None\<rparr>)"

definition content_tags :: "content \<Rightarrow> string list" where
  "content_tags c = take MAX_TAGS (filter (\<lambda>x. x \<noteq> ''lassecash'') (map to_text (nullish (ct_tags c) [])))"

definition load_answer :: "string \<times> string \<Rightarrow> content option result \<Rightarrow> compose \<Rightarrow> compose" where
  "load_answer k r s = (if cp_loadedFor s \<noteq> Some k then s
     else (case r of
         Inl e \<Rightarrow> s\<lparr>cp_error := Some (message_of e)\<rparr>
       | Inr None \<Rightarrow> s\<lparr>cp_error := Some ''That post could not be read from Hive.''\<rparr>
       | Inr (Some c) \<Rightarrow> s\<lparr>cp_title := ct_title c, cp_body := ct_body c, cp_summary := ct_summary c, cp_tags := content_tags c,
           cp_link := snd k, cp_linkTouched := True, cp_category := ct_category c, cp_meta := ct_metadata c, cp_from := Some k\<rparr>)
       \<lparr>cp_loading := False\<rparr>)"

section \<open>The link, the threshold and the gate\<close>

definition form_permlink :: "compose \<Rightarrow> string" where
  "form_permlink s = (if cp_linkTouched s then permlinkFor (cp_link s) else permlinkFor (cp_title s))"

definition threshold :: "compose \<Rightarrow> amount option" where
  "threshold s = (if cp_window s = 1 then cp_deep s else cp_viral s)"

definition clearsThreshold :: "compose \<Rightarrow> bool option" where
  "clearsThreshold s = (case (cp_shares s, threshold s) of
     (Some sh, Some t) \<Rightarrow> (case compare_amounts sh t of Inr c \<Rightarrow> Some (c \<ge> 0) | Inl _ \<Rightarrow> None)
   | _ \<Rightarrow> None)"

text \<open>The two readings of the threshold effect: both or none.\<close>

definition thresholds_answer :: "amount option \<Rightarrow> amount option \<Rightarrow> compose \<Rightarrow> compose" where
  "thresholds_answer v d s = (case (v, d) of
     (Some a, Some b) \<Rightarrow> if cp_thresholdsRead s then s else s\<lparr>cp_viral := Some a, cp_deep := Some b, cp_thresholdsRead := True\<rparr>
   | _ \<Rightarrow> s)"

definition canPublish :: "compose \<Rightarrow> bool" where
  "canPublish s = (nullish (cp_account s) [] \<noteq> [] \<and> js_trim (cp_title s) \<noteq> [] \<and> form_permlink s \<noteq> [] \<and> \<not> cp_busy s \<and>
     (if cp_target s \<noteq> None then \<not> notMine s \<and> \<not> cp_loading s
      else clearsThreshold s = Some True \<and> (cp_mode s \<noteq> payout_mode_number Burn \<or> cp_burnConfirmed s)))"

section \<open>Tags and text\<close>

definition tag_letter :: "char \<Rightarrow> bool" where
  "tag_letter c = (alnum_lower c \<or> c = CHR ''-'')"

definition clean_tag :: "string \<Rightarrow> string" where
  "clean_tag raw = take MAX_TAG_LEN (trim_dashes (filter tag_letter (map to_lower raw)))"

definition add_one_tag :: "string \<Rightarrow> string list \<Rightarrow> string list" where
  "add_one_tag raw tags = (let t = clean_tag raw in
     if t \<noteq> [] \<and> t \<noteq> ''lassecash'' \<and> t \<notin> set tags \<and> length tags < MAX_TAGS then tags @ [t] else tags)"

definition addTag :: "compose \<Rightarrow> compose" where
  "addTag s = s\<lparr>cp_tags := fold add_one_tag (rx_split (XPlus (XChr (\<lambda>c. is_space c \<or> c = CHR '',''))) (cp_tagInput s)) (cp_tags s),
     cp_tagInput := []\<rparr>"

text \<open>'insert' at a selection from 'a' to 'b'.\<close>

definition insert_text :: "nat \<Rightarrow> nat \<Rightarrow> string \<Rightarrow> compose \<Rightarrow> compose" where
  "insert_text a b t s = s\<lparr>cp_body := take a (cp_body s) @ t @ drop b (cp_body s)\<rparr>"

section \<open>Saving an edit\<close>

definition save_input :: "compose \<Rightarrow> edit_input option" where
  "save_input s = map_option (\<lambda>t. \<lparr>ei_permlink = snd t, ei_title = js_trim (cp_title s), ei_body = cp_body s,
     ei_summary = js_trim (cp_summary s), ei_tags = cp_tags s, ei_category = non_empty (cp_category s), ei_metadata = cp_meta s\<rparr>) (cp_target s)"

definition start_save :: "compose \<Rightarrow> compose" where
  "start_save s = s\<lparr>cp_error := None, cp_busy := True\<rparr>"

text \<open>After the wallet: how often Hive is asked until it shows the new text, at most eight
  times.\<close>

fun edit_polls :: "nat \<Rightarrow> (nat \<Rightarrow> content option result) \<Rightarrow> string \<Rightarrow> nat" where
  "edit_polls 0 asked body = 0"
| "edit_polls (Suc n) asked body = (case asked n of
     Inr (Some c) \<Rightarrow> if ct_body c = body then 1 else Suc (edit_polls n asked body)
   | _ \<Rightarrow> Suc (edit_polls n asked body))"

definition EDIT_POLLS :: nat where "EDIT_POLLS = 8"

text \<open>The state and the page to go to.\<close>

definition save_done :: "publish_result result \<Rightarrow> compose \<Rightarrow> compose \<times> string option" where
  "save_done r s = (case (r, cp_target s) of
     (Inl e, _) \<Rightarrow> (s\<lparr>cp_error := Some (message_of e), cp_busy := False\<rparr>, None)
   | (Inr res, Some (a, p)) \<Rightarrow> if \<not> pr_ok res then (s\<lparr>cp_error := Some (pr_msg res), cp_busy := False\<rparr>, None)
       else (s\<lparr>cp_busy := False\<rparr>, Some (''/@'' @ a @ ''/'' @ p @ ''?edited''))
   | (Inr res, None) \<Rightarrow> (s\<lparr>cp_busy := False\<rparr>, None))"

section \<open>The draft\<close>

definition DRAFT_MAX_AGE_MS :: int where "DRAFT_MAX_AGE_MS = 30 * 86400000"

definition draft_json :: "int \<Rightarrow> compose \<Rightarrow> json" where
  "draft_json now s = JObj [(''title'', JStr (cp_title s)), (''link'', JStr (cp_link s)), (''linkTouched'', JBool (cp_linkTouched s)),
     (''body'', JStr (cp_body s)), (''summary'', JStr (cp_summary s)), (''tags'', JArr (map JStr (cp_tags s))),
     (''window_'', JNum (cp_window s)), (''t'', JNum now)]"

text \<open>The timer's write; 'None' where storage is blocked is no write.\<close>

definition save_draft :: "int \<Rightarrow> compose \<Rightarrow> compose" where
  "save_draft now s = (if \<not> cp_draftRestored s \<or> cp_target s \<noteq> None then s
     else if cp_title s = [] \<and> cp_body s = [] then s\<lparr>cp_stored := None\<rparr>
     else s\<lparr>cp_stored := Some (stringify (draft_json now s))\<rparr>)"

text \<open>'Number(d.t)': the page writes a whole number; a fraction reads as no stamp.\<close>

definition stamp :: "json option \<Rightarrow> int option" where
  "stamp v = (case v of Some (JNum n) \<Rightarrow> Some n | Some JNull \<Rightarrow> Some 0 | Some (JBool b) \<Rightarrow> Some (if b then 1 else 0)
     | Some (JStr t) \<Rightarrow> (let u = js_trim t in if u = [] then Some 0 else if all_digits u then Some (int (dec_val u)) else None)
     | _ \<Rightarrow> None)"

definition draft_text :: "json \<Rightarrow> string \<Rightarrow> string" where
  "draft_text d k = (case jfield k d of None \<Rightarrow> [] | Some JNull \<Rightarrow> [] | Some v \<Rightarrow> to_text v)"

definition draft_of :: "json \<Rightarrow> compose \<Rightarrow> compose" where
  "draft_of d s = s\<lparr>cp_title := draft_text d ''title'', cp_link := draft_text d ''link'', cp_linkTouched := truthy (jfield ''linkTouched'' d),
     cp_body := draft_text d ''body'', cp_summary := draft_text d ''summary'',
     cp_tags := (case jfield ''tags'' d of Some (JArr xs) \<Rightarrow> take 20 (map to_text xs) | _ \<Rightarrow> []),
     cp_window := (if jfield ''window_'' d = Some (JNum 1) then 1 else 0)\<rparr>"

definition restore_draft :: "int \<Rightarrow> compose \<Rightarrow> compose" where
  "restore_draft now s = (let s1 = s\<lparr>cp_draftRestored := True\<rparr> in
     if cp_target s \<noteq> None \<or> nullish (cp_stored s) [] = [] then s1
     else case json_parse (the (cp_stored s)) of
       Inl _ \<Rightarrow> s1
     | Inr d \<Rightarrow> (case stamp (jfield ''t'' d) of
           Some t \<Rightarrow> if now - t < DRAFT_MAX_AGE_MS \<and> cp_title s = [] \<and> cp_body s = [] then draft_of d s1 else s1
         | None \<Rightarrow> s1))"

definition startOver :: "bool \<Rightarrow> compose \<Rightarrow> compose" where
  "startOver confirmed s = (if (js_trim (cp_title s) \<noteq> [] \<or> js_trim (cp_body s) \<noteq> []) \<and> \<not> confirmed then s
     else s\<lparr>cp_title := [], cp_link := [], cp_linkTouched := False, cp_body := [], cp_summary := [], cp_tags := [], cp_tagInput := [],
       cp_burnConfirmed := False, cp_mode := payout_mode_number Split, cp_error := None, cp_stored := None\<rparr>)"

section \<open>Publishing\<close>

definition post_input :: "compose \<Rightarrow> publish_input" where
  "post_input s = \<lparr>pi_title = js_trim (cp_title s), pi_body = cp_body s, pi_summary = js_trim (cp_summary s), pi_tags = cp_tags s,
     pi_window = (if cp_window s = 1 then WindowDeep else WindowViral), pi_payoutMode = cp_mode s,
     pi_permlink = Some (form_permlink s), pi_sideCalls = []\<rparr>"

definition start_publish :: "compose \<Rightarrow> compose" where
  "start_publish s = (if cp_target s \<noteq> None then start_save s else s\<lparr>cp_error := None, cp_published := None, cp_busy := True\<rparr>)"

text \<open>What the page makes of the answer; 'refusal' is the verdict of the registration, where
  the answer names a transaction.\<close>

definition publish_done :: "publish_result result \<Rightarrow> string option \<Rightarrow> compose \<Rightarrow> compose \<times> string option" where
  "publish_done r refusal s = (case r of
     Inl e \<Rightarrow> (s\<lparr>cp_error := Some (message_of e), cp_busy := False\<rparr>, None)
   | Inr res \<Rightarrow>
       if \<not> pr_ok res then (s\<lparr>cp_error := Some (pr_msg res), cp_busy := False\<rparr>, None)
       else if nullish (pr_txId res) [] \<noteq> [] \<and> nullish refusal [] \<noteq> [] then (s\<lparr>cp_error := refusal, cp_busy := False\<rparr>, None)
       else (let a = nullish (cp_account s) []; author = (if starts_with ''hive:'' a then drop 5 a else a) in
         (s\<lparr>cp_published := Some (pr_permlink res), cp_title := [], cp_link := [], cp_linkTouched := False, cp_body := [],
            cp_summary := [], cp_tags := [], cp_burnConfirmed := False, cp_stored := None, cp_busy := False\<rparr>,
          if author \<noteq> [] then Some (''/@'' @ author @ ''/'' @ pr_permlink res) else None)))"

section \<open>Every sequence of presses\<close>

text \<open>The steps of the page; 'ok' says which answers Hive may give to the reading of a
  post.\<close>

inductive compose_step :: "(content option result \<Rightarrow> bool) \<Rightarrow> compose \<Rightarrow> compose \<Rightarrow> bool" for ok where
  navigate: "compose_step ok s (retarget t s)"
| answer: "ok r \<Longrightarrow> compose_step ok s (load_answer k r s)"
| thresholds: "compose_step ok s (thresholds_answer v d s)"
| account: "compose_step ok s (s\<lparr>cp_account := a, cp_shares := sh\<rparr>)"
| title: "compose_step ok s (s\<lparr>cp_title := x\<rparr>)"
| body: "compose_step ok s (s\<lparr>cp_body := x\<rparr>)"
| summary: "compose_step ok s (s\<lparr>cp_summary := x\<rparr>)"
| link: "compose_step ok s (s\<lparr>cp_link := x, cp_linkTouched := True\<rparr>)"
| tag: "compose_step ok s (addTag (s\<lparr>cp_tagInput := x\<rparr>))"
| window: "w \<in> {0, 1} \<Longrightarrow> compose_step ok s (s\<lparr>cp_window := w\<rparr>)"
| mode: "compose_step ok s (s\<lparr>cp_mode := payout_mode_number m\<rparr>)"
| confirm: "compose_step ok s (s\<lparr>cp_burnConfirmed := b\<rparr>)"
| mount: "\<not> cp_draftRestored s \<Longrightarrow> compose_step ok s (restore_draft now s)"
| timer: "compose_step ok s (save_draft now s)"
| clear: "cp_target s = None \<Longrightarrow> compose_step ok s (startOver c s)"
| press: "canPublish s \<Longrightarrow> compose_step ok s (start_publish s)"
| saved: "cp_busy s \<Longrightarrow> compose_step ok s (fst (save_done res s))"
| posted: "cp_busy s \<Longrightarrow> compose_step ok s (fst (publish_done res refusal s))"

definition loads_well :: "content option result \<Rightarrow> bool" where
  "loads_well r = (\<exists>c. r = Inr (Some c))"

definition holds_target :: "compose \<Rightarrow> bool" where
  "holds_target s = (cp_loadedFor s = cp_target s \<and> (cp_target s = None \<or> cp_loading s \<or> cp_from s = cp_target s))"

lemma same_post_holds:
  assumes "cp_loadedFor u = cp_loadedFor s" "cp_target u = cp_target s" "cp_loading u = cp_loading s" "cp_from u = cp_from s"
  shows "holds_target u = holds_target s"
  using assms by (simp add: holds_target_def)

lemma retarget_holds: "holds_target s \<Longrightarrow> holds_target (retarget t s)"
  by (auto simp: holds_target_def retarget_def Let_def split: option.splits)

lemma answer_holds: "loads_well r \<Longrightarrow> holds_target s \<Longrightarrow> holds_target (load_answer k r s)"
  by (auto simp: holds_target_def load_answer_def loads_well_def)

lemma step_holds: "compose_step loads_well s t \<Longrightarrow> holds_target s \<Longrightarrow> holds_target t"
proof (induction rule: compose_step.induct)
  case (saved s res)
  then show ?case
    by (subst same_post_holds [where s = s]) (auto simp: save_done_def split: sum.splits option.splits)
next
  case (posted s res refusal)
  then show ?case
    by (subst same_post_holds [where s = s]) (auto simp: publish_done_def Let_def split: sum.splits)
next
  case (mount s now)
  then show ?case
    by (subst same_post_holds [where s = s]) (auto simp: restore_draft_def draft_of_def Let_def split: sum.splits option.splits)
next
  case (navigate s t)
  then show ?case by (rule retarget_holds)
next
  case (answer r s k)
  then show ?case by (rule answer_holds)
qed (simp_all add: thresholds_answer_def addTag_def save_draft_def startOver_def
      start_publish_def start_save_def holds_target_def split: option.splits)

text \<open>C1: as long as every reading of a post finds it, what Save sends under a post's
  permlink is the text that was loaded from that post.\<close>

theorem save_names_loaded_post:
  assumes "(compose_step loads_well)\<^sup>*\<^sup>* fresh_form s" "canPublish s" "save_input s = Some i"
  shows "\<exists>author. cp_from s = Some (author, ei_permlink i) \<and> cp_target s = cp_from s"
proof -
  have "holds_target s" using assms(1)
    by (induction rule: rtranclp_induct) (auto simp: step_holds, simp add: holds_target_def fresh_form_def)
  then show ?thesis using assms(2,3) by (auto simp: holds_target_def save_input_def canPublish_def)
qed

text \<open>A post of al's, read well.\<close>

definition first_post :: content where
  "first_post = \<lparr>ct_title = ''One'', ct_body = ''first'', ct_summary = [], ct_tags = None, ct_category = None, ct_created = None, ct_metadata = None\<rparr>"

definition al_editing :: "string \<Rightarrow> content option result \<Rightarrow> compose \<Rightarrow> compose" where
  "al_editing p r s = load_answer (''al'', p) r (retarget (Some (''al'', p)) s)"

definition al_signed_in :: compose where
  "al_signed_in = fresh_form\<lparr>cp_account := Some ''hive:al'', cp_shares := None\<rparr>"

lemma al_editing_steps:
  assumes "ok r"
  shows "(compose_step ok)\<^sup>*\<^sup>* s (al_editing p r s)"
  unfolding al_editing_def
  by (rule converse_rtranclp_into_rtranclp, rule compose_step.navigate, rule r_into_rtranclp, rule compose_step.answer, rule assms)

lemma al_signed_in_step: "(compose_step ok)\<^sup>*\<^sup>* fresh_form al_signed_in"
  unfolding al_signed_in_def by (rule r_into_rtranclp) (rule compose_step.account)

lemma permlinks_pq: "permlinkFor ''p'' \<noteq> []" "permlinkFor ''q'' \<noteq> []"
  by code_simp+

lemma al_first:
  "canPublish (al_editing ''p'' (Inr (Some first_post)) al_signed_in)"
  "cp_body (al_editing ''p'' (Inr (Some first_post)) al_signed_in) = ''first''"
  "cp_target (al_editing ''p'' (Inr (Some first_post)) al_signed_in) = Some (''al'', ''p'')"
  using permlinks_pq by (simp_all add: canPublish_def notMine_def al_editing_def load_answer_def retarget_def Let_def al_signed_in_def fresh_form_def
      first_post_def form_permlink_def starts_with_def js_trim_def is_space_def)

lemma save_names_loaded_post_witness:
  "\<exists>s. (compose_step loads_well)\<^sup>*\<^sup>* fresh_form s \<and> canPublish s \<and> cp_body s = ''first'' \<and> cp_from s = Some (''al'', ''p'')"
proof (intro exI conjI)
  let ?s = "al_editing ''p'' (Inr (Some first_post)) al_signed_in"
  show st: "(compose_step loads_well)\<^sup>*\<^sup>* fresh_form ?s"
    by (rule rtranclp_trans [OF al_signed_in_step al_editing_steps]) (simp add: loads_well_def)
  show c: "canPublish ?s" and "cp_body ?s = ''first''" by (rule al_first)+
  obtain i where i: "save_input ?s = Some i" "ei_permlink i = ''p''" using al_first(3) by (auto simp: save_input_def)
  show "cp_from ?s = Some (''al'', ''p'')" using save_names_loaded_post [OF st c i(1)] al_first(3) by auto
qed

text \<open>C1: when a post cannot be read the form keeps the one before it, and Save - which
  stays enabled - sends that text under the permlink of the post that was not read.\<close>

theorem failed_load_saves_other_post:
  "\<exists>s i. (compose_step (\<lambda>_. True))\<^sup>*\<^sup>* fresh_form s \<and> canPublish s \<and> save_input s = Some i
     \<and> ei_permlink i = ''q'' \<and> ei_body i = ct_body first_post \<and> cp_from s = Some (''al'', ''p'')"
proof (intro exI conjI)
  let ?s = "al_editing ''q'' (Inr None) (al_editing ''p'' (Inr (Some first_post)) al_signed_in)"
  let ?i = "\<lparr>ei_permlink = ''q'', ei_title = ''One'', ei_body = ''first'', ei_summary = [], ei_tags = [], ei_category = None, ei_metadata = None\<rparr>"
  show "(compose_step (\<lambda>_. True))\<^sup>*\<^sup>* fresh_form ?s"
    by (intro rtranclp_trans [OF rtranclp_trans [OF al_signed_in_step al_editing_steps] al_editing_steps] TrueI)
  show "canPublish ?s" using permlinks_pq
    by (simp add: canPublish_def notMine_def al_editing_def load_answer_def retarget_def Let_def al_signed_in_def fresh_form_def
      first_post_def form_permlink_def starts_with_def js_trim_def is_space_def)
  show "save_input ?s = Some ?i"
    by (simp add: save_input_def al_editing_def load_answer_def retarget_def Let_def al_signed_in_def fresh_form_def first_post_def
      content_tags_def non_empty_def nullish_def js_trim_def is_space_def)
  show "cp_from ?s = Some (''al'', ''p'')"
    by (simp add: al_editing_def load_answer_def retarget_def Let_def al_signed_in_def fresh_form_def)
qed (simp_all add: first_post_def)

section \<open>The draft survives a reload\<close>

lemma text_of_strings: "map (to_text \<circ> JStr) xs = xs"
  by (simp add: comp_def)

lemma draft_wf: "wf_json (draft_json now s)"
proof -
  have "wf_jsons (map JStr xs)" for xs by (induction xs) auto
  then show ?thesis by (simp add: draft_json_def)
qed

text \<open>C1: a draft the page saved comes back in a new visit within thirty days with every
  typed field, and never with the payout mode or the confirmed burn.\<close>

theorem draft_survives:
  assumes "cp_draftRestored s" "cp_target s = None" "cp_title s \<noteq> [] \<or> cp_body s \<noteq> []"
    and "length (cp_tags s) \<le> 20" "cp_window s \<in> {0, 1}"
    and "cp_stored f = cp_stored (save_draft now s)" "cp_target f = None" "cp_title f = []" "cp_body f = []"
    and "later - now < 30 * 86400000"
  shows "restore_draft later f = f\<lparr>cp_draftRestored := True, cp_title := cp_title s, cp_link := cp_link s, cp_linkTouched := cp_linkTouched s,
    cp_body := cp_body s, cp_summary := cp_summary s, cp_tags := cp_tags s, cp_window := cp_window s\<rparr>"
proof -
  have "cp_stored f = Some (stringify (draft_json now s))" using assms(1-3,6) by (auto simp: save_draft_def)
  moreover have "stringify (draft_json now s) \<noteq> []" by (simp add: draft_json_def)
  moreover have "draft_of (draft_json now s) (f\<lparr>cp_draftRestored := True\<rparr>) = f\<lparr>cp_draftRestored := True, cp_title := cp_title s,
    cp_link := cp_link s, cp_linkTouched := cp_linkTouched s, cp_body := cp_body s, cp_summary := cp_summary s, cp_tags := cp_tags s,
    cp_window := cp_window s\<rparr>"
    using assms(4,5) by (auto simp: draft_of_def draft_text_def draft_json_def jfield_def truthy_def text_of_strings)
  moreover have "stamp (jfield ''t'' (draft_json now s)) = Some now" by (simp add: draft_json_def jfield_def stamp_def)
  ultimately show ?thesis using assms(7-10) json_roundtrip [OF draft_wf, of now s]
    by (simp add: restore_draft_def DRAFT_MAX_AGE_MS_def)
qed

definition drafting :: compose where
  "drafting = fresh_form\<lparr>cp_draftRestored := True, cp_title := ''One'', cp_body := ''first'', cp_mode := payout_mode_number Burn, cp_burnConfirmed := True\<rparr>"

lemma draft_survives_witness:
  "cp_draftRestored drafting \<and> cp_target drafting = None \<and> cp_title drafting \<noteq> [] \<and> length (cp_tags drafting) \<le> 20 \<and> cp_window drafting \<in> {0, 1}
   \<and> cp_body (restore_draft 5 (fresh_form\<lparr>cp_stored := cp_stored (save_draft 4 drafting)\<rparr>)) = ''first''
   \<and> \<not> cp_burnConfirmed (restore_draft 5 (fresh_form\<lparr>cp_stored := cp_stored (save_draft 4 drafting)\<rparr>))"
proof -
  have d: "cp_draftRestored drafting" "cp_target drafting = None" "cp_title drafting \<noteq> []" "length (cp_tags drafting) \<le> 20"
    "cp_window drafting \<in> {0, 1}" "cp_body drafting = ''first''" by (simp_all add: drafting_def fresh_form_def)
  have f: "cp_stored (fresh_form\<lparr>cp_stored := x\<rparr>) = x" "cp_target (fresh_form\<lparr>cp_stored := x\<rparr>) = None"
    "cp_title (fresh_form\<lparr>cp_stored := x\<rparr>) = []" "cp_body (fresh_form\<lparr>cp_stored := x\<rparr>) = []"
    "\<not> cp_burnConfirmed (fresh_form\<lparr>cp_stored := x\<rparr>)" for x by (simp_all add: fresh_form_def)
  show ?thesis
    using draft_survives [OF d(1,2) disjI1 [OF d(3)] d(4,5) f(1-4), of 5 4] d f by simp
qed

text \<open>Leaving edit mode keeps the post's text and link in what is now a new article, which
  the draft's timer then stores over the draft that was there.\<close>

lemma leaving_edit_keeps_text:
  assumes "s = al_editing ''p'' (Inr (Some first_post)) (al_signed_in\<lparr>cp_draftRestored := True, cp_stored := Some d\<rparr>)"
  shows "cp_target (retarget None s) = None \<and> cp_body (retarget None s) = ''first'' \<and> form_permlink (retarget None s) = permlinkFor ''p''
    \<and> cp_stored (save_draft now (retarget None s)) = Some (stringify (draft_json now (retarget None s)))"
  by (simp add: assms al_editing_def load_answer_def retarget_def Let_def al_signed_in_def fresh_form_def first_post_def form_permlink_def save_draft_def)

section \<open>What is published\<close>

text \<open>C1: the link the page shows is the one the article is published under, and pressing
  Publish needs the threshold of the window chosen, and for a burn its confirmation.\<close>

theorem published_as_shown:
  assumes "canPublish s" "cp_target s = None"
  shows "publish_permlink (post_input s) = form_permlink s \<and> pi_title (post_input s) \<noteq> []
    \<and> (\<exists>sh t x y. cp_shares s = Some sh \<and> (if pi_window (post_input s) = WindowDeep then cp_deep s else cp_viral s) = Some t
        \<and> toUnits sh = Inr x \<and> toUnits t = Inr y \<and> y \<le> x)
    \<and> \<not> (pi_payoutMode (post_input s) = payout_mode_number Burn \<and> \<not> cp_burnConfirmed s)"
proof -
  have "permlinkFor (form_permlink s) = form_permlink s" using permlinkFor_canonical by (simp add: form_permlink_def)
  then have p: "publish_permlink (post_input s) = form_permlink s"
    using assms(1) by (simp add: publish_permlink_def post_input_def canPublish_def Let_def)
  from assms obtain sh t where st: "cp_shares s = Some sh" "threshold s = Some t" "compare_amounts sh t = Inr 1 \<or> compare_amounts sh t = Inr 0"
    by (auto simp: canPublish_def clearsThreshold_def compare_amounts_def rbind_Inr_iff rmap_Inr_iff split: option.splits sum.splits if_splits)
  then obtain x y where "toUnits sh = Inr x" "toUnits t = Inr y" "y \<le> x"
    by (auto simp: compare_amounts_def rbind_Inr_iff rmap_Inr_iff split: if_splits)
  moreover have "(if pi_window (post_input s) = WindowDeep then cp_deep s else cp_viral s) = Some t"
    using st(2) by (auto simp: threshold_def post_input_def WindowDeep_def WindowViral_def)
  ultimately show ?thesis using p assms st(1) by (auto simp: canPublish_def post_input_def)
qed

definition ready_form :: compose where
  "ready_form = drafting\<lparr>cp_account := Some ''hive:al'', cp_shares := Some (fromUnits 5), cp_viral := Some (fromUnits 5), cp_deep := Some (fromUnits 9)\<rparr>"

lemma published_as_shown_witness:
  "canPublish ready_form \<and> cp_target ready_form = None \<and> publish_permlink (post_input ready_form) = form_permlink ready_form"
proof -
  have p: "permlinkFor ''One'' \<noteq> []" by code_simp
  have c: "canPublish ready_form" using p
    by (simp add: canPublish_def ready_form_def drafting_def fresh_form_def form_permlink_def clearsThreshold_def threshold_def
      compare_amounts_def toUnits_fromUnits js_trim_def is_space_def)
  have t: "cp_target ready_form = None" by (simp add: ready_form_def drafting_def fresh_form_def)
  show ?thesis using c t published_as_shown [OF c t] by simp
qed

section \<open>Tags\<close>

definition tags_ok :: "string list \<Rightarrow> bool" where
  "tags_ok ts = (distinct ts \<and> length ts \<le> 20 \<and> ''lassecash'' \<notin> set ts \<and>
     list_all (\<lambda>t. t \<noteq> [] \<and> length t \<le> 24 \<and> list_all tag_letter t) ts)"

lemma clean_tag_chars: "length (clean_tag r) \<le> 24 \<and> list_all tag_letter (clean_tag r)"
proof -
  have "set (clean_tag r) \<subseteq> set (filter tag_letter (map to_lower r))"
    by (auto simp: clean_tag_def trim_dashes_def dest!: in_set_takeD set_dropWhileD)
  then show ?thesis by (auto simp: clean_tag_def MAX_TAG_LEN_def list_all_iff)
qed

text \<open>Typed tags stay what Hive accepts, each once, at most twenty.\<close>

lemma addTag_ok:
  assumes "tags_ok (cp_tags s)"
  shows "tags_ok (cp_tags (addTag s))"
proof -
  have "tags_ok (fold add_one_tag rs ts)" if "tags_ok ts" for rs ts
    using that
  proof (induction rs arbitrary: ts)
    case (Cons r rs)
    have "tags_ok (add_one_tag r ts)"
      using Cons.prems clean_tag_chars [of r] by (auto simp: add_one_tag_def tags_ok_def Let_def MAX_TAGS_def)
    then show ?case using Cons.IH by simp
  qed simp
  then show ?thesis using assms by (simp add: addTag_def)
qed

end
