(* ===== verification/PoolPage.thy ===== *)
theory PoolPage
  imports Engine Pools Session
begin

text \<open>
  The pool page (the script of src/web/src/routes/pool/+page.svelte): what it lets be
  typed and sent.  The engine prices a deposit in one direction only, so the page
  searches it backwards; the search, the most an account can deposit, the reasons a
  button is disabled and the two linked fields are modelled here, and the panel of the
  native pool with its quotes in flight.  The figures of the chain are amounts; the
  minimum of a core swap and the one per cent of headroom are double arithmetic and
  arguments.
\<close>

section \<open>The page's state\<close>

datatype driver = ByLc | ByHbd

record pool_page =
  pg_direction :: swap_direction
  pg_amountIn :: string
  pg_driver :: driver
  pg_lcInput :: string
  pg_hbdInput :: string
  pg_openingPrice :: string
  pg_info :: "chain_info option"
  pg_me :: "account_view option"
  pg_meter :: "resource_credits option"
  pg_cleared :: bool

definition typed_or_zero :: "string \<Rightarrow> string" where
  "typed_or_zero s = (if s = [] then ''0'' else s)"

definition try_some :: "'a result \<Rightarrow> 'a option" where
  "try_some r = (case r of Inr x \<Rightarrow> Some x | Inl _ \<Rightarrow> None)"

definition DEFAULT_SELL :: string where "DEFAULT_SELL = ''1000''"
definition DEFAULT_BUY :: string where "DEFAULT_BUY = ''1''"

definition defaultFor :: "swap_direction \<Rightarrow> string \<Rightarrow> string" where
  "defaultFor d current = (case d of HbdLc \<Rightarrow> if current = DEFAULT_SELL then DEFAULT_BUY else current
     | LcHbd \<Rightarrow> if current = DEFAULT_BUY then DEFAULT_SELL else current)"

definition sellingLC :: "pool_page \<Rightarrow> bool" where
  "sellingLC s = (pg_direction s = LcHbd)"

definition poolReady :: "pool_page \<Rightarrow> bool" where
  "poolReady s = (case pg_info s of None \<Rightarrow> False
     | Some i \<Rightarrow> isZero (ci_amm_lc i) = Inr False \<and> isZero (ci_amm_hbd i) = Inr False)"

section \<open>Swapping\<close>

definition swap_quote_now :: "engine \<Rightarrow> pool_page \<Rightarrow> swap_estimate option" where
  "swap_quote_now e s = (case pg_info s of None \<Rightarrow> None
     | Some i \<Rightarrow> if \<not> engineReady e \<or> \<not> poolReady s then None
         else let rin = (if sellingLC s then ci_amm_lc i else ci_amm_hbd i); rout = (if sellingLC s then ci_amm_hbd i else ci_amm_lc i) in
           try_some (rbind (toBaseUnitArg rin) (\<lambda>a. rbind (toBaseUnitArg rout) (\<lambda>b. rbind (toBaseUnitArg (typed_or_zero (pg_amountIn s))) (estimateSwap e a b)))))"

definition quote_ok :: "engine \<Rightarrow> pool_page \<Rightarrow> bool" where
  "quote_ok e s = (case swap_quote_now e s of None \<Rightarrow> False | Some q \<Rightarrow> se_ok q)"

text \<open>Below a thousandth of an HBD nothing can be paid.\<close>

definition outBelowHbdStep :: "engine \<Rightarrow> pool_page \<Rightarrow> bool" where
  "outBelowHbdStep e s = (sellingLC s \<and> (case swap_quote_now e s of None \<Rightarrow> False
     | Some q \<Rightarrow> se_ok q \<and> (case toUnits (se_amountOut q) of Inr u \<Rightarrow> u < 100000 | Inl _ \<Rightarrow> False)))"

definition hbdBalanceUnits :: "pool_page \<Rightarrow> int" where
  "hbdBalanceUnits s = (case pg_me s of None \<Rightarrow> 0 | Some v \<Rightarrow> av_hbd v)"

definition swapDisabledReason :: "engine \<Rightarrow> pool_page \<Rightarrow> string option result" where
  "swapDisabledReason e s = (if \<not> poolReady s then Inr (Some ''Pool is empty'') else
     case toUnits (typed_or_zero (pg_amountIn s)) of
       Inl _ \<Rightarrow> Inr (Some ''Enter an amount'')
     | Inr inUnits \<Rightarrow> if inUnits \<le> 0 then Inr (Some ''Enter an amount'')
         else (case pg_me s of None \<Rightarrow> Inr None
           | Some me \<Rightarrow> rmap (\<lambda>short. if short then Some ''Not enough LASSECASH''
               else if \<not> sellingLC s \<and> inUnits > hbdBalanceUnits s then Some ''Not enough HBD on MAGI''
               else if \<not> quote_ok e s then Some ''No quote''
               else if outBelowHbdStep e s then Some (''Too small'' @ em_dash @ ''rounds to zero HBD'') else None)
             (if sellingLC s then rmap (\<lambda>b. inUnits > b) (toUnits (av_balance me)) else Inr False)))"

text \<open>A refusal without a reason is read as the floor.\<close>

definition swap_error :: "string option \<Rightarrow> string option" where
  "swap_error m = (case m of Some t \<Rightarrow> let end = ''refused this call.'' in
       if drop (length t - length end) t = end then Some ''The chain refused this swap due to slippage.'' else m
   | None \<Rightarrow> None)"

section \<open>Depositing: the search\<close>

type_synonym reserves = "string \<times> string \<times> string"

definition reserveArgs :: "pool_page \<Rightarrow> reserves option" where
  "reserveArgs s = (case pg_info s of None \<Rightarrow> None
     | Some i \<Rightarrow> if \<not> poolReady s then None
         else try_some (rbind (toBaseUnitArg (ci_amm_lc i)) (\<lambda>a. rbind (toBaseUnitArg (ci_amm_hbd i)) (\<lambda>b.
           rmap (\<lambda>c. (a, b, c)) (toBaseUnitArg (ci_amm_shares i))))))"

text \<open>One LASSECASH against the price typed, for the first deposit.\<close>

definition syntheticReserveArgs :: "pool_page \<Rightarrow> reserves option" where
  "syntheticReserveArgs s = (case toBaseUnitArg (typed_or_zero (pg_openingPrice s)) of
     Inl _ \<Rightarrow> None | Inr p \<Rightarrow> if p = ''0'' then None else Some (''100000000'', p, ''100000000''))"

definition activeReserveArgs :: "pool_page \<Rightarrow> reserves option" where
  "activeReserveArgs s = (if poolReady s then reserveArgs s else syntheticReserveArgs s)"

definition estimate_deposit :: "engine \<Rightarrow> reserves \<Rightarrow> string \<Rightarrow> liquidity_estimate result" where
  "estimate_deposit e a lcIn = (case a of (l, h, sh) \<Rightarrow> estimateLiquidity e lcIn l h sh)"

definition needFor :: "engine \<Rightarrow> reserves \<Rightarrow> int \<Rightarrow> int result" where
  "needFor e a lcUnits = (if lcUnits \<le> 0 then Inr 0
     else rbind (estimate_deposit e a (show_int lcUnits)) (\<lambda>q.
       if le_ok q \<and> \<not> le_isFirstDeposit q then toUnits (le_hbdNeeded q) else Inr 0))"

fun grow_hi :: "nat \<Rightarrow> (int \<Rightarrow> int result) \<Rightarrow> int \<Rightarrow> int \<Rightarrow> int result" where
  "grow_hi 0 need target hi = Inr hi"
| "grow_hi (Suc n) need target hi = rbind (need hi) (\<lambda>v. if v \<le> target then grow_hi n need target (hi * 2) else Inr hi)"

fun narrow :: "nat \<Rightarrow> (int \<Rightarrow> int result) \<Rightarrow> int \<Rightarrow> int \<Rightarrow> int \<Rightarrow> int result" where
  "narrow 0 need target lo hi = Inr lo"
| "narrow (Suc n) need target lo hi = (if hi - lo > 1 then let mid = bdiv (lo + hi) 2 in
     rbind (need mid) (\<lambda>v. if v \<le> target then narrow n need target mid hi else narrow n need target lo mid)
   else Inr lo)"

definition reverseLcForHbd :: "engine \<Rightarrow> int \<Rightarrow> reserves \<Rightarrow> int result" where
  "reverseLcForHbd e target a = (if target \<le> 0 then Inr 0
     else rbind (grow_hi 64 (needFor e a) target 1) (narrow 64 (needFor e a) target 0))"

definition hbdToLcRate :: "engine \<Rightarrow> pool_page \<Rightarrow> amount option result" where
  "hbdToLcRate e s = (case activeReserveArgs s of None \<Rightarrow> Inr None
     | Some a \<Rightarrow> if \<not> engineReady e then Inr None
         else rmap (\<lambda>u. if u > 0 then Some (fromUnits u) else None) (reverseLcForHbd e 100000000 a))"

text \<open>The estimate that ties the two fields, with the LASSECASH it is for.\<close>

definition lpQuote :: "engine \<Rightarrow> pool_page \<Rightarrow> (liquidity_estimate \<times> string) option" where
  "lpQuote e s = (case activeReserveArgs s of None \<Rightarrow> None
     | Some a \<Rightarrow> if \<not> engineReady e then None
         else try_some (rbind (case pg_driver s of
             ByHbd \<Rightarrow> rbind (toUnits (typed_or_zero (pg_hbdInput s))) (\<lambda>t. rmap show_int (reverseLcForHbd e t a))
           | ByLc \<Rightarrow> toBaseUnitArg (typed_or_zero (pg_lcInput s)))
           (\<lambda>lcBase. rmap (\<lambda>q. (q, lcBase)) (estimate_deposit e a lcBase))))"

text \<open>The two effects: the field not typed in follows, and a pool without reserves starts
  from empty fields.\<close>

definition sync_fields :: "engine \<Rightarrow> pool_page \<Rightarrow> pool_page" where
  "sync_fields e s = (case lpQuote e s of None \<Rightarrow> s
     | Some (q, lcBase) \<Rightarrow> if \<not> le_ok q then s
         else (case pg_driver s of ByLc \<Rightarrow> s\<lparr>pg_hbdInput := le_hbdNeeded q\<rparr>
           | ByHbd \<Rightarrow> (case big_int lcBase of Inr u \<Rightarrow> s\<lparr>pg_lcInput := fromUnits u\<rparr> | Inl _ \<Rightarrow> s)))"

definition clear_for_first :: "pool_page \<Rightarrow> pool_page" where
  "clear_for_first s = (if pg_info s = None then s
     else if poolReady s then s\<lparr>pg_cleared := False\<rparr>
     else if \<not> pg_cleared s then s\<lparr>pg_lcInput := [], pg_hbdInput := [], pg_cleared := True\<rparr> else s)"

section \<open>Depositing: what the account can afford\<close>

definition RC_RESERVE_MILLI :: int where "RC_RESERVE_MILLI = 5500"
definition MILLI :: int where "MILLI = 100000"

definition hbdSpendableUnits :: "pool_page \<Rightarrow> int" where
  "hbdSpendableUnits s = (case pg_meter s of None \<Rightarrow> hbdBalanceUnits s
     | Some m \<Rightarrow> let byRc = max 0 (rc_amount m - RC_RESERVE_MILLI) * MILLI in
         if byRc < hbdBalanceUnits s then byRc else hbdBalanceUnits s)"

definition rcIsBinding :: "pool_page \<Rightarrow> bool" where
  "rcIsBinding s = (hbdSpendableUnits s < hbdBalanceUnits s)"

definition affordableDeposit :: "engine \<Rightarrow> pool_page \<Rightarrow> (int \<times> int) option result" where
  "affordableDeposit e s = (case (pg_me s, activeReserveArgs s) of
     (Some me, Some a) \<Rightarrow> rbind (toUnits (av_balance me)) (\<lambda>lcBalance. rbind (reverseLcForHbd e (hbdSpendableUnits s) a) (\<lambda>lcFromHbd.
       let lcFinal = (if lcBalance < lcFromHbd then lcBalance else lcFromHbd) in
       rbind (estimate_deposit e a (show_int lcFinal)) (\<lambda>q.
         rmap (\<lambda>h. Some (lcFinal, h)) (if le_ok q then toUnits (le_hbdNeeded q) else Inr 0))))
   | _ \<Rightarrow> Inr None)"

definition max_field :: "driver \<Rightarrow> engine \<Rightarrow> pool_page \<Rightarrow> pool_page result" where
  "max_field d e s = rmap (\<lambda>m. case m of None \<Rightarrow> s
     | Some (l, h) \<Rightarrow> s\<lparr>pg_driver := d, pg_lcInput := fromUnits l, pg_hbdInput := fromUnits h\<rparr>) (affordableDeposit e s)"

definition maxLc :: "engine \<Rightarrow> pool_page \<Rightarrow> pool_page result" where "maxLc = max_field ByLc"
definition maxHbd :: "engine \<Rightarrow> pool_page \<Rightarrow> pool_page result" where "maxHbd = max_field ByHbd"

definition maxSwapIn :: "pool_page \<Rightarrow> pool_page" where
  "maxSwapIn s = (case pg_me s of None \<Rightarrow> s
     | Some me \<Rightarrow> s\<lparr>pg_amountIn := (if sellingLC s then av_balance me else fromUnits (hbdSpendableUnits s))\<rparr>)"

definition sendHbdUnits :: "engine \<Rightarrow> pool_page \<Rightarrow> int" where
  "sendHbdUnits e s = or_default 0 (if poolReady s then toUnits (case lpQuote e s of None \<Rightarrow> ''0'' | Some (q, _) \<Rightarrow> le_hbdNeeded q)
     else toUnits (typed_or_zero (pg_hbdInput s)))"

definition lc_base :: "engine \<Rightarrow> pool_page \<Rightarrow> int" where
  "lc_base e s = (case lpQuote e s of Some (q, lcBase) \<Rightarrow> if le_ok q then or_default 0 (big_int lcBase) else 0 | None \<Rightarrow> 0)"

definition insufficientReason :: "engine \<Rightarrow> pool_page \<Rightarrow> string option result" where
  "insufficientReason e s = (case pg_me s of None \<Rightarrow> Inr None
     | Some me \<Rightarrow>
       if \<not> poolReady s \<and> (pg_openingPrice s = [] \<or> (case toUnits (pg_openingPrice s) of Inr p \<Rightarrow> p \<le> 0 | Inl _ \<Rightarrow> True))
         then Inr (Some ''Set an opening price'')
       else if lc_base e s \<le> 0 \<or> sendHbdUnits e s \<le> 0 then Inr (Some ''Enter an amount'')
       else rmap (\<lambda>bal. if lc_base e s > bal then Some (''Not enough LASSECASH'' @ em_dash @ ''press Max for the most you can add'')
         else if sendHbdUnits e s > hbdSpendableUnits s then
           (if hbdSpendableUnits s \<le> 0
              then Some (''Not enough resource credits right now'' @ em_dash @ ''they refill over 5 days, or instantly if you deposit more HBD to MAGI'')
            else if rcIsBinding s
              then Some (''Too much for one deposit'' @ em_dash @ ''on MAGI your HBD is also your resource credits. Press Max, or add more HBD (it raises the meter).'')
            else Some (''Not enough HBD on MAGI'' @ em_dash @ ''deposit from Hive first''))
         else None) (toUnits (av_balance me)))"

definition showOpeningPricePreview :: "engine \<Rightarrow> pool_page \<Rightarrow> bool" where
  "showOpeningPricePreview e s = (\<not> poolReady s \<and> lc_base e s > 0 \<and> sendHbdUnits e s > 0)"

text \<open>What the button sends; 'headroom' adds one per cent.\<close>

definition deposit_args :: "(string \<Rightarrow> string) \<Rightarrow> engine \<Rightarrow> pool_page \<Rightarrow> (amount \<times> amount) option" where
  "deposit_args headroom e s = (case lpQuote e s of None \<Rightarrow> None
     | Some (q, lcBase) \<Rightarrow> if \<not> le_ok q then None
         else Some (fromUnits (lc_base e s), if poolReady s then headroom (le_hbdNeeded q) else pg_hbdInput s))"

definition trancheTotals :: "(tranche_view \<Rightarrow> amount) \<Rightarrow> pool_page \<Rightarrow> amount result" where
  "trancheTotals pick s = rmap (\<lambda>us. fromUnits (sum_list us))
     (mapR (\<lambda>t. toUnits (pick t)) (case pg_me s of None \<Rightarrow> [] | Some v \<Rightarrow> filter (\<lambda>t. \<not> tv_closed t) (av_tranches v)))"

section \<open>The native pool's panel\<close>

record native_panel =
  nv_dir :: swap_direction
  nv_amount :: string
  nv_quote :: "native_quote option"
  nv_quoting :: bool
  nv_seq :: nat
  nv_timer :: bool
  nv_asked :: "(nat \<times> swap_direction \<times> int) list"
  nv_for :: "(swap_direction \<times> int) option"

text \<open>The typed amount in the input's own unit.  'nv_asked' is the quotes in flight and
  'nv_for' what the quote on screen was asked for; the program keeps neither.\<close>

definition native_units :: "swap_direction \<Rightarrow> string \<Rightarrow> int" where
  "native_units d t = (case toUnits (typed_or_zero t) of Inr u \<Rightarrow> (case d of LcHbd \<Rightarrow> u | HbdLc \<Rightarrow> unitsToMilli u) | Inl _ \<Rightarrow> 0)"

definition nativeInUnits :: "native_panel \<Rightarrow> int" where
  "nativeInUnits s = native_units (nv_dir s) (nv_amount s)"

text \<open>'keep' is what the tolerance leaves, in hundredths of a per cent.\<close>

definition nativeMinOut :: "int \<Rightarrow> native_panel \<Rightarrow> int" where
  "nativeMinOut keep s = (case nv_quote s of Some q \<Rightarrow> if nq_ok q then bdiv (nq_amountOut q * keep) 10000 else 0 | None \<Rightarrow> 0)"

definition scheduleNativeQuote :: "native_panel \<Rightarrow> native_panel" where
  "scheduleNativeQuote s = s\<lparr>nv_quote := None, nv_for := None, nv_timer := True\<rparr>"

definition type_native :: "swap_direction \<Rightarrow> string \<Rightarrow> native_panel \<Rightarrow> native_panel" where
  "type_native d t s = scheduleNativeQuote (s\<lparr>nv_dir := d, nv_amount := t\<rparr>)"

definition runNativeQuote :: "native_panel \<Rightarrow> native_panel" where
  "runNativeQuote s = (if nativeInUnits s \<le> 0 then s
     else s\<lparr>nv_seq := nv_seq s + 1, nv_quoting := True, nv_asked := (nv_seq s + 1, nv_dir s, nativeInUnits s) # nv_asked s\<rparr>)"

definition quote_timer :: "native_panel \<Rightarrow> native_panel" where
  "quote_timer s = runNativeQuote (s\<lparr>nv_timer := False\<rparr>)"

definition quote_failed :: "js_error \<Rightarrow> native_quote" where
  "quote_failed e = \<lparr>nq_ok = False, nq_amountOut = 0, nq_whitelisted = True, nq_msg = message_of e\<rparr>"

text \<open>The answer to one quote in flight: dropped unless it is the newest.\<close>

definition quote_answer :: "nat \<times> swap_direction \<times> int \<Rightarrow> native_quote result \<Rightarrow> native_panel \<Rightarrow> native_panel" where
  "quote_answer a r s = (let s1 = s\<lparr>nv_asked := remove1 a (nv_asked s)\<rparr> in
     if fst a \<noteq> nv_seq s then s1
     else s1\<lparr>nv_quote := Some (case r of Inr q \<Rightarrow> q | Inl e \<Rightarrow> quote_failed e), nv_for := Some (snd a), nv_quoting := False\<rparr>)"

text \<open>The call the button signs, where it is enabled.\<close>

definition native_call :: "int \<Rightarrow> native_panel \<Rightarrow> (swap_direction \<times> int \<times> int) option" where
  "native_call keep s = (case nv_quote s of
     Some q \<Rightarrow> if nq_ok q then Some (nv_dir s, nativeInUnits s, nativeMinOut keep s) else None
   | None \<Rightarrow> None)"

text \<open>After the press: a swap that went through is quoted again.\<close>

definition native_swapped :: "string option \<Rightarrow> native_panel \<Rightarrow> native_panel" where
  "native_swapped refusal s = (if nullish refusal [] = [] then runNativeQuote (s\<lparr>nv_quote := None, nv_for := None\<rparr>) else s)"

section \<open>The search finds the largest deposit\<close>

text \<open>The engine's price of a deposit: with reserves it answers every positive amount.\<close>

definition prices :: "engine \<Rightarrow> reserves \<Rightarrow> (int \<Rightarrow> int) \<Rightarrow> bool" where
  "prices e a f = (\<forall>u>0. \<exists>q. estimate_deposit e a (show_int u) = Inr q \<and> le_ok q \<and> \<not> le_isFirstDeposit q \<and> toUnits (le_hbdNeeded q) = Inr (f u))"

lemma needFor_prices: "prices e a f \<Longrightarrow> 0 < u \<Longrightarrow> needFor e a u = Inr (f u)"
  by (fastforce simp: prices_def needFor_def)

lemma grow_hi_finds:
  assumes "\<And>u. 0 < u \<Longrightarrow> need u = Inr (f u)"
  shows "0 < hi \<Longrightarrow> target < f (hi * 2 ^ n) \<Longrightarrow> \<exists>k\<le>n. grow_hi n need target hi = Inr (hi * 2 ^ k) \<and> target < f (hi * 2 ^ k)"
proof (induction n arbitrary: hi)
  case (Suc n)
  show ?case
  proof (cases "f hi \<le> target")
    case True
    have "target < f (hi * 2 * 2 ^ n)" using Suc.prems(2) by (simp add: mult.assoc)
    with Suc.IH [of "hi * 2"] Suc.prems(1) obtain k where
      k: "k \<le> n" "grow_hi n need target (hi * 2) = Inr (hi * 2 * 2 ^ k)" "target < f (hi * 2 * 2 ^ k)" by auto
    then show ?thesis using True assms [OF Suc.prems(1)] by (intro exI [of _ "Suc k"]) (simp add: mult.assoc)
  qed (use assms [OF Suc.prems(1)] in \<open>auto intro!: exI [of _ 0]\<close>)
qed simp

lemma narrow_finds:
  assumes "\<And>u. 0 < u \<Longrightarrow> need u = Inr (f u)"
  shows "j \<le> n \<Longrightarrow> 0 \<le> lo \<Longrightarrow> hi = lo + 2 ^ j \<Longrightarrow> lo = 0 \<or> f lo \<le> target \<Longrightarrow> target < f hi \<Longrightarrow>
    \<exists>l\<ge>0. narrow n need target lo hi = Inr l \<and> (l = 0 \<or> f l \<le> target) \<and> target < f (l + 1)"
proof (induction n arbitrary: j lo hi)
  case (Suc n)
  show ?case
  proof (cases j)
    case (Suc i)
    have one: "(1::int) \<le> 2 ^ i" by simp
    have sum: "hi = lo + 2 ^ i + 2 ^ i" using Suc.prems(3) Suc by simp
    have mid: "bdiv (lo + hi) 2 = lo + 2 ^ i" using Suc.prems(2) sum by (simp add: bdiv_nonneg)
    have pos: "0 < lo + 2 ^ i" "hi - lo > 1" using Suc.prems(2) sum one by linarith+
    have need: "need (lo + 2 ^ i) = Inr (f (lo + 2 ^ i))" by (rule assms [OF pos(1)])
    have i: "i \<le> n" using Suc.prems(1) Suc by simp
    show ?thesis
    proof (cases "f (lo + 2 ^ i) \<le> target")
      case True
      have "hi = (lo + 2 ^ i) + 2 ^ i" using Suc.prems(3) Suc by simp
      with Suc.IH [OF i, of "lo + 2 ^ i" hi] True pos Suc.prems(5) show ?thesis by (simp add: mid need Let_def)
    next
      case False
      with Suc.IH [OF i Suc.prems(2) refl Suc.prems(4)] show ?thesis using pos by (simp add: mid need Let_def)
    qed
  qed (use Suc.prems in simp)
qed simp

text \<open>C1: for a price that does not fall with the amount, the search returns the largest
  LASSECASH amount whose HBD still fits the target.\<close>

theorem reverse_is_largest:
  assumes "prices e a f" "mono_on {1..} f" "0 < target" "target < f (2 ^ 64)"
  shows "\<exists>l\<ge>0. reverseLcForHbd e target a = Inr l \<and> {u. 0 < u \<and> f u \<le> target} = {1..l}"
proof -
  note need = needFor_prices [OF assms(1)]
  obtain k where k: "k \<le> 64" "grow_hi 64 (needFor e a) target 1 = Inr (2 ^ k)" "target < f (2 ^ k)"
    using grow_hi_finds [where need = "needFor e a" and f = f and hi = 1 and n = 64 and target = target, OF need] assms(4) by auto
  obtain l where l: "0 \<le> l" "narrow 64 (needFor e a) target 0 (2 ^ k) = Inr l" "l = 0 \<or> f l \<le> target" "target < f (l + 1)"
    using narrow_finds [where need = "needFor e a" and f = f and j = k and n = 64 and lo = 0 and hi = "2 ^ k" and target = target, OF need] k by auto
  have "f u \<le> target \<longleftrightarrow> u \<le> l" if "0 < u" for u
  proof
    show "u \<le> l" if "f u \<le> target"
    proof (rule ccontr)
      assume "\<not> u \<le> l"
      then have "f (l + 1) \<le> f u" using l(1) by (intro mono_onD [OF assms(2)]) auto
      then show False using that l(4) by simp
    qed
    show "f u \<le> target" if "u \<le> l"
      using mono_onD [OF assms(2), of u l] l(3) that \<open>0 < u\<close> by auto
  qed
  then have "{u. 0 < u \<and> f u \<le> target} = {1..l}" by auto
  then show ?thesis using l k assms(3) by (auto simp: reverseLcForHbd_def)
qed


section \<open>Drawing HBD leaves the credits a call needs\<close>

lemma spend_leaves_reserve:
  "hbdSpendableUnits s \<le> hbdBalanceUnits s \<and>
   (case pg_meter s of None \<Rightarrow> True | Some m \<Rightarrow> hbdSpendableUnits s \<le> max 0 (rc_amount m - 5500) * 100000)"
  by (simp add: hbdSpendableUnits_def RC_RESERVE_MILLI_def MILLI_def Let_def split: option.split)

section \<open>An engine that prices at two to one\<close>

definition ceil_half :: "int \<Rightarrow> int" where "ceil_half u = (u + 1) div 2"

definition half_engine :: engine where
  "half_engine = Some (still_bridge\<lparr>b_liquidityQuote := (\<lambda>lcIn _ _ _. \<lparr>rl_ok = True, rl_isFirstDeposit = False,
     rl_hbdNeeded = show_int (ceil_half (or_default 0 (big_int lcIn))), rl_shares = lcIn\<rparr>)\<rparr>)"

lemma half_prices: "prices half_engine a ceil_half"
  by (auto simp: prices_def estimate_deposit_def half_engine_def estimateLiquidity_def must_def Let_def amount_of_def toUnits_fromUnits
      split: prod.splits)

lemma half_mono: "mono_on {1..} ceil_half"
  by (auto intro!: mono_onI simp: ceil_half_def zdiv_mono1)

lemma reverse_is_largest_witness:
  "prices half_engine (''1'', ''1'', ''1'') ceil_half \<and> mono_on {1..} ceil_half \<and> (0::int) < 5 \<and> 5 < ceil_half (2 ^ 64)
   \<and> (\<exists>l\<ge>0. reverseLcForHbd half_engine 5 (''1'', ''1'', ''1'') = Inr l \<and> {u. 0 < u \<and> ceil_half u \<le> 5} = {1..l})"
proof (intro conjI)
  show b: "5 < ceil_half (2 ^ 64)" by (simp add: ceil_half_def)
  show "\<exists>l\<ge>0. reverseLcForHbd half_engine 5 (''1'', ''1'', ''1'') = Inr l \<and> {u. 0 < u \<and> ceil_half u \<le> 5} = {1..l}"
    by (rule reverse_is_largest [OF half_prices half_mono _ b]) simp
qed (simp_all add: half_prices half_mono)

text \<open>Someone opening a pool at two HBD, with seven units of LASSECASH and five of HBD.\<close>

definition opener :: account_view where
  "opener = \<lparr>av_account = ''hive:al'', av_balance = fromUnits 7, av_shares = ''0'', av_pending = ''0'', av_pending_curation = 0,
     av_pending_epoch = None, av_mint_duration_days = 0, av_hbd = 5, av_hive = 0, av_vote_power = ([], []), av_mints = [],
     av_tranches = [], av_is_consensus_member = False\<rparr>"

definition opening_page :: pool_page where
  "opening_page = \<lparr>pg_direction = LcHbd, pg_amountIn = ''1000'', pg_driver = ByLc, pg_lcInput = [], pg_hbdInput = [],
     pg_openingPrice = fromUnits 200000000, pg_info = None, pg_me = Some opener, pg_meter = None, pg_cleared = True\<rparr>"

lemma opening_args: "activeReserveArgs opening_page = Some (''100000000'', show_int 200000000, ''100000000'')"
proof -
  have "fromUnits 200000000 \<noteq> []" using toUnits_fromUnits [of 200000000]
    by (auto simp: toUnits_def amount_re_def decimal_re_def strip_minus_def js_trim_def throw_def)
  moreover have "show_int 200000000 \<noteq> ''0''" 
  proof
    assume "show_int 200000000 = ''0''"
    moreover have "show_int 0 = ''0''" by code_simp
    ultimately show False using big_int_show [of 200000000] big_int_show [of 0] by (metis sum.inject(2) zero_neq_numeral)
  qed
  ultimately show ?thesis
    by (simp add: activeReserveArgs_def poolReady_def syntheticReserveArgs_def opening_page_def typed_or_zero_def toBaseUnitArg_def toUnits_fromUnits)
qed


section \<open>Quotes in flight\<close>

definition fresh_panel :: native_panel where
  "fresh_panel = \<lparr>nv_dir = LcHbd, nv_amount = ''1000'', nv_quote = None, nv_quoting = False, nv_seq = 0, nv_timer = False, nv_asked = [], nv_for = None\<rparr>"

inductive native_step :: "native_panel \<Rightarrow> native_panel \<Rightarrow> bool" where
  run: "native_step s (runNativeQuote s)"
| typing: "native_step s (type_native d t s)"
| timer: "nv_timer s \<Longrightarrow> native_step s (quote_timer s)"
| answer: "a \<in> set (nv_asked s) \<Longrightarrow> native_step s (quote_answer a r s)"
| swapped: "native_step s (native_swapped refusal s)"

definition asks_now :: "native_panel \<Rightarrow> swap_direction \<times> int" where
  "asks_now s = (nv_dir s, nativeInUnits s)"

text \<open>Unless the timer of a later change is still to come, the newest question is the one
  on screen, and so is the quote unless it is being asked for.\<close>

definition panel_ok :: "native_panel \<Rightarrow> bool" where
  "panel_ok s = (list_all (\<lambda>a. fst a \<le> nv_seq s) (nv_asked s) \<and> (nv_timer s \<or> nativeInUnits s \<le> 0 \<or>
     (list_all (\<lambda>a. fst a = nv_seq s \<longrightarrow> snd a = asks_now s) (nv_asked s) \<and>
      (nv_quoting s \<or> nv_quote s = None \<or> nv_for s = Some (asks_now s)))))"

lemma units_indep [simp]:
  "nativeInUnits (s\<lparr>nv_quote := q\<rparr>) = nativeInUnits s" "nativeInUnits (s\<lparr>nv_quoting := b\<rparr>) = nativeInUnits s"
  "nativeInUnits (s\<lparr>nv_seq := n\<rparr>) = nativeInUnits s" "nativeInUnits (s\<lparr>nv_timer := b\<rparr>) = nativeInUnits s"
  "nativeInUnits (s\<lparr>nv_asked := l\<rparr>) = nativeInUnits s" "nativeInUnits (s\<lparr>nv_for := g\<rparr>) = nativeInUnits s"
  by (simp_all add: nativeInUnits_def)

lemma run_ok:
  assumes "list_all (\<lambda>a. fst a \<le> nv_seq s) (nv_asked s)"
  shows "panel_ok (runNativeQuote s)"
  using assms by (auto simp: runNativeQuote_def panel_ok_def asks_now_def list_all_iff)

lemma native_step_ok: "native_step s t \<Longrightarrow> panel_ok s \<Longrightarrow> panel_ok t"
proof (induction rule: native_step.induct)
  case (answer a s r)
  have "set (remove1 a (nv_asked s)) \<subseteq> set (nv_asked s)" by (rule set_remove1_subset)
  then show ?case using answer by (fastforce simp: quote_answer_def panel_ok_def Let_def list_all_iff asks_now_def)
next
  case (swapped s refusal)
  then show ?case using run_ok [of "s\<lparr>nv_quote := None, nv_for := None\<rparr>"] by (auto simp: native_swapped_def panel_ok_def)
next
  case (run s)
  then show ?case by (intro run_ok) (simp add: panel_ok_def)
next
  case (timer s)
  then show ?case unfolding quote_timer_def by (intro run_ok) (simp add: panel_ok_def)
qed (simp add: type_native_def scheduleNativeQuote_def panel_ok_def)


abbreviation sold_quote :: native_quote where
  "sold_quote \<equiv> \<lparr>nq_ok = True, nq_amountOut = 1136, nq_whitelisted = True, nq_msg = []\<rparr>"

text \<open>The panel opens with a quote of a sale and the answer comes: the button signs it.\<close>

lemma thousand: "native_units LcHbd ''1000'' = 100000000000" "native_units HbdLc ''1'' = 1000"
proof -
  have t: "toUnits ''1000'' = Inr 100000000000" "toUnits ''1'' = Inr 100000000"
    by (simp_all add: toUnits_def amount_re_def decimal_re_def strip_minus_def js_trim_def is_space_def is_digit_def starts_with_def
      DECIMALS_def UNIT_def dec_val_def digit_val_def Let_def eval_nat_numeral)
  show "native_units LcHbd ''1000'' = 100000000000" "native_units HbdLc ''1'' = 1000"
    by (simp_all add: native_units_def typed_or_zero_def t unitsToMilli_def bdiv_nonneg)
qed

abbreviation asked_panel :: native_panel where "asked_panel \<equiv> runNativeQuote fresh_panel"

lemma asked_panel_simps: "nv_asked asked_panel = [(1, LcHbd, 100000000000)]" "nv_seq asked_panel = 1" "nv_dir asked_panel = LcHbd"
  "nv_amount asked_panel = ''1000''" "nv_timer asked_panel = False"
  by (simp_all add: runNativeQuote_def fresh_panel_def nativeInUnits_def thousand)


text \<open>C1: a quote in flight is not dropped when the amount or the side changes: its answer
  enables the button, which then signs the new amount with a floor worked out for the
  old one - here a purchase for one HBD guarded by 1124 units of LASSECASH.\<close>

theorem stale_quote_sets_floor:
  "\<exists>s. native_step\<^sup>*\<^sup>* fresh_panel s \<and> native_call 9900 s = Some (HbdLc, 1000, 1124) \<and> nv_for s = Some (LcHbd, 100000000000)"
proof (intro exI conjI)
  let ?t = "type_native HbdLc ''1'' asked_panel"
  let ?s = "quote_answer (1, LcHbd, 100000000000) (Inr sold_quote) ?t"
  have f: "nv_asked ?t = [(1, LcHbd, 100000000000)]" "nv_seq ?t = 1" "nv_dir ?t = HbdLc" "nv_amount ?t = ''1''"
    by (simp_all add: type_native_def scheduleNativeQuote_def asked_panel_simps)
  show "native_step\<^sup>*\<^sup>* fresh_panel ?s"
    by (rule converse_rtranclp_into_rtranclp, rule native_step.run, rule converse_rtranclp_into_rtranclp, rule native_step.typing,
      rule r_into_rtranclp, rule native_step.answer) (simp add: f)
  show "native_call 9900 ?s = Some (HbdLc, 1000, 1124)"
    by (simp add: native_call_def quote_answer_def f nativeMinOut_def nativeInUnits_def thousand bdiv_nonneg Let_def)
  show "nv_for ?s = Some (LcHbd, 100000000000)" by (simp add: quote_answer_def f Let_def)
qed

end
