(* ===== verification/ServerPages.thy ===== *)
theory ServerPages
  imports Feed MarketData Markdown Site Client
begin

text \<open>
  The server side of the site (src/web/src/lib/server and the routes that answer with
  text): the cached list of posts with its builds in flight, articles, the feed, the
  sitemap, the market endpoints.  The backend's reads are arguments; the list of posts is a
  step relation, since the order in which requests, the edge copy and the chain answer
  is what its cache is about.
\<close>

section \<open>The list of posts (server/content.ts)\<close>

definition LIST_TTL_MS :: int where "LIST_TTL_MS = 60000"
definition EDGE_FRESH_MS :: int where "EDGE_FRESH_MS = 60000"
definition EDGE_WAIT_MS :: int where "EDGE_WAIT_MS = 2500"

type_synonym copy = "(int \<times> post_meta list) option"

datatype phase = AskingEdge copy | Joined nat | Racing nat "post_meta list" int | Answered "post_meta list"

text \<open>One limit's list in one worker; 'ls_running' is the builds in flight with the copies
  they fall back on, and 'ls_heard' every list the chain has given.\<close>

record list_state =
  ls_now :: int
  ls_cache :: copy
  ls_building :: "nat option"
  ls_edge :: copy
  ls_next :: nat
  ls_running :: "(nat \<times> post_meta list option) list"
  ls_done :: "(nat \<times> post_meta list) list"
  ls_req :: "nat \<Rightarrow> phase option"
  ls_heard :: "post_meta list set"

definition or_else :: "'a option \<Rightarrow> 'a option \<Rightarrow> 'a option" where
  "or_else a b = (case a of None \<Rightarrow> b | Some x \<Rightarrow> Some x)"

text \<open>'edgeGet': an empty copy counts as none, and so does a failure.\<close>

definition edgeGet :: "bool \<Rightarrow> list_state \<Rightarrow> copy" where
  "edgeGet failed s = (if failed then None else case ls_edge s of Some (tm, ps) \<Rightarrow> if ps = [] then None else Some (tm, ps) | None \<Rightarrow> None)"

definition edgePut :: "post_meta list \<Rightarrow> list_state \<Rightarrow> list_state" where
  "edgePut ps s = (if ps = [] then s else s\<lparr>ls_edge := Some (ls_now s, ps)\<rparr>)"

text \<open>A build starts and is registered; with a stale copy in hand the request races it.\<close>

definition start_build :: "nat \<Rightarrow> copy \<Rightarrow> copy \<Rightarrow> list_state \<Rightarrow> list_state" where
  "start_build r hit edge s = (let b = ls_next s; stale = or_else (map_option snd hit) (map_option snd edge) in
     s\<lparr>ls_next := b + 1, ls_building := Some b, ls_running := (b, stale) # ls_running s,
       ls_req := (ls_req s)(r \<mapsto> (case stale of Some ps \<Rightarrow> Racing b ps (ls_now s + EDGE_WAIT_MS) | None \<Rightarrow> Joined b))\<rparr>)"

text \<open>A request arrives; up to its first 'await' nothing else runs.  Only the list of fifty
  has a copy at the edge.\<close>

definition list_request :: "bool \<Rightarrow> nat \<Rightarrow> list_state \<Rightarrow> list_state" where
  "list_request at_edge r s = (let hit = ls_cache s in
     case hit of Some (tm, ps) \<Rightarrow>
       if ls_now s - tm < LIST_TTL_MS then s\<lparr>ls_req := (ls_req s)(r \<mapsto> Answered ps)\<rparr>
       else (case ls_building s of Some b \<Rightarrow> s\<lparr>ls_req := (ls_req s)(r \<mapsto> Joined b)\<rparr>
         | None \<Rightarrow> if at_edge then s\<lparr>ls_req := (ls_req s)(r \<mapsto> AskingEdge hit)\<rparr> else start_build r hit None s)
     | None \<Rightarrow> (case ls_building s of Some b \<Rightarrow> s\<lparr>ls_req := (ls_req s)(r \<mapsto> Joined b)\<rparr>
         | None \<Rightarrow> if at_edge then s\<lparr>ls_req := (ls_req s)(r \<mapsto> AskingEdge hit)\<rparr> else start_build r hit None s))"

definition edge_answer :: "nat \<Rightarrow> copy \<Rightarrow> copy \<Rightarrow> list_state \<Rightarrow> list_state" where
  "edge_answer r hit edge s = (case edge of
     Some (tm, ps) \<Rightarrow> if ls_now s - tm < EDGE_FRESH_MS then s\<lparr>ls_req := (ls_req s)(r \<mapsto> Answered ps)\<rparr> else start_build r hit edge s
   | None \<Rightarrow> start_build r hit edge s)"

text \<open>A build ends with the chain's answer: the caches take a list that is not empty, and
  whatever build is registered is unregistered.  'stored' says whether the edge took it.\<close>

definition build_ends :: "bool \<Rightarrow> nat \<Rightarrow> post_meta list option \<Rightarrow> post_meta list result \<Rightarrow> list_state \<Rightarrow> list_state" where
  "build_ends stored b stale res s = (let
       got = (case res of Inr ps \<Rightarrow> ps | Inl _ \<Rightarrow> []);
       s1 = (if got = [] then s else (let s0 = s\<lparr>ls_cache := Some (ls_now s, got)\<rparr> in if stored then edgePut got s0 else s0));
       v = (if got \<noteq> [] then got else nullish stale got) in
     s1\<lparr>ls_building := None, ls_running := filter (\<lambda>x. fst x \<noteq> b) (ls_running s1), ls_done := (b, v) # ls_done s1, ls_heard := insert got (ls_heard s1)\<rparr>)"

definition answer_with :: "nat \<Rightarrow> post_meta list \<Rightarrow> list_state \<Rightarrow> list_state" where
  "answer_with r ps s = s\<lparr>ls_req := (ls_req s)(r \<mapsto> Answered ps)\<rparr>"

inductive list_step :: "bool \<Rightarrow> list_state \<Rightarrow> list_state \<Rightarrow> bool" for at_edge where
  tick: "0 < d \<Longrightarrow> list_step at_edge s (s\<lparr>ls_now := ls_now s + d\<rparr>)"
| request: "ls_req s r = None \<Longrightarrow> list_step at_edge s (list_request at_edge r s)"
| edge: "ls_req s r = Some (AskingEdge hit) \<Longrightarrow> list_step at_edge s (edge_answer r hit (edgeGet failed s) s)"
| ends: "(b, stale) \<in> set (ls_running s) \<Longrightarrow> list_step at_edge s (build_ends (stored \<and> at_edge) b stale res s)"
| joined: "ls_req s r = Some (Joined b) \<Longrightarrow> (b, ps) \<in> set (ls_done s) \<Longrightarrow> list_step at_edge s (answer_with r ps s)"
| won: "ls_req s r = Some (Racing b old t) \<Longrightarrow> (b, ps) \<in> set (ls_done s) \<Longrightarrow> list_step at_edge s (answer_with r ps s)"
| late: "ls_req s r = Some (Racing b old t) \<Longrightarrow> t \<le> ls_now s \<Longrightarrow> list_step at_edge s (answer_with r old s)"

definition cold_worker :: "copy \<Rightarrow> list_state" where
  "cold_worker edge = \<lparr>ls_now = 0, ls_cache = None, ls_building = None, ls_edge = edge, ls_next = 0, ls_running = [], ls_done = [],
     ls_req = (\<lambda>_. None), ls_heard = (case edge of None \<Rightarrow> {} | Some (tm, ps) \<Rightarrow> {ps})\<rparr>"

section \<open>One build at a time, where there is no edge to ask\<close>

definition one_build :: "list_state \<Rightarrow> bool" where
  "one_build s = ((\<forall>r hit. ls_req s r \<noteq> Some (AskingEdge hit)) \<and> map fst (ls_running s) = (case ls_building s of None \<Rightarrow> [] | Some b \<Rightarrow> [b]))"

lemma one_build_step: "list_step False s t \<Longrightarrow> one_build s \<Longrightarrow> one_build t"
proof (induction rule: list_step.induct)
  case (request s r)
  then show ?case by (auto simp: one_build_def list_request_def start_build_def Let_def split: option.splits)
next
  case (ends b stale s stored res)
  have "map fst (ls_running s) = [b]" using ends by (force simp: one_build_def split: option.splits)
  then have "\<forall>x \<in> set (ls_running s). fst x = b" by (metis in_set_conv_nth length_map list.set_intros(1) nth_map set_ConsD list.set_map imageI empty_iff empty_set)
  then have "filter (\<lambda>x. fst x \<noteq> b) (ls_running s) = []" by (simp add: filter_empty_conv)
  then show ?case using ends(2) by (auto simp: one_build_def build_ends_def Let_def)
qed (auto simp: one_build_def answer_with_def)

text \<open>C1: for every limit but fifty, a request that arrives while a list is being built
  joins that build: no worker ever builds the same list twice at once.\<close>

theorem one_build_at_a_time:
  assumes "(list_step False)\<^sup>*\<^sup>* (cold_worker edge) s"
  shows "length (ls_running s) \<le> 1"
proof -
  have "one_build s" using assms
    by (induction rule: rtranclp_induct) (auto simp: one_build_step, simp add: one_build_def cold_worker_def)
  then have "length (map fst (ls_running s)) \<le> 1" by (auto simp: one_build_def split: option.splits)
  then show ?thesis by simp
qed

lemma one_build_at_a_time_witness:
  "(list_step False)\<^sup>*\<^sup>* (cold_worker None) (list_request False 0 (cold_worker None)) \<and> length (ls_running (list_request False 0 (cold_worker None))) \<le> 1"
proof
  show r: "(list_step False)\<^sup>*\<^sup>* (cold_worker None) (list_request False 0 (cold_worker None))"
    by (rule r_into_rtranclp, rule list_step.request) (simp add: cold_worker_def)
  show "length (ls_running (list_request False 0 (cold_worker None))) \<le> 1" by (rule one_build_at_a_time [OF r])
qed

section \<open>A burst on a cold worker\<close>

definition all_asking :: "nat \<Rightarrow> list_state \<Rightarrow> bool" where
  "all_asking n s = (ls_cache s = None \<and> ls_building s = None \<and> ls_edge s = None \<and> (\<forall>r. ls_req s r = (if r < n then Some (AskingEdge None) else None)))"

lemma burst_arrives: "\<exists>s. (list_step True)\<^sup>*\<^sup>* (cold_worker None) s \<and> all_asking n s \<and> ls_running s = []"
proof (induction n)
  case 0
  show ?case by (rule exI [of _ "cold_worker None"]) (simp add: all_asking_def cold_worker_def)
next
  case (Suc n)
  then obtain s where s: "(list_step True)\<^sup>*\<^sup>* (cold_worker None) s" "all_asking n s" "ls_running s = []" by blast
  have "list_step True s (list_request True n s)" using s(2) by (intro list_step.request) (simp add: all_asking_def)
  moreover have "all_asking (Suc n) (list_request True n s) \<and> ls_running (list_request True n s) = []"
    using s(2,3) by (auto simp: all_asking_def list_request_def)
  ultimately show ?case using s(1) by (meson rtranclp.rtrancl_into_rtrancl)
qed

lemma burst_builds:
  "m \<le> n \<Longrightarrow> \<exists>s. (list_step True)\<^sup>*\<^sup>* (cold_worker None) s \<and> ls_edge s = None \<and> length (ls_running s) = m
     \<and> (\<forall>r. m \<le> r \<and> r < n \<longrightarrow> ls_req s r = Some (AskingEdge None))"
proof (induction m)
  case 0
  from burst_arrives [of n] show ?case by (auto simp: all_asking_def)
next
  case (Suc m)
  then obtain s where s: "(list_step True)\<^sup>*\<^sup>* (cold_worker None) s" "ls_edge s = None" "length (ls_running s) = m"
    "\<forall>r. m \<le> r \<and> r < n \<longrightarrow> ls_req s r = Some (AskingEdge None)" by (meson Suc_leD)
  let ?t = "edge_answer m None (edgeGet False s) s"
  have "list_step True s ?t" using s(4) Suc.prems by (intro list_step.edge) simp
  moreover have "ls_edge ?t = None" "length (ls_running ?t) = Suc m" "\<forall>r. Suc m \<le> r \<and> r < n \<longrightarrow> ls_req ?t r = Some (AskingEdge None)"
    using s(2-4) by (auto simp: edge_answer_def edgeGet_def start_build_def Let_def)
  ultimately show ?case using s(1) by (meson rtranclp.rtrancl_into_rtrancl)
qed

text \<open>C1: for the list of fifty the registration comes after the question to the edge, so
  every request of a burst on a cold worker starts a build of its own.\<close>

theorem cold_burst_builds_each:
  "\<exists>s. (list_step True)\<^sup>*\<^sup>* (cold_worker None) s \<and> length (ls_running s) = n"
  using burst_builds [of n n] by blast

section \<open>Articles (server/content.ts)\<close>

record article_meta =
  am_author :: string
  am_handle :: string
  am_permlink :: string
  am_title :: string
  am_body :: string
  am_summary :: string
  am_tags :: "json list"
  am_cover :: "string option"
  am_created :: "string option"
  am_window :: "window option"
  am_registered :: bool
  am_published :: bool
  am_canonical :: string
  am_path :: string

text \<open>The first of some texts that is not empty.\<close>

definition first_text :: "string list \<Rightarrow> string" where
  "first_text ts = (case filter (\<lambda>t. t \<noteq> []) ts of [] \<Rightarrow> [] | t # _ \<Rightarrow> t)"

definition toArticle :: "string \<Rightarrow> string \<Rightarrow> string \<Rightarrow> content option \<Rightarrow> post_meta option \<Rightarrow> article_meta" where
  "toArticle site author permlink c p = (let body = (case c of None \<Rightarrow> [] | Some x \<Rightarrow> ct_body x) in
     \<lparr>am_author = author, am_handle = bareName author, am_permlink = permlink,
      am_title = first_text [(case c of None \<Rightarrow> [] | Some x \<Rightarrow> ct_title x), (case p of None \<Rightarrow> [] | Some m \<Rightarrow> pm_title m), permlink],
      am_body = body,
      am_summary = first_text [(case c of None \<Rightarrow> [] | Some x \<Rightarrow> js_trim (ct_summary x)), excerpt body 300, (case p of None \<Rightarrow> [] | Some m \<Rightarrow> pm_summary m)],
      am_tags = nullish (or_else (Option.bind c ct_tags) (Option.bind p pm_tags)) [],
      am_cover = (if body \<noteq> [] then cover_of_body body else None),
      am_created = or_else (map_option pm_created_time p) (Option.bind c ct_created),
      am_window = map_option pm_window p, am_registered = (case p of None \<Rightarrow> False | Some m \<Rightarrow> pm_registered m), am_published = (body \<noteq> []),
      am_canonical = postUrl site author permlink, am_path = postPath author permlink\<rparr>)"

definition getContent :: "content option result \<Rightarrow> content option" where
  "getContent r = or_default None r"

text \<open>One article: its words, and its registration read directly or found in the list.\<close>

definition getArticle :: "string \<Rightarrow> content option result \<Rightarrow> post_meta option result option \<Rightarrow> post_meta list \<Rightarrow> string \<Rightarrow> string \<Rightarrow> article_meta" where
  "getArticle site words direct listed author permlink = toArticle site author permlink (getContent words)
     (case direct of Some r \<Rightarrow> or_default None r
      | None \<Rightarrow> List.find (\<lambda>p. pm_author p = author \<and> pm_permlink p = permlink) listed)"

text \<open>Bodies in batches; the batches are what is asked at once.\<close>

definition listArticles :: "string \<Rightarrow> (string \<Rightarrow> string \<Rightarrow> content option result) \<Rightarrow> post_meta list \<Rightarrow> nat \<Rightarrow> article_meta list" where
  "listArticles site words ps batch = concat (map (map (\<lambda>p. toArticle site (pm_author p) (pm_permlink p)
     (getContent (words (pm_author p) (pm_permlink p))) (Some p))) (batches batch ps))"

section \<open>Addresses (params and the page loads)\<close>

definition match_at :: "string \<Rightarrow> bool" where "match_at p = (length p > 1 \<and> starts_with ''@'' p)"

definition ends_with :: "string \<Rightarrow> string \<Rightarrow> bool" where
  "ends_with t s = (length t \<le> length s \<and> drop (length s - length t) s = t)"

definition match_md :: "string \<Rightarrow> bool" where "match_md p = (length p > 3 \<and> ends_with ''.md'' p)"
definition match_slug :: "string \<Rightarrow> bool" where "match_slug p = (p \<noteq> [] \<and> \<not> ends_with ''.md'' p)"
definition match_edition :: "string \<Rightarrow> bool" where "match_edition p = (p = ''short'' \<or> p = ''full'')"

text \<open>The account a decoded path segment names.\<close>

definition path_account :: "string \<Rightarrow> string" where
  "path_account seg = (let raw = (if starts_with ''@'' seg then tl seg else seg) in if CHR '':'' \<in> set raw then raw else ''hive:'' @ raw)"

text \<open>A profile's list: the author's posts of the newest two hundred, twenty of them with
  a summary, read from the body only when the list has none.\<close>

record profile_post =
  pp_permlink :: string
  pp_title :: string
  pp_summary :: string
  pp_created :: string
  pp_window :: window
  pp_path :: string

definition profile_post_of :: "(string \<Rightarrow> string \<Rightarrow> content option result) \<Rightarrow> post_meta \<Rightarrow> profile_post" where
  "profile_post_of words p = (let c = (if pm_summary p \<noteq> [] then None else getContent (words (pm_author p) (pm_permlink p))) in
     \<lparr>pp_permlink = pm_permlink p,
      pp_title = first_text [(case c of None \<Rightarrow> [] | Some x \<Rightarrow> ct_title x), pm_title p, pm_permlink p],
      pp_summary = first_text [pm_summary p, excerpt (case c of Some x \<Rightarrow> ct_body x | None \<Rightarrow> pm_body_excerpt p) 200],
      pp_created = pm_created_time p, pp_window = pm_window p, pp_path = postPath (pm_author p) (pm_permlink p)\<rparr>)"

definition profile_load :: "(string \<Rightarrow> string \<Rightarrow> content option result) \<Rightarrow> post_meta list \<Rightarrow> string \<Rightarrow> profile_post list \<times> nat" where
  "profile_load words ps seg = (let mine = filter (\<lambda>p. pm_author p = path_account seg) ps in
     (map (profile_post_of words) (take 20 mine), length mine))"

text \<open>The gate before the launch: where a path is sent, if anywhere.\<close>

definition prelaunch_redirect :: "bool \<Rightarrow> string \<Rightarrow> string option" where
  "prelaunch_redirect prelaunch path = (if \<not> prelaunch then None
     else let p = first_text [rev (dropWhile (\<lambda>c. c = CHR ''/'') (rev path)), ''/''] in
       if list_ex (\<lambda>opn. p = opn \<or> starts_with (opn @ ''/'') p) [''/check'', ''/about''] then None else Some ''/check'')"

text \<open>The front page's list within its time limit: the answer, or the last good list.\<close>

definition feed_load :: "post_meta list option \<Rightarrow> post_meta list option \<Rightarrow> post_meta list \<times> string" where
  "feed_load in_time lastGood = (let ps = (case in_time of Some ps \<Rightarrow> ps | None \<Rightarrow> nullish lastGood []) in
     (ps, if ps \<noteq> [] then ''public, max-age=60, stale-while-revalidate=600'' else ''no-store''))"

section \<open>The discovery files\<close>

definition nl :: string where "nl = [CHR 0x0A]"
definition dq :: string where "dq = [CHR 0x22]"

definition tagged_text :: "string \<Rightarrow> string \<Rightarrow> string" where
  "tagged_text tag t = ''<'' @ tag @ ''>'' @ t @ ''</'' @ tag @ ''>''"

record sitemap_entry =
  sm_loc :: string
  sm_lastmod :: string
  sm_changefreq :: string
  sm_priority :: string

definition static_entry :: "string \<Rightarrow> string \<times> string \<times> string \<Rightarrow> sitemap_entry" where
  "static_entry site e = (case e of (p, f, r) \<Rightarrow> \<lparr>sm_loc = site @ p, sm_lastmod = [], sm_changefreq = f, sm_priority = r\<rparr>)"

definition sitemap_entries :: "string \<Rightarrow> post_meta list \<Rightarrow> sitemap_entry list" where
  "sitemap_entries site ps = map (static_entry site)
     [(''/'', ''daily'', ''0.8''), ([], ''hourly'', ''1.0''), (''/about/short'', ''monthly'', ''0.8''), (''/about/full'', ''monthly'', ''0.7''),
      (''/start'', ''monthly'', ''0.7''), (''/chain'', ''hourly'', ''0.6''), (''/pool'', ''hourly'', ''0.5''), (''/check'', ''daily'', ''0.9''),
      (''/stats'', ''hourly'', ''0.8''), (''/stats/migration'', ''daily'', ''0.6'')]
   @ map (\<lambda>p. \<lparr>sm_loc = postUrl site (pm_author p) (pm_permlink p), sm_lastmod = pm_created_time p, sm_changefreq = ''weekly'', sm_priority = ''0.9''\<rparr>) ps
   @ map (\<lambda>a. \<lparr>sm_loc = profileUrl site a, sm_lastmod = [], sm_changefreq = ''daily'', sm_priority = ''0.6''\<rparr>) (dedupe (map pm_author ps))"

definition sitemap_url :: "sitemap_entry \<Rightarrow> string" where
  "sitemap_url e = ''  <url>'' @ nl @ ''    '' @ tagged_text ''loc'' (xmlEscape (sm_loc e)) @ nl
     @ (if sm_lastmod e \<noteq> [] then ''    '' @ tagged_text ''lastmod'' (xmlEscape (sm_lastmod e)) @ nl else [])
     @ ''    '' @ tagged_text ''changefreq'' (sm_changefreq e) @ nl @ ''    '' @ tagged_text ''priority'' (sm_priority e) @ nl @ ''  </url>''"

definition sitemap :: "string \<Rightarrow> post_meta list \<Rightarrow> string" where
  "sitemap site ps = ''<?xml version='' @ dq @ ''1.0'' @ dq @ '' encoding='' @ dq @ ''UTF-8'' @ dq @ ''?>'' @ nl
     @ ''<urlset xmlns='' @ dq @ ''http://www.sitemaps.org/schemas/sitemap/0.9'' @ dq @ ''>'' @ nl
     @ js_join nl (map sitemap_url (sitemap_entries site ps)) @ nl @ ''</urlset>'' @ nl"

text \<open>'html.replace(/]]>/g, ...)', and the section it stands in.\<close>

definition cdata_safe :: "string \<Rightarrow> string" where
  "cdata_safe html = replace_all (XLit '']]>'') (\<lambda>_ _. '']]&gt;'') html"

text \<open>A category is text; 'xmlEscape' of a tag that is none throws.\<close>

definition rss_category :: "json \<Rightarrow> string result" where
  "rss_category t = (case t of JStr s \<Rightarrow> Inr (''      '' @ tagged_text ''category'' (xmlEscape s) @ nl) | _ \<Rightarrow> throw ''s.replace is not a function'')"

definition rss_item :: "string \<Rightarrow> (string \<Rightarrow> string) \<Rightarrow> string \<Rightarrow> article_meta \<Rightarrow> string result" where
  "rss_item site toUTC now a = rmap (\<lambda>cats. ''    <item>'' @ nl
     @ ''      '' @ tagged_text ''title'' (xmlEscape (am_title a)) @ nl
     @ ''      '' @ tagged_text ''link'' (xmlEscape (am_canonical a)) @ nl
     @ ''      <guid isPermaLink='' @ dq @ ''true'' @ dq @ ''>'' @ xmlEscape (am_canonical a) @ ''</guid>'' @ nl
     @ ''      '' @ tagged_text ''dc:creator'' (xmlEscape (''@'' @ am_handle a)) @ nl
     @ ''      '' @ tagged_text ''pubDate'' (case am_created a of Some t \<Rightarrow> if t \<noteq> [] then toUTC t else now | None \<Rightarrow> now) @ nl
     @ ''      '' @ tagged_text ''description'' (xmlEscape (am_summary a)) @ nl
     @ (case am_cover a of Some u \<Rightarrow> if u = [] then [] else
           ''      <enclosure url='' @ dq @ xmlEscape (absolute site u) @ dq @ '' type='' @ dq @ ''image/jpeg'' @ dq @ '' />'' @ nl
        | None \<Rightarrow> [])
     @ concat cats
     @ ''      <content:encoded><![CDATA['' @ cdata_safe (if am_published a then renderMarkdown (am_body a) else []) @ '']]></content:encoded>'' @ nl
     @ ''    </item>'') (mapR rss_category (am_tags a))"

definition rss_items :: "string \<Rightarrow> (string \<Rightarrow> string) \<Rightarrow> string \<Rightarrow> article_meta list \<Rightarrow> string result" where
  "rss_items site toUTC now as = rmap (js_join nl) (mapR (rss_item site toUTC now) as)"

text \<open>A line of the index for language models.\<close>

definition OUTDATED_POSTS :: "string \<Rightarrow> string option" where
  "OUTDATED_POSTS = map_of
     [(''lasseehlers/lassecash-went-immutable'', ''OUTDATED: the 10 October key burn was postponed; the contract is not yet immutable''),
      (''lasseehlers/lassecash-is-live-on-magi'', ''OUTDATED in part: the claim window runs until 29 March 2027, and the key burn has no date'')]"

definition em :: string where "em = [CHR '' '', CHR 0xE2, CHR 0x80, CHR 0x94, CHR '' '']"

definition llms_line :: "string \<Rightarrow> post_meta \<Rightarrow> string" where
  "llms_line site p = (let date = take 10 (pm_created_time p); handle = bareName (pm_author p) in
     ''- ['' @ first_text [pm_title p, pm_permlink p] @ ''](''  @ postUrl site (pm_author p) (pm_permlink p) @ ''.md): by @'' @ handle
     @ (if date \<noteq> [] then '', '' @ date else [])
     @ (case OUTDATED_POSTS (handle @ ''/'' @ pm_permlink p) of Some note \<Rightarrow> em @ note
        | None \<Rightarrow> if pm_summary p \<noteq> [] then em @ take 160 (replace_all (XRe (RPlus (RChr is_space))) (\<lambda>_ _. '' '') (pm_summary p)) else []))"

text \<open>The two editions of the About text.\<close>

fun find_text :: "string \<Rightarrow> string \<Rightarrow> nat option" where
  "find_text t s = (if starts_with t s then Some 0 else (case s of [] \<Rightarrow> None | c # u \<Rightarrow> map_option Suc (find_text t u)))"

definition about_edition :: "string \<Rightarrow> string \<Rightarrow> string" where
  "about_edition edition md = (let split = nl @ ''---'' @ nl @ nl @ ''## 1. '' in
     case find_text split md of
       None \<Rightarrow> md
     | Some k \<Rightarrow> if edition = ''short'' then take k md else ''# LasseCash'' @ nl @ drop (k + 5) md)"

section \<open>The market endpoints (server/market.ts)\<close>

record market_snapshot =
  ms_replay :: market_replay
  ms_ticker :: market_ticker
  ms_reconciled :: bool
  ms_contractId :: string
  ms_nowMs :: int

definition market_build :: "pool_ledger_entry list result option \<Rightarrow> (string \<Rightarrow> string option) result \<Rightarrow> string \<Rightarrow> int \<Rightarrow> market_snapshot result" where
  "market_build ledger live contractId nowMs = (case ledger of
     None \<Rightarrow> throw ''market data needs a MAGI node; the dev chain keeps no contract outputs''
   | Some l \<Rightarrow> rbind l (\<lambda>es. rbind live (\<lambda>st. let r = buildMarketTrades es in
       rbind (big_int (first_text [nullish (st ''amm_lc'') [], ''0''])) (\<lambda>a. rmap (\<lambda>b.
         \<lparr>ms_replay = r, ms_ticker = marketTicker (rp_trades r) nowMs, ms_reconciled = reconciles r a b, ms_contractId = contractId, ms_nowMs = nowMs\<rparr>)
         (big_int (first_text [nullish (st ''amm_hbd'') [], ''0'']))))))"

text \<open>The snapshot a minute old or younger, or the build in flight, or a new one; what the
  request waits for.\<close>

record market_cache =
  mc_cached :: "market_snapshot option"
  mc_inflight :: "nat option"
  mc_next :: nat

definition MARKET_TTL_MS :: int where "MARKET_TTL_MS = 60000"

definition marketSnapshot :: "int \<Rightarrow> market_cache \<Rightarrow> (market_snapshot + nat) \<times> market_cache" where
  "marketSnapshot now s = (case mc_cached s of
     Some c \<Rightarrow> if now - ms_nowMs c < MARKET_TTL_MS then (Inl c, s)
       else (case mc_inflight s of Some b \<Rightarrow> (Inr b, s) | None \<Rightarrow> (Inr (mc_next s), s\<lparr>mc_inflight := Some (mc_next s), mc_next := mc_next s + 1\<rparr>))
   | None \<Rightarrow> (case mc_inflight s of Some b \<Rightarrow> (Inr b, s) | None \<Rightarrow> (Inr (mc_next s), s\<lparr>mc_inflight := Some (mc_next s), mc_next := mc_next s + 1\<rparr>)))"

definition market_built :: "market_snapshot result \<Rightarrow> market_cache \<Rightarrow> market_cache" where
  "market_built r s = (case r of Inr c \<Rightarrow> s\<lparr>mc_cached := Some c, mc_inflight := None\<rparr> | Inl _ \<Rightarrow> s\<lparr>mc_inflight := None\<rparr>)"

definition isOurPair :: "string option \<Rightarrow> bool" where
  "isOurPair i = (case i of None \<Rightarrow> True | Some t \<Rightarrow> t = [] \<or>
     (let u = map to_upper t in (takeWhile (\<lambda>c. c \<noteq> CHR ''-'') u @ (case dropWhile (\<lambda>c. c \<noteq> CHR ''-'') u of [] \<Rightarrow> [] | _ # r \<Rightarrow> CHR ''_'' # r)) = ''LASSECASH_HBD''))"

text \<open>Seconds or milliseconds, of the whole number the text reads as.\<close>

definition asMs :: "int option \<Rightarrow> int option" where
  "asMs v = (case v of None \<Rightarrow> None | Some n \<Rightarrow> if n \<le> 0 then None else if n < 1000000000000 then Some (n * 1000) else Some n)"

text \<open>The supply, from the ledger's own count of what 'hive:null' holds once there is one.\<close>

definition supplySnapshot :: "(string \<Rightarrow> string option) result \<Rightarrow> (string \<Rightarrow> string result) option \<Rightarrow> supply_figures result" where
  "supplySnapshot raw readToken = rbind raw (\<lambda>st. rbind
     (case (st ''cfg_token'', readToken) of
        (Some t, Some rd) \<Rightarrow> if t = [] then Inr None else rmap Some (rbind (rd t) big_int)
      | _ \<Rightarrow> Inr None)
     (supplyFigures st))"

datatype route_reply = ReplyJson json | ReplyText string | ReplyStatus nat string

definition supply_route :: "string option \<Rightarrow> supply_figures \<Rightarrow> route_reply" where
  "supply_route fld s = (if fld = None \<or> fld = Some [] then ReplyJson (supplyJson s)
     else if fld = Some ''circulating'' then ReplyText (fromUnits (sf_circulating s))
     else if fld = Some ''total'' then ReplyText (fromUnits (sf_total s))
     else if fld = Some ''max'' then ReplyText (fromUnits (sf_max s))
     else ReplyStatus 404 (''unknown field '' @ the fld @ ''; use circulating, total or max''))"

section \<open>What the routes keep\<close>

text \<open>Batches bound how many bodies are asked for at once and change nothing else.\<close>

lemma listArticles_all:
  "0 < batch \<Longrightarrow> listArticles site words ps batch
    = map (\<lambda>p. toArticle site (pm_author p) (pm_permlink p) (getContent (words (pm_author p) (pm_permlink p))) (Some p)) ps"
  by (simp add: listArticles_def concat_batches flip: map_concat)

lemma mapR_fails: "x \<in> set xs \<Longrightarrow> \<not> is_ok (f x) \<Longrightarrow> \<not> is_ok (mapR f xs)"
  by (induction xs) (auto simp: is_ok_def rbind_def rmap_def split: sum.splits)

text \<open>One tag that is no text and the whole feed throws.\<close>

lemma rss_fails_on_tag:
  assumes "a \<in> set as" "t \<in> set (am_tags a)" "\<And>x. t \<noteq> JStr x"
  shows "\<exists>e. rss_items site toUTC now as = Inl e"
proof -
  have c: "\<not> is_ok (rss_category t)" using assms(3) by (cases t) (auto simp: rss_category_def is_ok_def throw_def)
  have "\<not> is_ok (rss_item site toUTC now a)"
    using mapR_fails [where f = rss_category, OF assms(2) c] by (auto simp: rss_item_def is_ok_def rmap_def split: sum.splits)
  from mapR_fails [where f = "rss_item site toUTC now", OF assms(1) this]
  show ?thesis by (auto simp: rss_items_def is_ok_def rmap_def split: sum.splits)
qed

end
