(* ===== verification/Replies.thy ===== *)
theory Replies
  imports FeedPage Engine
begin

text \<open>
  The governed parameters as the pages read them (src/web/src/lib/governance.ts) and the
  replies under a post (the script of src/web/src/lib/Comments.svelte): the order they
  are shown in, the reply box and its preflight.  The rows of the board, the replies and
  their articles are what the client's reads answered.
\<close>

section \<open>Governed values\<close>

definition dash_between :: string where "dash_between = [CHR '' '', CHR 0xE2, CHR 0x80, CHR 0x94, CHR '' '']"

datatype param_unit = InShares | InLassecash

record param_meta =
  pmt_key :: string
  pmt_label :: string
  pmt_unit :: param_unit

text \<open>The parameters shown, without the sentence each comes with.\<close>

definition governableParams :: "engine \<Rightarrow> param_meta list result" where
  "governableParams e = rmap (\<lambda>c.
     [\<lparr>pmt_key = ec_paramVolumeStart c, pmt_label = ''Bigger Pays Better'' @ dash_between @ ''start'', pmt_unit = InLassecash\<rparr>,
      \<lparr>pmt_key = ec_paramVolumeEnd c, pmt_label = ''Bigger Pays Better'' @ dash_between @ ''end'', pmt_unit = InLassecash\<rparr>,
      \<lparr>pmt_key = ec_paramPostThresholdViral c, pmt_label = ''Posting threshold'' @ dash_between @ ''viral'', pmt_unit = InShares\<rparr>,
      \<lparr>pmt_key = ec_paramPostThresholdDeep c, pmt_label = ''Posting threshold'' @ dash_between @ ''deep'', pmt_unit = InShares\<rparr>,
      \<lparr>pmt_key = ec_paramPostThresholdComment c, pmt_label = ''Comment threshold'', pmt_unit = InShares\<rparr>,
      \<lparr>pmt_key = ec_paramPromoteMinBurn c, pmt_label = ''Promotion'' @ dash_between @ ''minimum burn'', pmt_unit = InLassecash\<rparr>]) (constants e)"

record governance_view =
  gvw_rows :: "governance_member list"
  gvw_seats :: "(string \<times> string) list"
  gvw_values :: "(string \<times> effective_value) list"

definition board_row :: "string \<Rightarrow> governance_member \<Rightarrow> governance_row" where
  "board_row key r = \<lparr>gr_account = gm_account r, gr_shares = gm_shares r, gr_preference = nullish (map_of (gm_preferences r) key) None\<rparr>"

text \<open>A Map set twice at a key keeps its place and its last value; the value of a key does
  not depend on how often it is asked for.\<close>

definition readGovernance :: "engine \<Rightarrow> governance_member list result \<Rightarrow> string list \<Rightarrow> governance_view result" where
  "readGovernance e board keys = rbind board (\<lambda>rows.
     rbind (consensusGroup e (map (\<lambda>r. (gm_account r, gm_shares r)) rows)) (\<lambda>seats.
     rmap (\<lambda>vs. \<lparr>gvw_rows = rows, gvw_seats = seats, gvw_values = vs\<rparr>)
       (mapR (\<lambda>k. rmap (\<lambda>v. (k, v)) (effectiveValue e k (map (board_row k) rows))) (dedupe keys))))"

definition readGovernedValue :: "engine \<Rightarrow> governance_member list result \<Rightarrow> string \<Rightarrow> effective_value option" where
  "readGovernedValue e board key = (case readGovernance e board [key] of
     Inl _ \<Rightarrow> None
   | Inr g \<Rightarrow> (case map_of (gvw_values g) key of Some v \<Rightarrow> if ev_ok v then Some v else None | None \<Rightarrow> None))"

section \<open>The replies in order\<close>

record shown_reply =
  ry_view :: post_view
  ry_body :: string

definition reply_key :: "shown_reply \<Rightarrow> string" where
  "reply_key r = pv_author (ry_view r) @ ''/'' @ pv_permlink (ry_view r)"

definition answered_key :: "shown_reply \<Rightarrow> string" where
  "answered_key r = pv_parent_author (ry_view r) @ ''/'' @ pv_parent_permlink (ry_view r)"

definition is_bot :: "shown_reply \<Rightarrow> bool" where
  "is_bot r = (pv_bot_commands (ry_view r) = Some True)"

definition botCount :: "shown_reply list \<Rightarrow> nat" where
  "botCount rs = length (filter is_bot rs)"

definition heard_replies :: "bool \<Rightarrow> shown_reply list \<Rightarrow> shown_reply list" where
  "heard_replies showBots rs = (if showBots then rs else filter (\<lambda>r. \<not> is_bot r) rs)"

text \<open>A reply stands under another when its parent is in the list and is not the post.\<close>

definition under :: "string \<Rightarrow> shown_reply list \<Rightarrow> shown_reply \<Rightarrow> bool" where
  "under root xs r = (answered_key r \<noteq> root \<and> answered_key r \<in> set (map reply_key xs))"

definition children_of :: "string \<Rightarrow> shown_reply list \<Rightarrow> string \<Rightarrow> shown_reply list" where
  "children_of root xs k = filter (\<lambda>r. under root xs r \<and> answered_key r = k) xs"

definition earns_more :: "shown_reply \<Rightarrow> shown_reply \<Rightarrow> bool" where
  "earns_more a b = (let x = ry_view a; y = ry_view b in
     if pv_registered x \<noteq> pv_registered y then pv_registered x
     else if money (pv_pending_payout x) \<noteq> money (pv_pending_payout y) then money (pv_pending_payout x) > money (pv_pending_payout y)
     else pv_created_height x < pv_created_height y)"

definition spoke_first :: "shown_reply \<Rightarrow> shown_reply \<Rightarrow> bool" where
  "spoke_first a b = str_less (pv_created_time (ry_view a)) (pv_created_time (ry_view b))"

definition roots_of :: "string \<Rightarrow> shown_reply list \<Rightarrow> shown_reply list" where
  "roots_of root xs = js_sort earns_more (filter (\<lambda>r. \<not> under root xs r) xs)"

definition kids :: "string \<Rightarrow> shown_reply list \<Rightarrow> shown_reply \<Rightarrow> shown_reply list" where
  "kids root xs r = js_sort spoke_first (children_of root xs (reply_key r))"

text \<open>'walk', as deep as there are replies: no thread is deeper.\<close>

fun walk_thread :: "nat \<Rightarrow> string \<Rightarrow> shown_reply list \<Rightarrow> nat \<Rightarrow> shown_reply \<Rightarrow> (shown_reply \<times> nat) list" where
  "walk_thread 0 root xs depth r = []"
| "walk_thread (Suc n) root xs depth r = (r, depth) # concat (map (walk_thread n root xs (depth + 1)) (kids root xs r))"

definition ranked_replies :: "bool \<Rightarrow> string \<Rightarrow> shown_reply list \<Rightarrow> (shown_reply \<times> nat) list" where
  "ranked_replies showBots root rs = (let xs = heard_replies showBots rs in
     concat (map (walk_thread (length xs) root xs 0) (roots_of root xs)))"

section \<open>The reply box\<close>

record reply_box =
  rb_post :: "string \<times> string"
  rb_replies :: "shown_reply list"
  rb_loading :: bool
  rb_error :: "string option"
  rb_draft :: string
  rb_replyTo :: "(string \<times> string) option"
  rb_previewing :: bool
  rb_posting :: bool
  rb_threshold :: "amount option"

definition reply_clears :: "amount option \<Rightarrow> reply_box \<Rightarrow> bool option" where
  "reply_clears shares b = (case (shares, rb_threshold b) of
     (Some sh, Some t) \<Rightarrow> (case compare_amounts sh t of Inr c \<Rightarrow> Some (c \<ge> 0) | Inl _ \<Rightarrow> None)
   | _ \<Rightarrow> None)"

definition replyToComment :: "string \<Rightarrow> string \<Rightarrow> reply_box \<Rightarrow> reply_box" where
  "replyToComment author permlink b = b\<lparr>rb_replyTo := Some (author, permlink)\<rparr>"

definition reply_of :: "(string \<Rightarrow> string \<Rightarrow> content option result) \<Rightarrow> post_view \<Rightarrow> shown_reply" where
  "reply_of words v = (let c = or_default None (words (pv_author v) (pv_permlink v)); body = (case c of None \<Rightarrow> [] | Some x \<Rightarrow> ct_body x) in
     \<lparr>ry_view = v, ry_body = (if body \<noteq> [] then body else pv_body_excerpt v)\<rparr>)"

definition replies_loaded :: "(string \<Rightarrow> string \<Rightarrow> content option result) \<Rightarrow> post_view list result \<Rightarrow> reply_box \<Rightarrow> reply_box" where
  "replies_loaded words r b = (case r of
     Inr vs \<Rightarrow> b\<lparr>rb_replies := map (reply_of words) vs, rb_error := None, rb_loading := False\<rparr>
   | Inl (JsError m) \<Rightarrow> b\<lparr>rb_error := Some m, rb_loading := False\<rparr>)"

definition threshold_read :: "effective_value option \<Rightarrow> reply_box \<Rightarrow> reply_box" where
  "threshold_read v b = b\<lparr>rb_threshold := map_option ev_value v\<rparr>"

text \<open>What the press sends: body, parent author, parent permlink.\<close>

definition reply_call :: "reply_box \<Rightarrow> (string \<times> string \<times> string) option" where
  "reply_call b = (let body = js_trim (rb_draft b) in
     if body = [] then None else Some (body, nullish (rb_replyTo b) (rb_post b)))"

definition start_reply :: "reply_box \<Rightarrow> reply_box" where
  "start_reply b = (if reply_call b = None then b else b\<lparr>rb_error := None, rb_posting := True\<rparr>)"

definition reply_done :: "publish_result result \<Rightarrow> string option \<Rightarrow> reply_box \<Rightarrow> reply_box" where
  "reply_done r refusal b = (case r of
     Inl (JsError m) \<Rightarrow> b\<lparr>rb_error := Some m, rb_posting := False\<rparr>
   | Inr res \<Rightarrow>
       if \<not> pr_ok res then b\<lparr>rb_error := Some (pr_msg res), rb_posting := False\<rparr>
       else if nullish (pr_txId res) [] \<noteq> [] \<and> nullish refusal [] \<noteq> [] then b\<lparr>rb_error := refusal, rb_posting := False\<rparr>
       else b\<lparr>rb_draft := [], rb_replyTo := None, rb_previewing := False, rb_posting := False\<rparr>)"

section \<open>Every reply once, at its depth\<close>

text \<open>The depth of a reply in its conversation.\<close>

definition thread_depth :: "string \<Rightarrow> shown_reply list \<Rightarrow> (shown_reply \<Rightarrow> nat) \<Rightarrow> bool" where
  "thread_depth root xs dep = (\<forall>r \<in> set xs. if under root xs r
     then \<exists>p \<in> set xs. reply_key p = answered_key r \<and> dep r = Suc (dep p) else dep r = 0)"

lemma mset_kids: "mset (kids root xs r) = mset (children_of root xs (reply_key r))"
  by (simp add: kids_def)

lemma distinct_keys_inj:
  "distinct (map reply_key xs) \<Longrightarrow> p \<in> set xs \<Longrightarrow> q \<in> set xs \<Longrightarrow> reply_key p = reply_key q \<Longrightarrow> p = q"
  by (auto simp: distinct_map dest: inj_onD)

lemma set_kids: "x \<in> set (kids root xs r) \<longleftrightarrow> x \<in> set xs \<and> under root xs x \<and> answered_key x = reply_key r"
  using arg_cong [OF mset_kids [of root xs r], of set_mset] by (auto simp: children_of_def)

lemma distinct_kids: "distinct xs \<Longrightarrow> distinct (kids root xs r)"
  by (metis mset_kids children_of_def distinct_filter mset_eq_imp_distinct_iff)

lemma mset_filter_split:
  "(\<And>x. P x \<Longrightarrow> \<not> Q x) \<Longrightarrow> mset (filter (\<lambda>x. P x \<or> Q x) xs) = mset (filter P xs) + mset (filter Q xs)"
  by (induction xs) auto

lemma kids_of_many:
  assumes "distinct (map reply_key rs)"
  shows "mset (concat (map (kids root xs) rs)) = mset (filter (\<lambda>x. under root xs x \<and> answered_key x \<in> reply_key ` set rs) xs)"
  using assms
proof (induction rs)
  case (Cons r rs)
  let ?P = "\<lambda>x. under root xs x \<and> answered_key x = reply_key r"
  let ?Q = "\<lambda>x. under root xs x \<and> answered_key x \<in> reply_key ` set rs"
  have "mset (filter (\<lambda>x. ?P x \<or> ?Q x) xs) = mset (filter ?P xs) + mset (filter ?Q xs)"
    by (rule mset_filter_split) (use Cons.prems in auto)
  moreover have "(\<lambda>x. under root xs x \<and> answered_key x \<in> reply_key ` set (r # rs)) = (\<lambda>x. ?P x \<or> ?Q x)" by auto
  ultimately show ?case using Cons by (simp add: mset_kids children_of_def)
qed simp

text \<open>The replies to all those of one depth are those of the next.\<close>

lemma next_level:
  assumes d: "distinct (map reply_key xs)" and dep: "thread_depth root xs dep"
    and rs: "mset rs = mset (filter (\<lambda>x. dep x = n) xs)"
  shows "mset (concat (map (kids root xs) rs)) = mset (filter (\<lambda>x. dep x = Suc n) xs)"
proof -
  have srs: "set rs = {x \<in> set xs. dep x = n}" using mset_eq_setD [OF rs] by simp
  have "mset (map reply_key rs) = mset (map reply_key (filter (\<lambda>x. dep x = n) xs))" using rs by simp
  then have drs: "distinct (map reply_key rs)"
    using mset_eq_imp_distinct_iff distinct_map_filter [OF d] by blast
  have "(under root xs x \<and> answered_key x \<in> reply_key ` set rs) \<longleftrightarrow> dep x = Suc n" if x: "x \<in> set xs" for x
  proof (cases "under root xs x")
    case True
    then obtain p where p: "p \<in> set xs" "reply_key p = answered_key x" "dep x = Suc (dep p)"
      using dep x unfolding thread_depth_def by fastforce
    have "answered_key x \<in> reply_key ` set rs \<longleftrightarrow> dep p = n"
      using p distinct_keys_inj [OF d] unfolding srs by (auto simp: image_iff) metis
    then show ?thesis using True p(3) by simp
  next
    case False
    then show ?thesis using dep x unfolding thread_depth_def by fastforce
  qed
  then have "filter (\<lambda>x. under root xs x \<and> answered_key x \<in> reply_key ` set rs) xs = filter (\<lambda>x. dep x = Suc n) xs"
    by (intro filter_cong) auto
  then show ?thesis by (simp add: kids_of_many [OF drs])
qed

lemma mset_concat_map_split:
  "mset (concat (map (\<lambda>r. f r # g r) rs)) = mset (map f rs) + mset (concat (map g rs))"
  by (induction rs) auto

lemma walk_levels:
  assumes d: "distinct (map reply_key xs)" and dep: "thread_depth root xs dep"
  shows "mset rs = mset (filter (\<lambda>x. dep x = n) xs) \<Longrightarrow>
    mset (concat (map (walk_thread m root xs n) rs)) = mset (map (\<lambda>x. (x, dep x)) (filter (\<lambda>x. n \<le> dep x \<and> dep x < n + m) xs))"
proof (induction m arbitrary: n rs)
  case 0
  then show ?case by (induction rs) auto
next
  case (Suc m)
  let ?next = "concat (map (kids root xs) rs)"
  have flat: "concat (map (\<lambda>r. concat (map (walk_thread m root xs (Suc n)) (kids root xs r))) rs) = concat (map (walk_thread m root xs (Suc n)) ?next)"
    by (induction rs) auto
  have "mset (concat (map (walk_thread (Suc m) root xs n) rs))
      = mset (map (\<lambda>r. (r, n)) rs) + mset (concat (map (walk_thread m root xs (Suc n)) ?next))"
  proof -
    have "map (walk_thread (Suc m) root xs n) rs = map (\<lambda>r. (r, n) # concat (map (walk_thread m root xs (Suc n)) (kids root xs r))) rs" by simp
    then show ?thesis by (simp only: mset_concat_map_split flat)
  qed
  also have "mset (concat (map (walk_thread m root xs (Suc n)) ?next))
      = mset (map (\<lambda>x. (x, dep x)) (filter (\<lambda>x. Suc n \<le> dep x \<and> dep x < Suc n + m) xs))"
    by (rule Suc.IH) (rule next_level [OF d dep Suc.prems])
  also have "mset (map (\<lambda>r. (r, n)) rs) = mset (map (\<lambda>x. (x, dep x)) (filter (\<lambda>x. dep x = n) xs))"
  proof -
    have "mset (map (\<lambda>r. (r, n)) rs) = mset (map (\<lambda>r. (r, n)) (filter (\<lambda>x. dep x = n) xs))" using Suc.prems by simp
    also have "map (\<lambda>r. (r, n)) (filter (\<lambda>x. dep x = n) xs) = map (\<lambda>x. (x, dep x)) (filter (\<lambda>x. dep x = n) xs)" by simp
    finally show ?thesis .
  qed
  also have "\<dots> + mset (map (\<lambda>x. (x, dep x)) (filter (\<lambda>x. Suc n \<le> dep x \<and> dep x < Suc n + m) xs))
      = mset (map (\<lambda>x. (x, dep x)) (filter (\<lambda>x. dep x = n \<or> (Suc n \<le> dep x \<and> dep x < Suc n + m)) xs))"
    by (induction xs) auto
  also have "(\<lambda>x. dep x = n \<or> (Suc n \<le> dep x \<and> dep x < Suc n + m)) = (\<lambda>x. n \<le> dep x \<and> dep x < n + Suc m)" by auto
  finally show ?case .
qed

lemma depth_parent:
  assumes "thread_depth root xs dep" "x \<in> set xs" "dep x = Suc n"
  obtains p where "p \<in> set xs" "dep p = n"
  using bspec [OF assms(1) [unfolded thread_depth_def] assms(2)] assms(3) by (auto split: if_splits)

lemma depth_reached:
  assumes dep: "thread_depth root xs dep"
  shows "x \<in> set xs \<Longrightarrow> j \<le> dep x \<Longrightarrow> j \<in> dep ` set xs"
proof (induction "dep x" arbitrary: x)
  case (Suc n)
  show ?case
  proof (cases "j = dep x")
    case False
    obtain p where "p \<in> set xs" "dep p = n" by (rule depth_parent [OF dep Suc.prems(1) Suc.hyps(2) [symmetric]])
    then show ?thesis using Suc.hyps(1) [of p] Suc.hyps(2) Suc.prems(2) False by simp
  qed (use Suc.prems in simp)
qed simp

lemma depth_bound:
  assumes dep: "thread_depth root xs dep" and x: "x \<in> set xs"
  shows "dep x < length xs"
proof -
  have "{0..dep x} \<subseteq> dep ` set xs" using depth_reached [OF dep x] by auto
  then have "card {0..dep x} \<le> card (dep ` set xs)" by (intro card_mono) auto
  also have "\<dots> \<le> card (set xs)" by (rule card_image_le) simp
  also have "\<dots> \<le> length xs" by (rule card_length)
  finally show ?thesis by simp
qed

text \<open>C1: the comments show every reply they keep exactly once, at its depth in the
  conversation, however the replies arrive and whatever they earn.\<close>

theorem replies_shown_once:
  assumes "xs = heard_replies showBots rs" "distinct (map reply_key xs)" "thread_depth root xs dep"
  shows "mset (ranked_replies showBots root rs) = mset (map (\<lambda>r. (r, dep r)) xs)"
proof -
  have "mset (roots_of root xs) = mset (filter (\<lambda>x. dep x = 0) xs)"
  proof -
    have "filter (\<lambda>r. \<not> under root xs r) xs = filter (\<lambda>x. dep x = 0) xs"
      using assms(3) unfolding thread_depth_def by (intro filter_cong) (auto split: if_splits)
    then show ?thesis by (simp add: roots_of_def)
  qed
  from walk_levels [OF assms(2,3) this, of "length xs"]
  have "mset (ranked_replies showBots root rs) = mset (map (\<lambda>x. (x, dep x)) (filter (\<lambda>x. dep x < length xs) xs))"
    by (simp add: ranked_replies_def Let_def flip: assms(1))
  also have "filter (\<lambda>x. dep x < length xs) xs = xs" using depth_bound [OF assms(3)] by (simp add: filter_True)
  finally show ?thesis .
qed

text \<open>A reply, the reply to it, and the two of them shown.\<close>

definition said :: "string \<Rightarrow> string \<Rightarrow> shown_reply" where
  "said l parent = \<lparr>ry_view = (sample_view l Viral 0 0)\<lparr>pv_parent_author := ''a'', pv_parent_permlink := parent\<rparr>, ry_body = ''yes''\<rparr>"

lemma said_keys: "reply_key (said l parent) = ''a/'' @ l" "answered_key (said l parent) = ''a/'' @ parent" "is_bot (said l parent) = False"
  by (simp_all add: said_def reply_key_def answered_key_def is_bot_def sample_view_def)

lemma replies_shown_once_witness:
  "\<exists>dep. thread_depth ''a/post'' [said ''a'' ''post'', said ''b'' ''a''] dep \<and>
     mset (ranked_replies False ''a/post'' [said ''a'' ''post'', said ''b'' ''a'']) = {#(said ''a'' ''post'', 0), (said ''b'' ''a'', 1)#}"
proof (intro exI conjI)
  let ?dep = "\<lambda>r. if reply_key r = ''a/b'' then 1 else 0 :: nat"
  show d: "thread_depth ''a/post'' [said ''a'' ''post'', said ''b'' ''a''] ?dep"
    by (simp add: thread_depth_def under_def said_keys)
  show "mset (ranked_replies False ''a/post'' [said ''a'' ''post'', said ''b'' ''a'']) = {#(said ''a'' ''post'', 0), (said ''b'' ''a'', 1)#}"
    using replies_shown_once [OF _ _ d, of False "[said ''a'' ''post'', said ''b'' ''a'']"] by (simp add: heard_replies_def said_keys)
qed

end
