(* ===== verification/Panels.thy ===== *)
theory Panels
  imports Replies Session
begin

text \<open>
  Three forms of the site: the migration claim (src/web/src/lib/ClaimMigration.svelte),
  the mint form (lib/MintForm.svelte) and promotion (lib/PromoteForm.svelte).  Each is the
  record of its script's variables; what it would send is the value of a definition, and
  what the chain, the site's files and the engine answer are arguments.
\<close>

section \<open>The migration claim\<close>

record leaf =
  lf_liquid :: string
  lf_staked :: string
  lf_burned :: bool
  lf_path :: "string list"

text \<open>'cl_loads' is the accounts whose reading is under way and 'cl_leafOf' the one the
  leaf was read for; the program keeps neither.\<close>

record claim_panel =
  cl_account :: "string option"
  cl_leaf :: "leaf option"
  cl_error :: "string option"
  cl_rootMismatch :: bool
  cl_loads :: "string list"
  cl_leafOf :: "string option"

definition shut_panel :: claim_panel where
  "shut_panel = \<lparr>cl_account = None, cl_leaf = None, cl_error = None, cl_rootMismatch = False, cl_loads = [], cl_leafOf = None\<rparr>"

definition claim_shard :: "string \<Rightarrow> string" where
  "claim_shard name = shard_char ALNUM name 0 @ shard_char (ALNUM @ ''.-'') name 1"

datatype claim_answer = NothingToClaim | WrongSnapshot | Row "leaf option" | ClaimError string

text \<open>The root the chain holds, the receipt, the root file the site serves ('None' where it
  could not be read) and the rows of the account's shard, in the order they are read.\<close>

definition claim_reads :: "string option result \<Rightarrow> migration_record option result \<Rightarrow> string option option \<Rightarrow> (string \<Rightarrow> leaf option) \<Rightarrow> string \<Rightarrow> claim_answer" where
  "claim_reads held receipt servedRoot rows acct = (case held of
     Inl e \<Rightarrow> ClaimError (message_of e)
   | Inr None \<Rightarrow> NothingToClaim
   | Inr (Some rt) \<Rightarrow> if rt = [] then NothingToClaim else (case receipt of
       Inl e \<Rightarrow> ClaimError (message_of e)
     | Inr (Some _) \<Rightarrow> NothingToClaim
     | Inr None \<Rightarrow> (case servedRoot of
         None \<Rightarrow> NothingToClaim
       | Some p \<Rightarrow> if p \<noteq> Some rt then WrongSnapshot else Row (rows acct))))"

definition load_claim :: "string option \<Rightarrow> claim_panel \<Rightarrow> claim_panel" where
  "load_claim a s = (let s1 = s\<lparr>cl_account := a, cl_leaf := None, cl_leafOf := None, cl_error := None, cl_rootMismatch := False\<rparr> in
     case a of None \<Rightarrow> s1 | Some n \<Rightarrow> if n = [] then s1 else s1\<lparr>cl_loads := n # cl_loads s\<rparr>)"

definition claim_read :: "string \<Rightarrow> claim_answer \<Rightarrow> claim_panel \<Rightarrow> claim_panel" where
  "claim_read n r s = (let s1 = s\<lparr>cl_loads := remove1 n (cl_loads s)\<rparr> in
     case r of NothingToClaim \<Rightarrow> s1
     | WrongSnapshot \<Rightarrow> s1\<lparr>cl_rootMismatch := True\<rparr>
     | Row l \<Rightarrow> s1\<lparr>cl_leaf := l, cl_leafOf := (if l = None then None else Some n)\<rparr>
     | ClaimError m \<Rightarrow> s1\<lparr>cl_error := Some m\<rparr>)"

text \<open>The position as a mint, closed at this height; a genesis height not known reads as 0.\<close>

definition claim_preview :: "engine \<Rightarrow> chain_info option \<Rightarrow> claim_panel \<Rightarrow> mint_preview option result" where
  "claim_preview e info s = (case (info, cl_leaf s) of
     (Some i, Some l) \<Rightarrow> if \<not> engineReady e \<or> lf_burned l then Inr None
       else rbind (big_int (lf_staked l)) (\<lambda>u. rbind (constants e) (\<lambda>c. let pr = fromUnits u in
         rmap Some (previewMintClose e \<lparr>ml_principal = pr, ml_shares = pr, ml_start_height = nullish (ci_genesis_height i) 0,
           ml_days = ec_migrationMintDays c, ml_good_accounting = False\<rparr> (ci_height i) ''0'')))
   | _ \<Rightarrow> Inr None)"

definition passed :: "int \<Rightarrow> int option \<Rightarrow> bool" where
  "passed ht due = (case due of None \<Rightarrow> False | Some h \<Rightarrow> h \<le> ht)"

definition claim_matured :: "int \<Rightarrow> mint_preview option \<Rightarrow> bool" where
  "claim_matured ht p = (case p of None \<Rightarrow> False | Some m \<Rightarrow> passed ht (mp_maturityHeight m))"

definition claim_closed :: "int \<Rightarrow> mint_preview option \<Rightarrow> bool" where
  "claim_closed ht p = (case p of None \<Rightarrow> False | Some m \<Rightarrow> passed ht (mp_liquidationHeight m))"

text \<open>What the press sends: the leaf as it is, and whether the cheap limit is enough.\<close>

definition claim_call :: "bool \<Rightarrow> claim_panel \<Rightarrow> (string \<times> string \<times> string list \<times> bool) option" where
  "claim_call matured s = map_option (\<lambda>l. (lf_liquid l, lf_staked l, lf_path l, lf_staked l = ''0'' \<or> matured)) (cl_leaf s)"

definition claimed :: "string option \<Rightarrow> claim_panel \<Rightarrow> claim_panel" where
  "claimed refusal s = (let s1 = s\<lparr>cl_error := refusal\<rparr> in if nullish refusal [] = [] then s1\<lparr>cl_leaf := None, cl_leafOf := None\<rparr> else s1)"

inductive claim_step :: "bool \<Rightarrow> claim_panel \<Rightarrow> claim_panel \<Rightarrow> bool" for one where
  account: "\<not> one \<or> cl_loads s = [] \<Longrightarrow> claim_step one s (load_claim a s)"
| read: "n \<in> set (cl_loads s) \<Longrightarrow> claim_step one s (claim_read n r s)"
| press: "claim_step one s (claimed refusal s)"

definition own_leaf :: "claim_panel \<Rightarrow> bool" where
  "own_leaf s = ((cl_leaf s = None \<or> cl_leafOf s = cl_account s) \<and> (cl_loads s = [] \<or> (\<exists>n. cl_loads s = [n] \<and> cl_account s = Some n)))"

lemma claim_step_own: "claim_step True s t \<Longrightarrow> own_leaf s \<Longrightarrow> own_leaf t"
  by (induction rule: claim_step.induct)
    (auto simp: own_leaf_def load_claim_def claim_read_def claimed_def Let_def split: option.splits claim_answer.splits)

text \<open>While an account's reading ends before the next one starts, the leaf on screen, and so
  the claim the button sends, is the signed-in account's own.\<close>

lemma leaf_is_own:
  assumes "(claim_step True)\<^sup>*\<^sup>* shut_panel s" "cl_leaf s = Some l"
  shows "cl_leafOf s = cl_account s"
proof -
  have "own_leaf s" using assms(1)
    by (induction rule: rtranclp_induct) (auto simp: claim_step_own, simp add: own_leaf_def shut_panel_def)
  then show ?thesis using assms(2) by (simp add: own_leaf_def)
qed

text \<open>C1: nothing drops the answer for an account that is no longer signed in: after a change
  of account the panel can show, and its button send, another account's leaf.\<close>

theorem leaf_of_other_account:
  "\<exists>s (l :: leaf). (claim_step False)\<^sup>*\<^sup>* shut_panel s \<and> cl_account s = Some ''hive:b'' \<and> cl_leafOf s = Some ''hive:a''
    \<and> claim_call False s = Some (lf_liquid l, lf_staked l, lf_path l, lf_staked l = ''0'')"
proof -
  let ?l = "\<lparr>lf_liquid = ''5'', lf_staked = ''0'', lf_burned = False, lf_path = []\<rparr>"
  let ?t = "load_claim (Some ''hive:b'') (load_claim (Some ''hive:a'') shut_panel)"
  let ?s = "claim_read ''hive:a'' (Row (Some ?l)) ?t"
  have "claim_step False shut_panel (load_claim (Some ''hive:a'') shut_panel)" by (rule claim_step.account) simp
  moreover have "claim_step False (load_claim (Some ''hive:a'') shut_panel) ?t" by (rule claim_step.account) simp
  moreover have "claim_step False ?t ?s" by (rule claim_step.read) (simp add: load_claim_def shut_panel_def)
  ultimately have "(claim_step False)\<^sup>*\<^sup>* shut_panel ?s" by (meson converse_rtranclp_into_rtranclp r_into_rtranclp)
  moreover have "cl_account ?s = Some ''hive:b''" "cl_leafOf ?s = Some ''hive:a''"
    "claim_call False ?s = Some (lf_liquid ?l, lf_staked ?l, lf_path ?l, lf_staked ?l = ''0'')"
    by (simp_all add: claim_read_def load_claim_def shut_panel_def claim_call_def Let_def)
  ultimately show ?thesis by blast
qed

section \<open>The mint form\<close>

record mint_form =
  mf_amount :: string
  mf_days :: int
  mf_error :: "string option"
  mf_confirming :: bool
  mf_volumeStart :: string
  mf_volumeEnd :: string
  mf_shareRate :: string

definition fresh_mint :: mint_form where
  "fresh_mint = \<lparr>mf_amount = ''10000'', mf_days = 1095, mf_error = None, mf_confirming = False, mf_volumeStart = ''1000'',
     mf_volumeEnd = ''50000'', mf_shareRate = ''1.00000000''\<rparr>"

text \<open>The effect's two answers: the chain's rate and the thresholds in force.\<close>

definition rate_read :: "mint_quote \<Rightarrow> mint_form \<Rightarrow> mint_form" where
  "rate_read q s = s\<lparr>mf_shareRate := mq_share_rate q\<rparr>"

definition volumes_read :: "effective_value option \<Rightarrow> effective_value option \<Rightarrow> mint_form \<Rightarrow> mint_form" where
  "volumes_read vs ve s = (let s1 = (case vs of Some v \<Rightarrow> if ev_ok v then s\<lparr>mf_volumeStart := ev_value v\<rparr> else s | None \<Rightarrow> s) in
     case ve of Some v \<Rightarrow> if ev_ok v then s1\<lparr>mf_volumeEnd := ev_value v\<rparr> else s1 | None \<Rightarrow> s1)"

definition amount_typed :: "string \<Rightarrow> string" where
  "amount_typed a = (if a = [] then ''0'' else a)"

definition form_preview :: "engine \<Rightarrow> mint_form \<Rightarrow> mint_estimate option" where
  "form_preview e s = (if \<not> engineReady e then None else
     case rbind (toBaseUnitArg (amount_typed (mf_amount s))) (\<lambda>p. rbind (toBaseUnitArg (mf_shareRate s)) (\<lambda>r.
       rbind (toBaseUnitArg (mf_volumeStart s)) (\<lambda>vs. rbind (toBaseUnitArg (mf_volumeEnd s)) (mintQuote e p (mf_days s) r vs)))) of
       Inr q \<Rightarrow> Some q | Inl _ \<Rightarrow> None)"

definition safeUnits :: "string \<Rightarrow> int" where
  "safeUnits a = or_default 0 (toUnits a)"

definition preview_ok :: "engine \<Rightarrow> mint_form \<Rightarrow> bool" where
  "preview_ok e s = (case form_preview e s of Some q \<Rightarrow> me_ok q | None \<Rightarrow> False)"

text \<open>'bal' is the balance the store last read.\<close>

definition overBalance :: "engine \<Rightarrow> int \<Rightarrow> mint_form \<Rightarrow> bool" where
  "overBalance e bal s = (preview_ok e s \<and> safeUnits (mf_amount s) > bal)"

definition needsLassecash :: "engine \<Rightarrow> bool \<Rightarrow> int \<Rightarrow> mint_form \<Rightarrow> bool" where
  "needsLassecash e signed_in bal s = (signed_in \<and> (overBalance e bal s \<or> bal = 0))"

definition canSubmit :: "engine \<Rightarrow> bool \<Rightarrow> bool \<Rightarrow> int \<Rightarrow> mint_form \<Rightarrow> bool" where
  "canSubmit e signed_in busy bal s = (signed_in \<and> preview_ok e s \<and> \<not> overBalance e bal s \<and> \<not> busy \<and> \<not> mf_confirming s)"

definition driftsMaterially :: "string \<Rightarrow> string \<Rightarrow> bool result" where
  "driftsMaterially previewed actual = rbind (toUnits previewed) (\<lambda>a. rmap (\<lambda>b.
     let diff = (if a > b then a - b else b - a) in diff * 1000 > a) (toUnits actual))"

text \<open>What a new mint of the previewed shares would earn in a day.\<close>

definition perDay :: "engine \<Rightarrow> chain_info \<Rightarrow> mint_form \<Rightarrow> string option" where
  "perDay e i s = (case form_preview e s of None \<Rightarrow> None | Some q \<Rightarrow> if \<not> me_ok q then None else
     (case rbind (dailyRewards e (nullish (ci_genesis_height i) 0) (ci_height i)) (\<lambda>d. rbind (toBaseUnitArg (me_shares q)) (\<lambda>mine.
        rbind (toBaseUnitArg (ci_total_shares i)) (\<lambda>tot. rbind (big_int tot) (\<lambda>t. rbind (big_int mine) (\<lambda>m.
          if t + m \<le> 0 then Inr None
          else rbind (toBaseUnitArg (rd_lshare d)) (\<lambda>dl. rmap Some (estimateRewardShare e dl mine (show_int (t + m))))))))) of
        Inr v \<Rightarrow> v | Inl _ \<Rightarrow> None))"

definition start_mint :: "mint_form \<Rightarrow> mint_form" where
  "start_mint s = s\<lparr>mf_error := None, mf_confirming := True\<rparr>"

text \<open>The chain's own quote decides: refused, moved, or signed.  The second component is the
  call; an exception ends the press, and with it the confirming flag, and nothing more.\<close>

definition mint_confirm :: "engine \<Rightarrow> mint_quote result \<Rightarrow> mint_form \<Rightarrow> (unit result \<times> (string \<times> int) option) \<times> mint_form" where
  "mint_confirm e chainQuote s = (case chainQuote of
     Inl x \<Rightarrow> ((Inl x, None), s\<lparr>mf_confirming := False\<rparr>)
   | Inr q \<Rightarrow> if \<not> mq_ok q then ((Inr (), None), s\<lparr>mf_error := Some (mq_msg q), mf_confirming := False\<rparr>)
       else (case (case form_preview e s of None \<Rightarrow> Inr False | Some p \<Rightarrow> driftsMaterially (me_shares p) (mq_shares q)) of
           Inl x \<Rightarrow> ((Inl x, None), s\<lparr>mf_confirming := False\<rparr>)
         | Inr True \<Rightarrow> ((Inr (), None), s\<lparr>mf_error := Some (''Rate moved'' @ dash_between @ ''you would now receive '' @ mq_shares q
             @ '' L-Shares. Submit again to accept.''), mf_shareRate := mq_share_rate q, mf_confirming := False\<rparr>)
         | Inr False \<Rightarrow> ((Inr (), Some (mf_amount s, mf_days s)), s)))"

definition mint_done :: "string option \<Rightarrow> mint_form \<Rightarrow> mint_form" where
  "mint_done failure s = (let s1 = s\<lparr>mf_confirming := False\<rparr> in if nullish failure [] \<noteq> [] then s1\<lparr>mf_error := failure\<rparr> else s1)"


text \<open>A form an engine prices at a thousand units, a chain that quotes one unit less.\<close>

definition flat_engine :: engine where
  "flat_engine = Some (still_bridge\<lparr>b_mintQuote := (\<lambda>_ _ _ _ _. \<lparr>rq_ok = True, rq_shares = show_int 1000,
     rq_durationMultiplier = show_int 1, rq_volumeMultiplier = show_int 1, rq_combinedMultiplier = show_int 1\<rparr>)\<rparr>)"

definition typed_mint :: mint_form where
  "typed_mint = fresh_mint\<lparr>mf_amount := fromUnits 5, mf_volumeStart := fromUnits 1, mf_volumeEnd := fromUnits 2, mf_shareRate := fromUnits 3\<rparr>"

definition chain_answer :: mint_quote where
  "chain_answer = \<lparr>mq_principal = [], mq_days = 1095, mq_shares = fromUnits 999, mq_share_rate = [], mq_duration_multiplier = [],
     mq_volume_multiplier = [], mq_combined_multiplier = [], mq_maturity_height = 0, mq_maturity_time = [], mq_ok = True, mq_msg = []\<rparr>"

lemma fromUnits_not_empty: "fromUnits u \<noteq> []"
  using toUnits_fromUnits [of u] by (auto simp: toUnits_def amount_re_def decimal_re_def strip_minus_def js_trim_def throw_def)

lemma typed_preview:
  "form_preview flat_engine typed_mint = Some \<lparr>me_ok = True, me_shares = fromUnits 1000, me_durationMultiplier = fromUnits 1,
     me_volumeMultiplier = fromUnits 1, me_combinedMultiplier = fromUnits 1\<rparr>"
  by (simp add: form_preview_def engineReady_def flat_engine_def typed_mint_def amount_typed_def fromUnits_not_empty toBaseUnitArg_def
    toUnits_fromUnits mintQuote_def must_def Let_def)


text \<open>A quote that cannot be read ends the press without a word.\<close>

lemma unread_quote_is_silent:
  "snd (mint_confirm e (Inl x) (start_mint s)) = (start_mint s)\<lparr>mf_confirming := False\<rparr> \<and> mf_error (snd (mint_confirm e (Inl x) (start_mint s))) = None"
  by (simp add: mint_confirm_def start_mint_def)

section \<open>Promotion\<close>

record promote_form =
  pf_open :: bool
  pf_confirming :: bool
  pf_amount :: string
  pf_minBurn :: "string option"
  pf_error :: "string option"

definition cutoffHeight :: "engine \<Rightarrow> post_view \<Rightarrow> int result" where
  "cutoffHeight e p = (if \<not> engineReady e then Inr 0 else rbind (constants e) (\<lambda>c.
     rmap (\<lambda>h. pv_created_height p + (if pv_window p = Deep then ec_deepPayoutDays c else ec_viralPayoutDays c) * h * ec_promoteCutoffPct c div 100)
       (big_int (ec_heightsPerDay c))))"

definition openForPromotion :: "engine \<Rightarrow> int \<Rightarrow> post_view \<Rightarrow> bool" where
  "openForPromotion e ht p = (engineReady e \<and> \<not> pv_paid_out p \<and> pv_parent_permlink p = [] \<and>
     (case cutoffHeight e p of Inr h \<Rightarrow> ht < h | Inl _ \<Rightarrow> False))"

definition burn_enough :: "promote_form \<Rightarrow> bool result" where
  "burn_enough s = (case pf_minBurn s of None \<Rightarrow> Inr False
   | Some m \<Rightarrow> rbind (isPositive (amount_typed (pf_amount s))) (\<lambda>pos. if \<not> pos then Inr False
       else rmap (\<lambda>c. c \<ge> 0) (compare_amounts (amount_typed (pf_amount s)) m)))"

definition min_burn_read :: "effective_value option \<Rightarrow> promote_form \<Rightarrow> promote_form" where
  "min_burn_read v s = (case v of None \<Rightarrow> s | Some x \<Rightarrow> s\<lparr>pf_minBurn := Some (ev_value x), pf_amount := ev_value x\<rparr>)"

definition start_promotion :: "promote_form \<Rightarrow> promote_form" where
  "start_promotion s = s\<lparr>pf_open := True, pf_confirming := False, pf_error := None\<rparr>"

text \<open>The first press asks, the second sends.\<close>

definition promote_press :: "promote_form \<Rightarrow> string option \<times> promote_form" where
  "promote_press s = (if \<not> pf_confirming s then (None, s\<lparr>pf_error := None, pf_confirming := True\<rparr>)
     else (Some (pf_amount s), s\<lparr>pf_error := None, pf_confirming := False\<rparr>))"

definition promoted :: "string option \<Rightarrow> promote_form \<Rightarrow> promote_form" where
  "promoted refusal s = (let s1 = s\<lparr>pf_error := refusal\<rparr> in if nullish refusal [] = [] then s1\<lparr>pf_open := False\<rparr> else s1)"

lemma burn_takes_two_presses:
  "fst (promote_press (start_promotion s)) = None \<and> fst (promote_press (snd (promote_press (start_promotion s)))) = Some (pf_amount s)
   \<and> fst (promote_press (snd (promote_press (snd (promote_press (start_promotion s)))))) = None"
  by (simp add: promote_press_def start_promotion_def)

end
