(* ===== verification/WalletPage.thy ===== *)
theory WalletPage
  imports Client Session AccountHistory
begin

text \<open>
  The wallet page (the script of src/web/src/routes/wallet/+page.svelte): the bridge, the
  swap on MAGI's own pools, the send form and the list of operations.  What a press would
  sign is the value of a definition; reads that answer later are two steps.  Comparisons
  of typed Numbers ('over', 'nonzero', 'milli') and the figures written for a reader
  ('fmt') are arguments.
\<close>

section \<open>The page\<close>

record wallet_page =
  wp_account :: "string option"
  wp_me :: "account_view option"
  wp_meter :: "resource_credits option"
  wp_hiveMeter :: "resource_credits option"
  wp_metersRead :: bool
  wp_metersAt :: int
  wp_amount :: string
  wp_asset :: string
  wp_btcAddress :: string
  wp_hiveHbd :: "string option"
  wp_hiveHive :: "string option"
  wp_btc :: "string option"
  wp_busy :: bool
  wp_msg :: "string option"
  wp_err :: "string option"
  wp_swapFrom :: string
  wp_swapTo :: string
  wp_swapAmount :: string
  wp_swapErr :: "string option"
  wp_swapMsg :: "string option"
  wp_quote :: "magi_estimate option"
  wp_quoting :: bool
  wp_sendAsset :: string
  wp_sendTo :: string
  wp_sendAmount :: string
  wp_sendMemo :: string
  wp_sendErr :: "string option"
  wp_sendMsg :: "string option"
  wp_warnedFor :: string
  wp_ops :: "account_op list"
  wp_opsLoaded :: bool

definition blank_wallet_page :: wallet_page where
  "blank_wallet_page = \<lparr>wp_account = None, wp_me = None, wp_meter = None, wp_hiveMeter = None, wp_metersRead = False, wp_metersAt = 0,
     wp_amount = [], wp_asset = ''HBD'', wp_btcAddress = [], wp_hiveHbd = None, wp_hiveHive = None, wp_btc = None, wp_busy = False,
     wp_msg = None, wp_err = None, wp_swapFrom = ''HBD'', wp_swapTo = ''BTC'', wp_swapAmount = [], wp_swapErr = None,
     wp_swapMsg = None, wp_quote = None, wp_quoting = False, wp_sendAsset = ''LASSECASH'', wp_sendTo = [], wp_sendAmount = [],
     wp_sendMemo = [], wp_sendErr = None, wp_sendMsg = None, wp_warnedFor = [], wp_ops = [], wp_opsLoaded = False\<rparr>"

section \<open>The bridge\<close>

datatype bridge_way = IntoMagi | OutOfMagi

definition hive_side :: "wallet_page \<Rightarrow> string option" where
  "hive_side s = (if wp_asset s = ''HBD'' then wp_hiveHbd s else wp_hiveHive s)"

definition magi_units :: "wallet_page \<Rightarrow> int" where
  "magi_units s = (case wp_me s of None \<Rightarrow> 0 | Some v \<Rightarrow> if wp_asset s = ''HBD'' then av_hbd v else av_hive v)"

text \<open>'over a b': the Number a is above b by more than the tolerance.\<close>

definition move_refused :: "(string \<Rightarrow> bool) \<Rightarrow> (string \<Rightarrow> string \<Rightarrow> bool) \<Rightarrow> (string \<Rightarrow> string) \<Rightarrow> bridge_way \<Rightarrow> wallet_page \<Rightarrow> string option" where
  "move_refused positive over fmt w s = (let a = wp_amount s; magi = fromUnits (magi_units s) in
     if \<not> positive a then Some ''Enter an amount'' else
     case w of
       IntoMagi \<Rightarrow> (case hive_side s of
           Some h \<Rightarrow> if over a h then Some (''A deposit spends your Hive '' @ wp_asset s @ em_dash @ ''you have '' @ fmt h @ '' there.''
               @ (if \<not> over a magi then '' '' @ fmt a @ '' is on your MAGI side: to move it to Hive, press Withdraw to Hive.'' else []))
             else None
         | None \<Rightarrow> None)
     | OutOfMagi \<Rightarrow> if over a magi then Some (''A withdrawal spends your MAGI '' @ wp_asset s @ em_dash @ ''you have '' @ fmt magi @ '' there.''
             @ (case hive_side s of Some h \<Rightarrow> if \<not> over a h then '' '' @ fmt a @ '' is on your Hive side: to move it to MAGI, press Deposit to MAGI.'' else []
                | None \<Rightarrow> []))
           else None)"

definition start_move :: "(string \<Rightarrow> bool) \<Rightarrow> (string \<Rightarrow> string \<Rightarrow> bool) \<Rightarrow> (string \<Rightarrow> string) \<Rightarrow> bridge_way \<Rightarrow> wallet_page \<Rightarrow> wallet_page \<times> (string \<times> string) option" where
  "start_move positive over fmt w s = (case move_refused positive over fmt w s of
     Some m \<Rightarrow> (s\<lparr>wp_err := Some m\<rparr>, None)
   | None \<Rightarrow> (s\<lparr>wp_busy := True, wp_err := None, wp_msg := None\<rparr>, Some (wp_amount s, wp_asset s)))"

definition bridge_moved :: "bridge_way \<Rightarrow> tx_result result \<Rightarrow> wallet_page \<Rightarrow> wallet_page" where
  "bridge_moved w r s = (case r of
     Inl e \<Rightarrow> s\<lparr>wp_err := Some (message_of e), wp_busy := False\<rparr>
   | Inr res \<Rightarrow> if \<not> tr_ok res then s\<lparr>wp_err := Some (tr_msg res), wp_busy := False\<rparr>
       else s\<lparr>wp_msg := Some (case w of
           IntoMagi \<Rightarrow> ''Sent to the gateway. Your MAGI '' @ wp_asset s @ '' balance updates within a few minutes.''
         | OutOfMagi \<Rightarrow> ''Withdrawal submitted. The '' @ wp_asset s @ '' lands on Hive within a few minutes.''),
         wp_amount := [], wp_busy := False\<rparr>)"

definition btc_withdrawn :: "string option \<Rightarrow> wallet_page \<Rightarrow> wallet_page" where
  "btc_withdrawn refusal s = (let s1 = s\<lparr>wp_err := None, wp_msg := None\<rparr> in
     if nullish refusal [] \<noteq> [] then s1\<lparr>wp_err := refusal\<rparr>
     else s1\<lparr>wp_msg := Some (''Sent '' @ wp_amount s @ '' BTC to '' @ take 10 (wp_btcAddress s) @ [CHR 0xE2, CHR 0x80, CHR 0xA6]
        @ em_dash @ ''Bitcoin confirmation takes its own time.''), wp_amount := [], wp_btcAddress := []\<rparr>)"

text \<open>The HBD that can leave in one call, on the meter that HBD itself is.\<close>

definition wallet_reserve :: int where "wallet_reserve = 5500"
definition wallet_milli :: int where "wallet_milli = 100000"

definition wallet_spendable :: "wallet_page \<Rightarrow> int" where
  "wallet_spendable s = (let bal = (case wp_me s of None \<Rightarrow> 0 | Some v \<Rightarrow> av_hbd v) in
     case wp_meter s of None \<Rightarrow> bal
     | Some m \<Rightarrow> let byRc = max 0 (rc_amount m - wallet_reserve) * wallet_milli in if byRc < bal then byRc else bal)"

definition maxBridge :: "bridge_way \<Rightarrow> wallet_page \<Rightarrow> wallet_page" where
  "maxBridge w s = (case w of
     IntoMagi \<Rightarrow> (case hive_side s of Some h \<Rightarrow> s\<lparr>wp_amount := h\<rparr> | None \<Rightarrow> s)
   | OutOfMagi \<Rightarrow> s\<lparr>wp_amount := fromUnits (if wp_asset s = ''HBD'' then wallet_spendable s else magi_units s)\<rparr>)"

definition canDeposit :: "(string \<Rightarrow> bool) \<Rightarrow> wallet_page \<Rightarrow> bool" where
  "canDeposit positive s = (case hive_side s of None \<Rightarrow> True | Some h \<Rightarrow> positive h)"

definition canWithdraw :: "wallet_page \<Rightarrow> bool" where
  "canWithdraw s = (magi_units s > 0)"

section \<open>The swap on MAGI's pools\<close>

definition settle_target :: "wallet_page \<Rightarrow> wallet_page" where
  "settle_target s = (let ts = counterparts (wp_swapFrom s) in
     if wp_swapTo s \<in> set ts then s else s\<lparr>wp_swapTo := (case ts of t # _ \<Rightarrow> t | [] \<Rightarrow> ''HBD'')\<rparr>)"

text \<open>The effect of a change: an amount that is no number, or none, clears the quote; any other
  leaves the quote on screen until the new answer is there.\<close>

definition requote :: "(string \<Rightarrow> bool) \<Rightarrow> wallet_page \<Rightarrow> wallet_page \<times> (string \<times> string \<times> string) option" where
  "requote nonzero s = (if \<not> nonzero (wp_swapAmount s) then (s\<lparr>wp_quote := None\<rparr>, None)
     else (s\<lparr>wp_quoting := True\<rparr>, Some (wp_swapFrom s, wp_swapTo s, wp_swapAmount s)))"

definition swap_quoted :: "magi_estimate option result \<Rightarrow> wallet_page \<Rightarrow> wallet_page" where
  "swap_quoted r s = s\<lparr>wp_quote := or_default None r, wp_quoting := False\<rparr>"

definition swapFloor :: "rat \<Rightarrow> wallet_page \<Rightarrow> string option" where
  "swapFloor slip s = map_option (\<lambda>q. unitsToDecimal (swap_floor (mgq_amountOutUnits (mge_quote q)) slip) (nullish (ASSET_SCALE (wp_swapTo s)) 1000)) (wp_quote s)"

definition choose_pair :: "string \<Rightarrow> string \<Rightarrow> wallet_page \<Rightarrow> wallet_page" where
  "choose_pair f t s = settle_target (s\<lparr>wp_swapFrom := f, wp_swapTo := t\<rparr>)"

definition flipSwap :: "wallet_page \<Rightarrow> wallet_page" where
  "flipSwap s = (let f = wp_swapFrom s; t = wp_swapTo s in
     if f \<notin> set (counterparts t) then s else s\<lparr>wp_swapFrom := t, wp_swapTo := f, wp_swapAmount := []\<rparr>)"

definition MAGI_SWAP_RC :: int where "MAGI_SWAP_RC = 700"

definition magi_swap_press :: "(int \<Rightarrow> string) \<Rightarrow> wallet_page \<Rightarrow> wallet_page \<times> (string \<times> string \<times> string) option" where
  "magi_swap_press fmtn s = (if wp_quote s = None then (s, None) else
     let s1 = s\<lparr>wp_swapErr := None, wp_swapMsg := None\<rparr>; go = (s1, Some (wp_swapFrom s, wp_swapTo s, wp_swapAmount s)) in
     case wp_meter s of None \<Rightarrow> go
     | Some m \<Rightarrow> if rc_amount m < MAGI_SWAP_RC
         then (s1\<lparr>wp_swapErr := Some (''Not enough resource credits on MAGI: '' @ fmtn (rc_amount m) @ '' of '' @ fmtn (rc_max m)
           @ '' available, and a swap reserves '' @ fmtn MAGI_SWAP_RC
           @ ''. Spent credits recover over five days; HBD held on MAGI raises the meter immediately.'')\<rparr>, None)
         else go)"

text \<open>After the verdict; the pair and amount in the message are those of the press, except
  the asset received, which is the one chosen by then.\<close>

definition magi_swapped :: "string \<times> string \<times> string \<Rightarrow> string option \<Rightarrow> wallet_page \<Rightarrow> wallet_page" where
  "magi_swapped c refusal s = (case c of (f, _, a) \<Rightarrow>
     if nullish refusal [] \<noteq> [] then s\<lparr>wp_swapErr := refusal\<rparr>
     else s\<lparr>wp_swapMsg := Some (''Swapped '' @ a @ '' '' @ f @ '' for '' @ wp_swapTo s @ ''.''), wp_swapAmount := []\<rparr>)"

section \<open>Sending\<close>

definition SEND_RC_FLOOR :: int where "SEND_RC_FLOOR = 1000"

definition send_recipient :: "wallet_page \<Rightarrow> string" where
  "send_recipient s = strip_prefix ''@'' (js_trim (wp_sendTo s))"

definition send_key :: "string \<Rightarrow> string \<Rightarrow> string \<Rightarrow> string" where
  "send_key asset amount to = asset @ ''|'' @ amount @ ''|'' @ to"

text \<open>'milli': the typed amount in thousandths, rounded; None where it is no finite number.\<close>

definition send_drains :: "(string \<Rightarrow> int option) \<Rightarrow> wallet_page \<Rightarrow> bool" where
  "send_drains milli s = (wp_sendAsset s = ''HBD'' \<and> (case (wp_meter s, milli (wp_sendAmount s)) of
     (Some m, Some k) \<Rightarrow> k > 0 \<and> rc_amount m - k < SEND_RC_FLOOR | _ \<Rightarrow> False))"

definition drain_warning :: "(string \<Rightarrow> int option) \<Rightarrow> (int \<Rightarrow> string) \<Rightarrow> wallet_page \<Rightarrow> string" where
  "drain_warning milli fmtn s = (let k = nullish (milli (wp_sendAmount s)) 0; left = (case wp_meter s of Some m \<Rightarrow> rc_amount m - k | None \<Rightarrow> 0) in
     ''Sending '' @ wp_sendAmount s @ '' HBD also lowers your resource credits by '' @ fmtn k @ em_dash
     @ ''you would have '' @ fmtn (max 0 left) @ '' left, and claims, swaps, posts and votes on MAGI ''
     @ ''would be refused until credits recover (about five days), or until HBD is deposited again. ''
     @ ''Press Send again to do it anyway.'')"

definition send_press :: "(string \<Rightarrow> int option) \<Rightarrow> (int \<Rightarrow> string) \<Rightarrow> wallet_page \<Rightarrow> wallet_page \<times> (string \<times> string \<times> string \<times> string) option" where
  "send_press milli fmtn s = (let s1 = s\<lparr>wp_sendErr := None, wp_sendMsg := None\<rparr>; to = send_recipient s;
       key = send_key (wp_sendAsset s) (wp_sendAmount s) to in
     if send_drains milli s \<and> wp_warnedFor s \<noteq> key
     then (s1\<lparr>wp_warnedFor := key, wp_sendErr := Some (drain_warning milli fmtn s)\<rparr>, None)
     else (s1, Some (wp_sendAsset s, to, wp_sendAmount s, wp_sendMemo s)))"

definition sent :: "string \<times> string \<times> string \<times> string \<Rightarrow> string option \<Rightarrow> wallet_page \<Rightarrow> wallet_page" where
  "sent c refusal s = (case c of (asset, to, amount, _) \<Rightarrow>
     if nullish refusal [] \<noteq> [] then s\<lparr>wp_sendErr := refusal\<rparr>
     else s\<lparr>wp_sendMsg := Some (''Sent '' @ amount @ '' '' @ asset @ '' to @'' @ to @ ''.''), wp_sendAmount := [], wp_sendMemo := []\<rparr>)"

section \<open>Operations and meters\<close>

definition shown_ops :: "wallet_page \<Rightarrow> account_op list" where
  "shown_ops s = groupPoolClaims (hideSpentAllowances (wp_ops s))"

definition ops_read :: "account_op list result \<Rightarrow> wallet_page \<Rightarrow> wallet_page" where
  "ops_read r s = (if nullish (wp_account s) [] = [] then s else s\<lparr>wp_ops := or_default [] r, wp_opsLoaded := True\<rparr>)"

text \<open>The effect that asks for the operations: once.\<close>

definition asks_ops :: "wallet_page \<Rightarrow> bool" where
  "asks_ops s = (nullish (wp_account s) [] \<noteq> [] \<and> \<not> wp_opsLoaded s)"

definition meters_read :: "resource_credits option \<Rightarrow> resource_credits option \<Rightarrow> (string \<times> string) option \<Rightarrow> string option \<Rightarrow> wallet_page \<Rightarrow> wallet_page" where
  "meters_read m h hb btc s = s\<lparr>wp_meter := m, wp_hiveMeter := h, wp_metersRead := True,
     wp_hiveHbd := map_option fst hb, wp_hiveHive := map_option snd hb, wp_btc := btc\<rparr>"

definition METERS_EVERY_MS :: int where "METERS_EVERY_MS = 25000"

definition asks_meters :: "int option \<Rightarrow> int \<Rightarrow> wallet_page \<Rightarrow> bool" where
  "asks_meters ht now s = ((wp_metersRead s \<and> nullish ht 0 \<noteq> 0 \<and> now - wp_metersAt s \<ge> METERS_EVERY_MS)
     \<or> (nullish (wp_account s) [] \<noteq> [] \<and> \<not> wp_metersRead s))"

section \<open>A send that empties the meter\<close>

text \<open>Every sequence of typing, reads and presses; the log holds the warnings shown and
  the HBD sends made, each with the credits it would leave.\<close>

datatype send_event = Warned string string | SentHbd string string int

inductive wallet_step :: "(string \<Rightarrow> int option) \<Rightarrow> wallet_page \<times> send_event list \<Rightarrow> wallet_page \<times> send_event list \<Rightarrow> bool" for milli where
  edit: "wallet_step milli (s, l) (s\<lparr>wp_sendAsset := a, wp_sendTo := t, wp_sendAmount := n, wp_sendMemo := m\<rparr>, l)"
| account: "wallet_step milli (s, l) (s\<lparr>wp_account := a, wp_me := v\<rparr>, l)"
| meters: "wallet_step milli (s, l) (meters_read mm h hb btc s, l)"
| ops: "wallet_step milli (s, l) (ops_read r s, l)"
| warn: "send_press milli fmtn s = (t, None) \<Longrightarrow> wallet_step milli (s, l) (t, Warned (wp_sendAmount s) (send_recipient s) # l)"
| send: "send_press milli fmtn s = (t, Some (asset, to, amount, memo)) \<Longrightarrow>
    wallet_step milli (s, l) (t, (case (asset = ''HBD'', wp_meter s, milli amount) of
      (True, Some m, Some k) \<Rightarrow> if k > 0 then SentHbd amount to (rc_amount m - k) # l else l | _ \<Rightarrow> l))"
| verdict: "wallet_step milli (s, l) (sent c refusal s, l)"

text \<open>A send that leaves too few credits follows a warning of the same amount and
  recipient.\<close>

primrec warned_first :: "send_event list \<Rightarrow> bool" where
  "warned_first [] = True"
| "warned_first (e # l) = (warned_first l \<and> (case e of SentHbd amount to left \<Rightarrow> left < SEND_RC_FLOOR \<longrightarrow> Warned amount to \<in> set l | _ \<Rightarrow> True))"

definition remembers :: "(string \<Rightarrow> int option) \<Rightarrow> wallet_page \<times> send_event list \<Rightarrow> bool" where
  "remembers milli x = (warned_first (snd x) \<and> (wp_warnedFor (fst x) = [] \<or>
     (\<exists>amount to. milli amount \<noteq> None \<and> wp_warnedFor (fst x) = send_key ''HBD'' amount to \<and> Warned amount to \<in> set (snd x))))"

definition numeric :: "(string \<Rightarrow> int option) \<Rightarrow> bool" where
  "numeric milli = (\<forall>a. milli a \<noteq> None \<longrightarrow> CHR ''|'' \<notin> set a)"

lemma split_once: "c \<notin> set xs \<Longrightarrow> c \<notin> set ys \<Longrightarrow> xs @ c # us = ys @ c # vs \<Longrightarrow> xs = ys \<and> us = vs"
  by (induction xs arbitrary: ys) (auto simp: Cons_eq_append_conv append_eq_Cons_conv split: list.splits)

lemma send_key_inj:
  "numeric milli \<Longrightarrow> milli a \<noteq> None \<Longrightarrow> milli b \<noteq> None \<Longrightarrow> send_key ''HBD'' a t = send_key ''HBD'' b u \<Longrightarrow> a = b \<and> t = u"
  using split_once [of "CHR ''|''" a b t u] by (simp add: send_key_def numeric_def)

lemma press_warns:
  "send_press milli fmtn s = (t, None) \<Longrightarrow> milli (wp_sendAmount s) \<noteq> None \<and> wp_warnedFor t = send_key ''HBD'' (wp_sendAmount s) (send_recipient s)"
  by (auto simp: send_press_def send_drains_def Let_def split: if_splits option.splits)

lemma press_sends:
  "send_press milli fmtn s = (t, Some (asset, to, amount, memo)) \<Longrightarrow> asset = wp_sendAsset s \<and> to = send_recipient s \<and> amount = wp_sendAmount s \<and>
     wp_warnedFor t = wp_warnedFor s \<and> (send_drains milli s \<longrightarrow> wp_warnedFor s = send_key ''HBD'' amount to)"
  by (auto simp: send_press_def Let_def send_drains_def split: if_splits)

lemma wallet_step_remembers:
  assumes n: "numeric milli"
  shows "wallet_step milli x y \<Longrightarrow> remembers milli x \<Longrightarrow> remembers milli y"
proof (induction rule: wallet_step.induct)
  case (warn fmtn s t l)
  show ?case using press_warns [OF warn(1)] warn(2) by (auto simp: remembers_def)
next
  case (send fmtn s t asset to amount memo l)
  note p = press_sends [OF send(1)]
  have "Warned amount to \<in> set l" if "asset = ''HBD''" "wp_meter s = Some m" "milli amount = Some k" "k > 0" "rc_amount m - k < SEND_RC_FLOOR" for m k
  proof -
    have "send_drains milli s" using that p by (simp add: send_drains_def)
    then have w: "wp_warnedFor s = send_key ''HBD'' amount to" using p by blast
    then obtain a u where a: "milli a \<noteq> None" "send_key ''HBD'' amount to = send_key ''HBD'' a u" "Warned a u \<in> set l"
      using send(2) by (auto simp: remembers_def send_key_def)
    then show ?thesis using send_key_inj [OF n _ a(1), of amount to u] that(3) by simp
  qed
  then show ?case using send(2) p by (auto simp: remembers_def split: option.splits bool.splits)
qed (auto simp: remembers_def meters_read_def ops_read_def sent_def split: prod.splits)


text \<open>One HBD to bob on a meter of fifteen hundred: warned, then sent.\<close>

abbreviation one_hbd :: "string \<Rightarrow> int option" where
  "one_hbd \<equiv> \<lambda>a. if a = ''1'' then Some 1000 else None"

abbreviation sender :: wallet_page where
  "sender \<equiv> meters_read (Some \<lparr>rc_amount = 1500, rc_max = 10000\<rparr>) None None None
     (blank_wallet_page\<lparr>wp_sendAsset := ''HBD'', wp_sendTo := ''bob'', wp_sendAmount := ''1'', wp_sendMemo := []\<rparr>)"

lemma sender_fields:
  "wp_sendAsset sender = ''HBD''" "wp_sendAmount sender = ''1''" "send_recipient sender = ''bob''" "wp_sendMemo sender = []"
  "wp_meter sender = Some \<lparr>rc_amount = 1500, rc_max = 10000\<rparr>" "wp_warnedFor sender = []"
  by (simp_all add: meters_read_def blank_wallet_page_def send_recipient_def strip_prefix_def starts_with_def js_trim_def is_space_def)

abbreviation warned_sender :: wallet_page where
  "warned_sender \<equiv> fst (send_press one_hbd show_int sender)"

lemma warned_press:
  "send_press one_hbd show_int sender = (warned_sender, None)"
  by (simp add: send_press_def send_drains_def sender_fields SEND_RC_FLOOR_def send_key_def Let_def)

lemma second_press:
  "send_press one_hbd show_int warned_sender = (warned_sender\<lparr>wp_sendErr := None, wp_sendMsg := None\<rparr>, Some (''HBD'', ''bob'', ''1'', []))"
proof -
  have f: "wp_sendAsset warned_sender = ''HBD''" "wp_sendAmount warned_sender = ''1''" "wp_sendTo warned_sender = wp_sendTo sender"
    "wp_sendMemo warned_sender = []" "wp_meter warned_sender = wp_meter sender" "wp_warnedFor warned_sender = send_key ''HBD'' ''1'' ''bob''"
    by (simp_all add: send_press_def send_drains_def sender_fields SEND_RC_FLOOR_def send_key_def Let_def)
  then have "send_recipient warned_sender = ''bob''" using sender_fields(3) by (simp add: send_recipient_def)
  then show ?thesis by (simp add: send_press_def [of _ _ warned_sender] f Let_def)
qed


section \<open>What outlives its question\<close>

text \<open>The operations are asked for once in the page's life: after a change of account the
  list is still the previous account's, and no effect asks again.\<close>

lemma ops_outlive_account:
  "nullish (wp_account s) [] \<noteq> [] \<Longrightarrow> \<not> asks_ops ((ops_read r s)\<lparr>wp_account := b\<rparr>)
     \<and> shown_ops ((ops_read r s)\<lparr>wp_account := b\<rparr>) = shown_ops (ops_read r s)"
  by (simp add: asks_ops_def ops_read_def shown_ops_def)

text \<open>Until the new answer is there, the floor on screen is the old pair's output read at the
  new asset's scale, and the button is enabled.\<close>

lemma floor_of_old_pair:
  assumes "wp_quote s = Some q" "wp_meter s = None" "t \<in> set (counterparts f)"
  shows "swapFloor slip (choose_pair f t s) = Some (unitsToDecimal (swap_floor (mgq_amountOutUnits (mge_quote q)) slip) (nullish (ASSET_SCALE t) 1000))
    \<and> snd (magi_swap_press fmtn (choose_pair f t s)) = Some (f, t, wp_swapAmount s)"
  using assms by (simp add: choose_pair_def settle_target_def swapFloor_def magi_swap_press_def Let_def)

end
