(* ===== verification/CheckPage.thy ===== *)
theory CheckPage
  imports AccountHistory Engine
begin

text \<open>
  The snapshot checker's page (the script and the verdict of
  src/web/src/routes/check/+page.svelte) and the tables under it
  (src/web/src/lib/MigrationTables.svelte).  The published files, Hive's and Hive-Engine's
  answers are arguments; a lookup and the two reads it leaves running are steps.  The
  dates of the index are what Date.parse makes of them.
\<close>

section \<open>The page\<close>

record status_row =
  sr_in :: bool
  sr_liquid :: string
  sr_staked :: string
  sr_reason :: string
  sr_protocol :: bool

record status_index =
  ix_generated :: int
  ix_cutoff :: int

text \<open>'ck_reads' are the names whose Hive-Engine operations are being read, 'ck_asks' those
  asked of Hive, and 'ck_opsOf' the name the operations on screen were read for; the
  program keeps none of them.\<close>

record check_page =
  ck_query :: string
  ck_looking :: bool
  ck_asked :: string
  ck_row :: "status_row option"
  ck_missing :: bool
  ck_hiveExists :: "bool option"
  ck_index :: "status_index option"
  ck_ops :: "he_op list option"
  ck_liveError :: bool
  ck_headBlock :: "int option"
  ck_reads :: "string list"
  ck_asks :: "string list"
  ck_opsOf :: "string option"

definition fresh_check :: check_page where
  "fresh_check = \<lparr>ck_query = [], ck_looking = False, ck_asked = [], ck_row = None, ck_missing = False, ck_hiveExists = None,
     ck_index = None, ck_ops = None, ck_liveError = False, ck_headBlock = None, ck_reads = [], ck_asks = [], ck_opsOf = None\<rparr>"

text \<open>What a holding is worth, by the pool's reserves.\<close>

definition poolHbd :: "engine \<Rightarrow> (string \<times> string) option \<Rightarrow> int \<Rightarrow> string option" where
  "poolHbd e reserves units = (case reserves of None \<Rightarrow> None
   | Some (l, h) \<Rightarrow> if \<not> engineReady e then None else
       (case rbind (toBaseUnitArg l) (\<lambda>a. rbind (toBaseUnitArg h) (lcToHbd e (show_int units) a)) of
          Inr (Some v) \<Rightarrow> (case isZero v of Inr False \<Rightarrow> Some v | _ \<Rightarrow> None)
        | _ \<Rightarrow> None))"

section \<open>A lookup\<close>

definition start_lookup :: "check_page \<Rightarrow> check_page" where
  "start_lookup s = (let n = cleanName (ck_query s) in if n = [] then s
     else s\<lparr>ck_looking := True, ck_asked := n, ck_row := None, ck_missing := False, ck_hiveExists := None, ck_ops := None, ck_opsOf := None\<rparr>)"

text \<open>The shard has answered: the verdict, and the reads started and not waited for.\<close>

definition shard_answer :: "status_index option \<Rightarrow> (string \<Rightarrow> status_row option) \<Rightarrow> check_page \<Rightarrow> check_page" where
  "shard_answer ix rows s = (let n = ck_asked s; r = rows n in
     s\<lparr>ck_index := (case ck_index s of Some i \<Rightarrow> Some i | None \<Rightarrow> ix), ck_row := r, ck_missing := (r = None), ck_looking := False,
       ck_asks := (if r = None then n # ck_asks s else ck_asks s),
       ck_reads := (if (case r of Some x \<Rightarrow> sr_in x | None \<Rightarrow> False) then ck_reads s else n # ck_reads s),
       ck_liveError := (if (case r of Some x \<Rightarrow> sr_in x | None \<Rightarrow> False) then ck_liveError s else False)\<rparr>)"

definition retry_recent :: "check_page \<Rightarrow> check_page" where
  "retry_recent s = s\<lparr>ck_liveError := False, ck_reads := ck_asked s # ck_reads s\<rparr>"

definition recent_answer :: "string \<Rightarrow> he_op list result \<Rightarrow> check_page \<Rightarrow> check_page" where
  "recent_answer n r s = (let s1 = s\<lparr>ck_reads := remove1 n (ck_reads s), ck_opsOf := Some n\<rparr> in
     case r of Inr os \<Rightarrow> s1\<lparr>ck_ops := Some os\<rparr> | Inl _ \<Rightarrow> s1\<lparr>ck_ops := Some [], ck_liveError := True\<rparr>)"

definition exists_answer :: "string \<Rightarrow> bool result \<Rightarrow> check_page \<Rightarrow> check_page" where
  "exists_answer n r s = s\<lparr>ck_asks := remove1 n (ck_asks s), ck_hiveExists := (case r of Inr b \<Rightarrow> Some b | Inl _ \<Rightarrow> None)\<rparr>"

section \<open>The verdict\<close>

definition SNAPSHOT_BLOCK :: int where "SNAPSHOT_BLOCK = 109504918"
definition SNAPSHOT_TS :: int where "SNAPSHOT_TS = 1788177600000"

definition snapshotFinal :: "int \<Rightarrow> check_page \<Rightarrow> bool" where
  "snapshotFinal now s = (case ck_headBlock s of Some h \<Rightarrow> h \<ge> SNAPSHOT_BLOCK | None \<Rightarrow> now \<ge> SNAPSHOT_TS + 4 * 3600000)"

definition pendingFinalData :: "int \<Rightarrow> check_page \<Rightarrow> bool" where
  "pendingFinalData now s = (snapshotFinal now s \<and> (case ck_index s of None \<Rightarrow> True | Some i \<Rightarrow> ix_generated i < SNAPSHOT_TS))"

definition counts_live :: "bool \<Rightarrow> int \<Rightarrow> string \<Rightarrow> he_op \<Rightarrow> bool" where
  "counts_live final cutoff name x = (selfSigned x name \<and> he_timestamp x * 1000 \<ge> cutoff \<and>
     (\<not> final \<or> he_timestamp x * 1000 < SNAPSHOT_TS + 40 * 60000))"

definition liveOp :: "int \<Rightarrow> check_page \<Rightarrow> he_op option" where
  "liveOp now s = (case (ck_ops s, ck_index s) of
     (Some os, Some i) \<Rightarrow> List.find (counts_live (snapshotFinal now s) (ix_cutoff i) (ck_asked s)) os
   | _ \<Rightarrow> None)"

datatype verdict_shown = ProtocolAccount | InSnapshot | NoSuchAccount | InByLiveOp | NeverHeld | NotIn

definition verdict_of :: "int \<Rightarrow> check_page \<Rightarrow> verdict_shown option" where
  "verdict_of now s = (if ck_asked s = [] \<or> ck_looking s then None else
     case ck_row s of
       Some r \<Rightarrow> Some (if sr_protocol r then ProtocolAccount else if sr_in r then InSnapshot
         else if liveOp now s \<noteq> None then InByLiveOp else NotIn)
     | None \<Rightarrow> if \<not> ck_missing s then None
         else Some (if ck_hiveExists s = Some False then NoSuchAccount else if liveOp now s \<noteq> None then InByLiveOp else NeverHeld))"

section \<open>Whose operations the verdict reads\<close>

text \<open>The steps; with 'one', a lookup waits for the reads the one before it started.\<close>

inductive check_step :: "bool \<Rightarrow> check_page \<Rightarrow> check_page \<Rightarrow> bool" for one where
  typed: "check_step one s (s\<lparr>ck_query := q\<rparr>)"
| lookup: "\<not> ck_looking s \<Longrightarrow> \<not> one \<or> (ck_reads s = [] \<and> ck_asks s = []) \<Longrightarrow> check_step one s (start_lookup s)"
| shard: "ck_looking s \<Longrightarrow> check_step one s (shard_answer ix rows s)"
| again: "\<not> ck_looking s \<Longrightarrow> ck_asked s \<noteq> [] \<Longrightarrow> check_step one s (retry_recent s)"
| recent: "n \<in> set (ck_reads s) \<Longrightarrow> check_step one s (recent_answer n r s)"
| hive: "n \<in> set (ck_asks s) \<Longrightarrow> check_step one s (exists_answer n r s)"
| head: "check_step one s (s\<lparr>ck_headBlock := Some h\<rparr>)"

definition own_ops :: "check_page \<Rightarrow> bool" where
  "own_ops s = ((ck_ops s = None \<or> ck_opsOf s = Some (ck_asked s)) \<and> set (ck_reads s) \<subseteq> {ck_asked s})"

lemma check_step_own: "check_step True s t \<Longrightarrow> own_ops s \<Longrightarrow> own_ops t"
proof (induction rule: check_step.induct)
  case (recent n s r)
  then have "n = ck_asked s" by (auto simp: own_ops_def)
  moreover have "set (remove1 n (ck_reads s)) \<subseteq> {ck_asked s}" using recent(2) set_remove1_subset by (fastforce simp: own_ops_def)
  ultimately show ?case by (simp add: own_ops_def recent_answer_def Let_def split: sum.splits)
qed (auto simp: own_ops_def start_lookup_def shard_answer_def retry_recent_def exists_answer_def Let_def)

lemma ops_are_own:
  assumes "(check_step True)\<^sup>*\<^sup>* fresh_check s" "ck_ops s \<noteq> None"
  shows "ck_opsOf s = Some (ck_asked s)"
proof -
  have "own_ops s" using assms(1)
    by (induction rule: rtranclp_induct) (auto simp: check_step_own, simp add: own_ops_def fresh_check_def)
  then show ?thesis using assms(2) by (simp add: own_ops_def)
qed

text \<open>Two names looked up one after the other, and the answer about the first comes last.\<close>

definition unstake :: he_op where
  "unstake = \<lparr>he_timestamp = 1788000000, he_operation = ''tokens_unstakeStart'', he_quantity = ''1'', he_transactionId = [],
     he_from = None, he_to = None\<rparr>"

definition an_index :: status_index where
  "an_index = \<lparr>ix_generated = 0, ix_cutoff = 1787000000000\<rparr>"

definition asked_for :: "string \<Rightarrow> check_page \<Rightarrow> check_page" where
  "asked_for n s = shard_answer (Some an_index) (\<lambda>_. None) (start_lookup (s\<lparr>ck_query := n\<rparr>))"

lemma clean_ab: "cleanName ''a'' = ''a''" "cleanName ''b'' = ''b''"
  by (simp_all add: cleanName_def js_trim_def is_space_def to_lower_def)

lemma asked_for_steps:
  assumes "(check_step False)\<^sup>*\<^sup>* fresh_check s" "\<not> ck_looking s" "cleanName n \<noteq> []"
  shows "(check_step False)\<^sup>*\<^sup>* fresh_check (asked_for n s)"
proof -
  have "check_step False s (s\<lparr>ck_query := n\<rparr>)" by (rule check_step.typed)
  moreover have "check_step False (s\<lparr>ck_query := n\<rparr>) (start_lookup (s\<lparr>ck_query := n\<rparr>))" using assms(2) by (intro check_step.lookup) simp_all
  moreover have "check_step False (start_lookup (s\<lparr>ck_query := n\<rparr>)) (asked_for n s)"
    unfolding asked_for_def using assms(3) by (intro check_step.shard) (simp add: start_lookup_def Let_def)
  ultimately show ?thesis using assms(1) by (meson rtranclp.rtrancl_into_rtrancl)
qed

text \<open>C1: the reads a lookup leaves running are not dropped when another name is looked up,
  and the rule for operations that only their signer can make does not look at the name:
  an account that never held a token is told it is in, by another account's operation.\<close>

theorem verdict_by_other_account:
  "\<exists>s. (check_step False)\<^sup>*\<^sup>* fresh_check s \<and> ck_asked s = ''b'' \<and> ck_opsOf s = Some ''a''
     \<and> ck_row s = None \<and> verdict_of 1788000000000 s = Some InByLiveOp"
proof -
  let ?a = "asked_for ''a'' fresh_check" and ?b = "asked_for ''b'' (asked_for ''a'' fresh_check)"
  let ?s = "recent_answer ''a'' (Inr [unstake]) ?b"
  have f: "ck_looking ?a = False" "ck_reads ?b = [''b'', ''a'']" "ck_asked ?b = ''b''" "ck_row ?b = None" "ck_missing ?b"
    "ck_hiveExists ?b = None" "ck_index ?b = Some an_index" "ck_headBlock ?b = None" "ck_looking ?b = False"
    by (simp_all add: asked_for_def shard_answer_def start_lookup_def fresh_check_def clean_ab Let_def)
  have "(check_step False)\<^sup>*\<^sup>* fresh_check ?b"
    by (intro asked_for_steps) (simp_all add: f(1) clean_ab, simp add: fresh_check_def)
  moreover have "check_step False ?b ?s" by (rule check_step.recent) (simp add: f)
  ultimately have "(check_step False)\<^sup>*\<^sup>* fresh_check ?s" by (rule rtranclp.rtrancl_into_rtrancl)
  moreover have "ck_asked ?s = ''b''" "ck_opsOf ?s = Some ''a''" "ck_row ?s = None" by (simp_all add: recent_answer_def f Let_def)
  moreover have "verdict_of 1788000000000 ?s = Some InByLiveOp"
    by (simp add: verdict_of_def recent_answer_def f Let_def liveOp_def an_index_def counts_live_def unstake_def selfSigned_def
      AUTOMATIC_def SELF_INITIATED_def snapshotFinal_def SNAPSHOT_TS_def)
  ultimately show ?thesis by blast
qed

section \<open>The migration's tables\<close>

datatype mig_badge = SignedBadge | UnresolvedBadge

record raw_migrated =
  rg_account :: string
  rg_liquid :: int
  rg_staked :: int
  rg_reason :: string

record raw_held =
  rh_account :: string
  rh_liquid :: int
  rh_staked :: int

record held_row =
  hr_account :: string
  hr_liquid :: int
  hr_staked :: int
  hr_total :: int

record migrated_row =
  gr_name :: string
  gr_liquid :: int
  gr_total :: int
  gr_lshares :: int
  gr_principal :: int
  gr_reason :: string
  gr_badge :: mig_badge

definition criteriaBadge :: "string \<Rightarrow> mig_badge" where
  "criteriaBadge reason = (if str_includes ''truncated'' reason then UnresolvedBadge else SignedBadge)"

text \<open>The dump of a local chain: shares, and the principal of the mints not ended.\<close>

type_synonym dump_map = "string \<Rightarrow> (int \<times> int) option"

definition accumulate :: "dump_map \<Rightarrow> string \<Rightarrow> int \<times> int" where
  "accumulate m acct = nullish (m acct) (0, 0)"

definition last_underscore :: "string \<Rightarrow> (string \<times> string) option" where
  "last_underscore t = (let r = rev t; after = takeWhile (\<lambda>c. c \<noteq> CHR ''_'') r in
     case dropWhile (\<lambda>c. c \<noteq> CHR ''_'') r of [] \<Rightarrow> None | _ # before \<Rightarrow> Some (rev before, rev after))"

definition dump_entry :: "string \<times> string \<Rightarrow> dump_map \<Rightarrow> dump_map result" where
  "dump_entry kv m = (case kv of (k, v) \<Rightarrow>
     if starts_with ''shr_'' k then (let a = drop 4 k in
       rmap (\<lambda>u. m(a \<mapsto> (u, snd (accumulate m a)))) (big_int (if v = [] then ''0'' else v)))
     else if starts_with ''mint_'' k then (case last_underscore (drop 5 k) of
         None \<Rightarrow> Inr m
       | Some (a, _) \<Rightarrow> (let fs = split_on (CHR ''|'') v in
           if length fs < 6 \<or> fs ! 5 \<noteq> ''0'' then Inr m
           else rmap (\<lambda>u. m(a \<mapsto> (fst (accumulate m a), snd (accumulate m a) + u))) (big_int (if fs ! 0 = [] then ''0'' else fs ! 0))))
     else Inr m)"

primrec loadDump :: "(string \<times> string) list \<Rightarrow> dump_map \<Rightarrow> dump_map result" where
  "loadDump [] m = Inr m"
| "loadDump (kv # kvs) m = rbind (dump_entry kv m) (loadDump kvs)"

definition migrated_row_of :: "dump_map option \<Rightarrow> raw_migrated \<Rightarrow> migrated_row" where
  "migrated_row_of dump r = (let live = (case dump of Some m \<Rightarrow> m (''hive:'' @ rg_account r) | None \<Rightarrow> None);
       ls = (case dump of Some _ \<Rightarrow> fst (nullish live (0, 0)) | None \<Rightarrow> rg_staked r);
       pr = (case dump of Some _ \<Rightarrow> snd (nullish live (0, 0)) | None \<Rightarrow> rg_staked r) in
     \<lparr>gr_name = rg_account r, gr_liquid = rg_liquid r, gr_total = rg_liquid r + ls, gr_lshares = ls, gr_principal = pr,
      gr_reason = rg_reason r, gr_badge = criteriaBadge (rg_reason r)\<rparr>)"

definition held_row_of :: "raw_held \<Rightarrow> held_row" where
  "held_row_of r = \<lparr>hr_account = rh_account r, hr_liquid = rh_liquid r, hr_staked = rh_staked r, hr_total = rh_liquid r + rh_staked r\<rparr>"

definition ONE_LC :: int where "ONE_LC = 100000000"
definition BIG_BURN :: int where "BIG_BURN = 10000 * 100000000"

definition withBalance :: "migrated_row list \<Rightarrow> nat" where
  "withBalance rs = length (filter (\<lambda>r. gr_liquid r + gr_lshares r > ONE_LC) rs)"

definition allTotal :: "held_row list \<Rightarrow> int" where
  "allTotal rs = sum_list (map (\<lambda>r. hr_liquid r + hr_staked r) rs)"

text \<open>How many large holders were burned, what they held, and its share of the whole in
  tenths of a per cent.\<close>

definition bigBurned :: "held_row list \<Rightarrow> nat \<times> int \<times> int option" where
  "bigBurned rs = (let big = filter (\<lambda>r. hr_total r > BIG_BURN) rs; sm = sum_list (map hr_total big); tot = allTotal rs in
     (length big, sm, if tot > 0 then Some (bdiv (sm * 1000) tot) else None))"

definition leafCount :: "held_row list \<Rightarrow> nat" where
  "leafCount rs = length (filter (\<lambda>r. hr_liquid r + hr_staked r > 0) rs)"

text \<open>A column clicked again turns round; a new one starts at its own direction.\<close>

definition toggle_sort :: "'k \<times> int \<Rightarrow> 'k \<Rightarrow> int \<Rightarrow> 'k \<times> int" where
  "toggle_sort st key firstDir = (if fst st = key then (key, if snd st = 1 then -1 else 1) else (key, firstDir))"

text \<open>With no dump, as on the real chain, the table shows the snapshot: what it calls a
  holder's total is what the snapshot recorded.\<close>

lemma totals_without_dump:
  "sum_list (map (\<lambda>r. gr_total (migrated_row_of None r)) rs) = sum_list (map (\<lambda>r. rg_liquid r + rg_staked r) rs)"
  by (simp add: migrated_row_of_def Let_def)

text \<open>The share of the large holders never exceeds the whole.\<close>

lemma big_burn_share:
  assumes "\<forall>r \<in> set rs. rh_liquid r \<ge> 0 \<and> rh_staked r \<ge> 0" "bigBurned (map held_row_of rs) = (n, sm, Some p)"
  shows "0 \<le> p \<and> p \<le> 1000"
proof -
  let ?hs = "map held_row_of rs"
  have tot: "allTotal ?hs = sum_list (map hr_total ?hs)" by (simp add: allTotal_def held_row_of_def o_def)
  have nn: "\<forall>h \<in> set ?hs. hr_total h \<ge> 0" using assms(1) by (auto simp: held_row_of_def)
  have le: "0 \<le> sum_list (map hr_total (filter P hs)) \<and> sum_list (map hr_total (filter P hs)) \<le> sum_list (map hr_total hs)"
    if "\<forall>h \<in> set hs. hr_total h \<ge> 0" for P and hs :: "held_row list" using that by (induction hs) auto
  let ?b = "sum_list (map hr_total (filter (\<lambda>r. hr_total r > BIG_BURN) ?hs))"
  have b: "0 \<le> ?b" "?b \<le> allTotal ?hs" using le [OF nn] tot by auto
  have p: "allTotal ?hs > 0" "p = bdiv (?b * 1000) (allTotal ?hs)" using assms(2) by (auto simp: bigBurned_def Let_def split: if_splits)
  then have "p = ?b * 1000 div allTotal ?hs" using b by (simp add: bdiv_nonneg)
  moreover have "?b * 1000 div allTotal ?hs \<le> allTotal ?hs * 1000 div allTotal ?hs" using b p(1) by (intro zdiv_mono1) simp_all
  then have "?b * 1000 div allTotal ?hs \<le> 1000" using p(1) by simp
  ultimately show ?thesis using b p(1) by (simp add: pos_imp_zdiv_nonneg_iff)
qed

end
